(* ===== verification/Prelude.thy ===== *)
theory Prelude
  imports Main "HOL-Library.Word"
begin

text \<open>
  Shared vocabulary of the development: machine integers and results as the Rust sources use
  them, big-endian byte encodings, slice chunking, and the generic lemmas the component
  theories build on. Nothing here models a file of the repository; it models the parts of the
  language and its standard library (\<^verbatim>\<open>Result\<close>, \<^verbatim>\<open>to_be_bytes\<close>, \<^verbatim>\<open>slice::chunks\<close>,
  saturating and checked arithmetic) that the components call. \<^verbatim>\<open>usize\<close> is 64 bits wide, as on
  the targets the server is built for; lengths of slices are natural numbers.
\<close>

unbundle bit_operations_syntax

named_theorems result_simps \<open>unfolding rules for chained results\<close>
named_theorems byte_simps \<open>lengths and values of byte encodings\<close>

type_synonym u8 = "8 word"
type_synonym u16 = "16 word"
type_synonym u32 = "32 word"
type_synonym u64 = "64 word"
type_synonym bytes = "8 word list"

abbreviation Err :: "'e \<Rightarrow> 'e + 'a" where
  "Err \<equiv> Inl"

abbreviation Ok :: "'a \<Rightarrow> 'e + 'a" where
  "Ok \<equiv> Inr"

section \<open>Results\<close>

text \<open>\<^verbatim>\<open>r?\<close> followed by the rest of the function body.\<close>

definition and_then :: "'e + 'a \<Rightarrow> ('a \<Rightarrow> 'e + 'b) \<Rightarrow> 'e + 'b" where
  "and_then r f = (case r of Err e \<Rightarrow> Err e | Ok x \<Rightarrow> f x)"

text \<open>\<^verbatim>\<open>map_err\<close> and the \<^verbatim>\<open>From\<close> conversion that \<^verbatim>\<open>?\<close> applies to an error.\<close>

definition map_err :: "('e \<Rightarrow> 'f) \<Rightarrow> 'e + 'a \<Rightarrow> 'f + 'a" where
  "map_err g r = (case r of Err e \<Rightarrow> Err (g e) | Ok x \<Rightarrow> Ok x)"

text \<open>\<^verbatim>\<open>ok_or\<close> and \<^verbatim>\<open>ensure!\<close>.\<close>

definition ok_or :: "'a option \<Rightarrow> 'e \<Rightarrow> 'e + 'a" where
  "ok_or m e = (case m of None \<Rightarrow> Err e | Some x \<Rightarrow> Ok x)"

definition ensure :: "bool \<Rightarrow> 'e \<Rightarrow> 'e + unit" where
  "ensure b e = (if b then Ok () else Err e)"

definition is_ok :: "'e + 'a \<Rightarrow> bool" where
  "is_ok r = (case r of Err _ \<Rightarrow> False | Ok _ \<Rightarrow> True)"

text \<open>\<^verbatim>\<open>iter.map(f).collect::<Result<Vec<_>, _>>()\<close>: the first error wins.\<close>

fun collect_results :: "('e + 'a) list \<Rightarrow> 'e + 'a list" where
  "collect_results [] = Ok []"
| "collect_results (r # rs) =
     and_then r (\<lambda>x. and_then (collect_results rs) (\<lambda>xs. Ok (x # xs)))"

section \<open>Integers\<close>

definition saturating_add :: "'a::len word \<Rightarrow> 'a word \<Rightarrow> 'a word" where
  "saturating_add a b = (if unat a + unat b < 2 ^ LENGTH('a) then a + b else - 1)"

definition saturating_sub :: "'a::len word \<Rightarrow> 'a word \<Rightarrow> 'a word" where
  "saturating_sub a b = (if b \<le> a then a - b else 0)"

definition saturating_mul :: "'a::len word \<Rightarrow> 'a word \<Rightarrow> 'a word" where
  "saturating_mul a b = (if unat a * unat b < 2 ^ LENGTH('a) then a * b else - 1)"

definition checked_sub :: "nat \<Rightarrow> nat \<Rightarrow> nat option" where
  "checked_sub a b = (if b \<le> a then Some (a - b) else None)"

definition div_ceil :: "nat \<Rightarrow> nat \<Rightarrow> nat" where
  "div_ceil a b = a div b + (if a mod b = 0 then 0 else 1)"

section \<open>Byte encodings\<close>

text \<open>The last \<open>n\<close> bytes of the big-endian representation; \<open>be_bytes (LENGTH('a) div 8)\<close> is
  \<^verbatim>\<open>to_be_bytes\<close>.\<close>

fun be_bytes :: "nat \<Rightarrow> 'a::len word \<Rightarrow> bytes" where
  "be_bytes 0 w = []"
| "be_bytes (Suc n) w = be_bytes n (drop_bit 8 w) @ [ucast w]"

definition be_push :: "'a::len word \<Rightarrow> u8 \<Rightarrow> 'a word" where
  "be_push v b = push_bit 8 v OR ucast b"

definition from_be_bytes :: "bytes \<Rightarrow> 'a::len word" where
  "from_be_bytes bs = foldl be_push 0 bs"

definition be_val :: "nat \<Rightarrow> bytes \<Rightarrow> nat" where
  "be_val = foldl (\<lambda>v b. v * 256 + unat b)"

section \<open>Slices\<close>

text \<open>\<^verbatim>\<open>slice::chunks\<close>; the callers pass a positive size (Rust panics on zero).\<close>

function chunks :: "nat \<Rightarrow> 'a list \<Rightarrow> 'a list list" where
  "chunks n xs = (if n = 0 \<or> xs = [] then [] else take n xs # chunks n (drop n xs))"
  by pat_completeness auto
termination
  by (relation "measure (\<lambda>(n, xs). length xs)") auto

declare chunks.simps [simp del]

section \<open>Lemmas\<close>

subsection \<open>Results\<close>

lemma and_then_simps [simp]:
  "and_then (Err e) f = Err e" "and_then (Ok x) f = f x"
  by (simp_all add: and_then_def)

lemma and_then_eq_Ok [result_simps]:
  "and_then r f = Ok y \<longleftrightarrow> (\<exists>x. r = Ok x \<and> f x = Ok y)"
  by (cases r) simp_all

lemma and_then_eq_Err [result_simps]:
  "and_then r f = Err e \<longleftrightarrow> r = Err e \<or> (\<exists>x. r = Ok x \<and> f x = Err e)"
  by (cases r) simp_all

lemma map_err_simps [simp]:
  "map_err g (Err e) = Err (g e)" "map_err g (Ok x) = Ok x"
  by (simp_all add: map_err_def)

lemma map_err_eq_Ok [result_simps]: "map_err g r = Ok x \<longleftrightarrow> r = Ok x"
  by (cases r) simp_all

lemma map_err_eq_Err [result_simps]:
  "map_err g r = Err e \<longleftrightarrow> (\<exists>e'. r = Err e' \<and> e = g e')"
  by (cases r) auto

lemma ok_or_simps [simp]: "ok_or None e = Err e" "ok_or (Some x) e = Ok x"
  by (simp_all add: ok_or_def)

lemma ok_or_eq_Ok [result_simps]: "ok_or m e = Ok x \<longleftrightarrow> m = Some x"
  by (cases m) simp_all

lemma ok_or_eq_Err [result_simps]: "ok_or m e = Err e' \<longleftrightarrow> m = None \<and> e' = e"
  by (cases m) auto

lemma ensure_simps [simp]: "ensure True e = Ok ()" "ensure False e = Err e"
  by (simp_all add: ensure_def)

lemma ensure_eq_Ok [result_simps]: "ensure b e = Ok u \<longleftrightarrow> b"
  by (cases b) simp_all

lemma ensure_eq_Err [result_simps]: "ensure b e = Err e' \<longleftrightarrow> \<not> b \<and> e' = e"
  by (cases b) auto

lemma is_ok_simps [simp]: "is_ok (Ok x)" "\<not> is_ok (Err e)"
  by (simp_all add: is_ok_def)

lemma is_ok_iff: "is_ok r \<longleftrightarrow> (\<exists>x. r = Ok x)"
  by (cases r) simp_all

lemma collect_results_map_Ok: "collect_results (map (\<lambda>x. Ok (f x)) xs) = Ok (map f xs)"
  by (induction xs) simp_all

lemma collect_results_all_Ok:
  assumes "\<forall>r \<in> set rs. \<exists>x. r = Ok x"
  shows "collect_results rs = Ok (map projr rs)"
  using assms by (induction rs) auto

subsection \<open>Integers\<close>

lemma unat_minus_1: "unat (- 1 :: 'a::len word) = 2 ^ LENGTH('a) - 1"
  by (simp only: unsigned_minus_1_eq_mask) (simp add: mask_eq_exp_minus_1)

lemma unat_u8_less: "unat (b :: u8) < 256"
proof -
  have "unat b < 2 ^ LENGTH(8)" by (rule unsigned_less)
  then show ?thesis by simp
qed

lemma unat_saturating_add:
  "unat (saturating_add a b) = min (unat a + unat b) (2 ^ LENGTH('a) - 1)"
  for a b :: "'a::len word"
  by (simp add: saturating_add_def unat_word_ariths unat_minus_1)

lemma saturating_add_ge: "a \<le> saturating_add a b" for a b :: "'a::len word"
proof -
  have "unat a < 2 ^ LENGTH('a)" by (rule unsigned_less)
  then show ?thesis unfolding word_le_nat_alt unat_saturating_add by linarith
qed

lemma unat_saturating_sub: "unat (saturating_sub a b) = unat a - unat b"
  by (auto simp: saturating_sub_def unat_sub word_le_nat_alt)

lemma unat_saturating_mul:
  "unat (saturating_mul a b) = min (unat a * unat b) (2 ^ LENGTH('a) - 1)"
  for a b :: "'a::len word"
  by (simp add: saturating_mul_def unat_word_ariths unat_minus_1)

lemma checked_sub_eq_Some [simp]: "checked_sub a b = Some c \<longleftrightarrow> b \<le> a \<and> c = a - b"
  by (auto simp: checked_sub_def)

lemma checked_sub_eq_None [simp]: "checked_sub a b = None \<longleftrightarrow> a < b"
  by (auto simp: checked_sub_def)

lemma div_ceil_bounds:
  assumes "0 < b"
  shows "a \<le> div_ceil a b * b" "div_ceil a b * b < a + b"
proof -
  have a: "a div b * b + a mod b = a" by simp
  have m: "a mod b < b" using assms by simp
  show "a \<le> div_ceil a b * b"
  proof (cases "a mod b = 0")
    case True
    with a show ?thesis by (simp add: div_ceil_def)
  next
    case False
    have "a \<le> a div b * b + b" using a m by linarith
    with False show ?thesis by (simp add: div_ceil_def algebra_simps)
  qed
  show "div_ceil a b * b < a + b"
  proof (cases "a mod b = 0")
    case True
    with a assms show ?thesis by (simp add: div_ceil_def)
  next
    case False
    have "a div b * b + b < a + b" using a False by linarith
    with False show ?thesis by (simp add: div_ceil_def algebra_simps)
  qed
qed

lemma div_ceil_le:
  assumes "0 < b" "a \<le> b * k"
  shows "div_ceil a b \<le> k"
proof -
  have "div_ceil a b * b < (k + 1) * b"
    using div_ceil_bounds(2) [OF assms(1), of a] assms(2) by (simp add: algebra_simps)
  then have "div_ceil a b < k + 1" by (simp only: mult_less_cancel2)
  then show ?thesis by simp
qed

subsection \<open>Byte encodings\<close>

lemma length_be_bytes [simp, byte_simps]: "length (be_bytes n w) = n"
  by (induction n arbitrary: w) simp_all

lemma unat_ucast_u8: "unat (ucast w :: u8) = unat w mod 256"
  by (simp add: unsigned_ucast_eq take_bit_eq_mod)

lemma unat_drop_8: "unat (drop_bit 8 w) = unat w div 256"
  by (simp only: unat_drop_bit_eq) (simp add: drop_bit_eq_div)

lemma be_val_snoc [simp]: "be_val a (bs @ [b]) = be_val a bs * 256 + unat b"
  by (simp add: be_val_def)

lemma be_val_Nil [simp]: "be_val a [] = a"
  by (simp add: be_val_def)

lemma be_val_Cons [simp]: "be_val a (b # bs) = be_val (a * 256 + unat b) bs"
  by (simp add: be_val_def)

lemma be_val_be_bytes: "be_val 0 (be_bytes n w) = unat w mod 256 ^ n"
proof (induction n arbitrary: w)
  case 0
  then show ?case by simp
next
  case (Suc n)
  have "be_val 0 (be_bytes (Suc n) w) = unat w div 256 mod 256 ^ n * 256 + unat w mod 256"
    by (simp add: Suc unat_drop_8 unat_ucast_u8)
  also have "\<dots> = unat w mod 256 ^ Suc n"
    by (metis mod_mult2_eq mult.commute power_Suc)
  finally show ?case .
qed

lemma be_val_bound: "be_val a bs < (a + 1) * 256 ^ length bs"
proof (induction bs arbitrary: a)
  case Nil
  then show ?case by simp
next
  case (Cons b bs)
  have "unat b < 256" by (rule unat_u8_less)
  then have "(a * 256 + unat b + 1) * 256 ^ length bs \<le> (a + 1) * 256 * 256 ^ length bs"
    by (intro mult_le_mono1) simp
  also have "\<dots> = (a + 1) * 256 ^ length (b # bs)" by (simp only: list.size power_Suc mult.assoc) simp
  finally show ?case
    using Cons [of "a * 256 + unat b"] by (simp only: be_val_Cons)
qed

lemma unat_ucast_up:
  fixes b :: u8
  assumes "8 \<le> LENGTH('a::len)"
  shows "unat (ucast b :: 'a word) = unat b"
proof -
  have "(256::nat) \<le> 2 ^ LENGTH('a)"
    using power_increasing [OF assms, of "2::nat"] by simp
  with unat_u8_less [of b] have "unat b < 2 ^ LENGTH('a)" by linarith
  then show ?thesis by (simp add: unsigned_ucast_eq take_bit_nat_eq_self_iff)
qed

lemma unat_be_push:
  fixes v :: "'a::len word"
  assumes "8 \<le> LENGTH('a)" "unat v * 256 + unat b < 2 ^ LENGTH('a)"
  shows "unat (be_push v b) = unat v * 256 + unat b"
proof -
  have disj: "push_bit 8 v AND ucast b = 0"
    by (rule bit_word_eqI) (auto simp: bit_simps dest: bit_imp_le_length)
  have b: "unat (ucast b :: 'a word) = unat b"
    by (rule unat_ucast_up) (rule assms(1))
  have p: "unat (push_bit 8 v) = unat v * 256"
    using assms(2)
    by (simp only: unsigned_push_bit_eq) (simp add: push_bit_eq_mult take_bit_nat_eq_self_iff)
  have "be_push v b = push_bit 8 v + ucast b"
    unfolding be_push_def using disj by (simp add: disjunctive_add_eq_or)
  then show ?thesis
    using assms(2) b p by (simp add: unat_word_ariths)
qed

lemma unat_foldl_be_push:
  fixes v :: "'a::len word"
  assumes "8 \<le> LENGTH('a)" "(unat v + 1) * 256 ^ length bs \<le> 2 ^ LENGTH('a)"
  shows "unat (foldl be_push v bs) = be_val (unat v) bs"
  using assms(2)
proof (induction bs arbitrary: v)
  case Nil
  then show ?case by simp
next
  case (Cons b bs)
  have b: "unat b < 256" by (rule unat_u8_less)
  have "(unat v * 256 + unat b + 1) * 256 ^ length bs \<le> (unat v + 1) * 256 ^ length (b # bs)"
  proof -
    have "(unat v * 256 + unat b + 1) \<le> (unat v + 1) * 256" using b by simp
    then have "(unat v * 256 + unat b + 1) * 256 ^ length bs \<le> (unat v + 1) * 256 * 256 ^ length bs"
      by (rule mult_le_mono1)
    then show ?thesis by (simp add: algebra_simps)
  qed
  with Cons.prems have le: "(unat v * 256 + unat b + 1) * 256 ^ length bs \<le> 2 ^ LENGTH('a)"
    by linarith
  have "unat v * 256 + unat b < (unat v * 256 + unat b + 1) * 256 ^ length bs"
    by (metis add.commute less_add_one mult.right_neutral mult_le_mono2 one_le_numeral
        one_le_power order_less_le_trans)
  with le have "unat (be_push v b) = unat v * 256 + unat b"
    using assms(1) by (intro unat_be_push) auto
  with Cons.IH [of "be_push v b"] le show ?case by simp
qed

lemma from_be_bytes_be_bytes:
  fixes w :: "'a::len word"
  assumes "LENGTH('a) = 8 * n" "0 < n"
  shows "from_be_bytes (be_bytes n w) = w"
proof -
  have "256 ^ n = (2::nat) ^ LENGTH('a)"
    using assms(1) by (simp add: power_mult)
  then have "unat (from_be_bytes (be_bytes n w) :: 'a word) = unat w mod 2 ^ LENGTH('a)"
    unfolding from_be_bytes_def using assms
    by (subst unat_foldl_be_push) (simp_all add: be_val_be_bytes)
  then show ?thesis by (simp add: word_unat_eq_iff)
qed

subsection \<open>Slices\<close>

lemma chunks_Nil [simp]: "chunks n [] = []"
  by (simp add: chunks.simps)

lemma chunks_eq_Nil [simp]: "0 < n \<Longrightarrow> chunks n xs = [] \<longleftrightarrow> xs = []"
  by (subst chunks.simps) simp

lemma chunks_step: "0 < n \<Longrightarrow> xs \<noteq> [] \<Longrightarrow> chunks n xs = take n xs # chunks n (drop n xs)"
  by (subst chunks.simps) simp

lemma chunks_small: "xs \<noteq> [] \<Longrightarrow> length xs \<le> n \<Longrightarrow> chunks n xs = [xs]"
  using chunks_step [of n xs] by (cases "n = 0") simp_all

lemma concat_chunks: "0 < n \<Longrightarrow> concat (chunks n xs) = xs"
proof (induction n xs rule: chunks.induct)
  case (1 n xs)
  then show ?case by (cases "xs = []") (simp_all add: chunks_step)
qed

lemma in_chunks:
  assumes "0 < n" "c \<in> set (chunks n xs)"
  shows "c \<noteq> [] \<and> length c \<le> n \<and> set c \<subseteq> set xs"
  using assms
proof (induction n xs rule: chunks.induct)
  case (1 n xs)
  then show ?case
    by (cases "xs = []") (auto simp: chunks_step dest: in_set_takeD in_set_dropD)
qed

lemma length_le_concat: "x \<in> set xss \<Longrightarrow> length x \<le> length (concat xss)"
  by (induction xss) auto

lemma length_chunks:
  assumes "0 < n"
  shows "length (chunks n xs) = div_ceil (length xs) n"
  using assms
proof (induction n xs rule: chunks.induct)
  case (1 n xs)
  show ?case
  proof (cases "xs = []")
    case True
    then show ?thesis by (simp add: div_ceil_def)
  next
    case False
    have IH: "length (chunks n (drop n xs)) = div_ceil (length xs - n) n"
      using 1 False by simp
    show ?thesis
    proof (cases "length xs \<le> n")
      case True
      with False "1.prems" show ?thesis
        by (cases "length xs = n") (auto simp: chunks_small div_ceil_def)
    next
      case le: False
      with False "1.prems" IH show ?thesis
        by (simp add: chunks_step div_ceil_def le_div_geq le_mod_geq)
    qed
  qed
qed

end
