(* ===== verification/Salamander.thy ===== *)
theory Salamander
  imports Prelude
begin

text \<open>
  Salamander obfuscation: \<^verbatim>\<open>src/src/salamander.rs\<close> and the socket wrapper
  \<^verbatim>\<open>src/src/salamander_socket.rs\<close>, with its in-place decryption of receive batches. BLAKE2b is the
  argument \<open>blake2b\<close> (output length, input); \<^verbatim>\<open>getrandom::fill\<close> is the argument \<open>random\<close>. A buffer is
  the list of its bytes; an operation that would index out of a buffer's range is \<open>None\<close> (a panic).
\<close>

unbundle bit_operations_syntax

abbreviation SALT_LENGTH :: nat where "SALT_LENGTH \<equiv> 8"

datatype SalamanderError = Salamander_Truncated

type_synonym blake2b = "nat \<Rightarrow> bytes \<Rightarrow> bytes"

definition derive_key :: "blake2b \<Rightarrow> bytes \<Rightarrow> bytes \<Rightarrow> bytes" where
  "derive_key blake2b password salt = blake2b 32 (password @ salt)"

definition apply_keystream :: "blake2b \<Rightarrow> bytes \<Rightarrow> bytes \<Rightarrow> bytes \<Rightarrow> bytes" where
  "apply_keystream blake2b password salt payload =
     (let key = derive_key blake2b password salt in
      map (\<lambda>(index, byte). byte XOR key ! (index mod length key)) (enumerate 0 payload))"

definition encrypt :: "blake2b \<Rightarrow> bytes \<Rightarrow> bytes \<Rightarrow> bytes \<Rightarrow> bytes" where
  "encrypt blake2b password salt payload =
     salt @ apply_keystream blake2b password salt payload"

definition decrypt :: "blake2b \<Rightarrow> bytes \<Rightarrow> bytes \<Rightarrow> SalamanderError + bytes" where
  "decrypt blake2b password packet =
     (if length packet \<le> SALT_LENGTH then Err Salamander_Truncated
      else Ok (apply_keystream blake2b password (take SALT_LENGTH packet) (drop SALT_LENGTH packet)))"

section \<open>The socket\<close>

text \<open>The fields the socket only passes on (addresses, ECN) are type parameters.\<close>

record ('addr, 'ecn, 'ip) Transmit =
  tr_destination :: 'addr
  tr_ecn :: 'ecn
  tr_contents :: bytes
  tr_segment_size :: "nat option"
  tr_src_ip :: 'ip

record 'addr RecvMeta =
  rm_addr :: 'addr
  rm_len :: nat
  rm_stride :: nat

datatype io_error = InvalidInput | RandomFailed | InnerError

definition encrypt_transmit ::
  "blake2b \<Rightarrow> (nat \<Rightarrow> bytes option) \<Rightarrow> bytes \<Rightarrow> ('addr, 'ecn, 'ip) Transmit \<Rightarrow>
   io_error + bytes \<times> nat option" where
  "encrypt_transmit blake2b random password t =
     (let source_segment_size =
        (case tr_segment_size t of Some s \<Rightarrow> s | None \<Rightarrow> length (tr_contents t)) in
      if source_segment_size = 0 then Err InvalidInput
      else
        let segment_count = div_ceil (length (tr_contents t)) source_segment_size in
        case random (segment_count * SALT_LENGTH) of
          None \<Rightarrow> Err RandomFailed
        | Some salts \<Rightarrow>
            Ok (foldl (\<lambda>encrypted (index, segment).
                  let salt = take SALT_LENGTH (drop (index * SALT_LENGTH) salts) in
                  encrypted @ salt @ apply_keystream blake2b password salt segment)
                [] (enumerate 0 (chunks source_segment_size (tr_contents t))),
                map_option (\<lambda>size. size + SALT_LENGTH) (tr_segment_size t)))"

text \<open>\<^verbatim>\<open>try_send\<close>: what the inner socket is asked to send.\<close>

definition try_send ::
  "blake2b \<Rightarrow> (nat \<Rightarrow> bytes option) \<Rightarrow> bytes \<Rightarrow> (('addr, 'ecn, 'ip) Transmit \<Rightarrow> io_error + unit) \<Rightarrow>
   ('addr, 'ecn, 'ip) Transmit \<Rightarrow> io_error + unit" where
  "try_send blake2b random password inner t =
     and_then (encrypt_transmit blake2b random password t) (\<lambda>(contents, segment_size).
       inner (t\<lparr>tr_contents := contents, tr_segment_size := segment_size\<rparr>))"

text \<open>Slices, \<^verbatim>\<open>copy_within\<close>/\<^verbatim>\<open>copy_from_slice\<close> at an offset, and \<^verbatim>\<open>(start..len).step_by(stride)\<close>.\<close>

definition slice :: "'a list \<Rightarrow> nat \<Rightarrow> nat \<Rightarrow> 'a list" where
  "slice xs i j = take (j - i) (drop i xs)"

definition splice :: "'a list \<Rightarrow> nat \<Rightarrow> 'a list \<Rightarrow> 'a list" where
  "splice xs i ys = take i xs @ ys @ drop (i + length ys) xs"

function step_by :: "nat \<Rightarrow> nat \<Rightarrow> nat \<Rightarrow> nat list" where
  "step_by start len stride =
     (if start < len \<and> 0 < stride then start # step_by (start + stride) len stride else [])"
  by auto
termination by (relation "measure (\<lambda>(start, len, stride). len - start)") auto

declare step_by.simps [simp del]

fun decrypt_segments ::
  "blake2b \<Rightarrow> bytes \<Rightarrow> nat \<Rightarrow> nat \<Rightarrow> nat list \<Rightarrow> bytes \<Rightarrow> nat \<Rightarrow> bytes \<times> nat" where
  "decrypt_segments blake2b password stride len [] buf plain_length = (buf, plain_length)"
| "decrypt_segments blake2b password stride len (start # starts) buf plain_length =
     (let stop = min (start + stride) len;
          salt = slice buf start (start + SALT_LENGTH);
          payload_start = start + SALT_LENGTH;
          buf = splice buf payload_start
                  (apply_keystream blake2b password salt (slice buf payload_start stop));
          buf = splice buf plain_length (slice buf payload_start stop)
      in decrypt_segments blake2b password stride len starts buf
           (plain_length + (stop - payload_start)))"

type_synonym 'addr batch = "nat \<times> bytes list \<times> 'addr RecvMeta list"

definition decrypt_receive_one ::
  "blake2b \<Rightarrow> bytes \<Rightarrow> nat \<Rightarrow> 'addr batch \<Rightarrow> 'addr batch option" where
  "decrypt_receive_one blake2b password index st =
     (case st of (target, bufs, meta) \<Rightarrow>
      if index \<ge> length meta \<or> index \<ge> length bufs then None
      else
        let source_meta = meta ! index;
            source_stride = (if rm_stride source_meta = 0 then rm_len source_meta
                             else rm_stride source_meta)
        in if source_stride \<le> SALT_LENGTH \<or> rm_len source_meta > length (bufs ! index)
           then Some (target, bufs, meta)
           else if \<exists>start \<in> set (step_by 0 (rm_len source_meta) source_stride).
                     min (start + source_stride) (rm_len source_meta) - start \<le> SALT_LENGTH
           then Some (target, bufs, meta)
           else
             let (buf, plain_length) = decrypt_segments blake2b password source_stride
                    (rm_len source_meta) (step_by 0 (rm_len source_meta) source_stride)
                    (bufs ! index) 0;
                 bufs = bufs[index := buf];
                 plain_meta = source_meta\<lparr>rm_len := plain_length,
                                          rm_stride := source_stride - SALT_LENGTH\<rparr>
             in if target \<noteq> index \<and> (target \<ge> index \<or> plain_length > length (bufs ! target))
                then None
                else
                  let bufs = (if target \<noteq> index
                              then bufs[target := splice (bufs ! target) 0 (take plain_length (bufs ! index))]
                              else bufs)
                  in Some (Suc target, bufs, meta[target := plain_meta]))"

definition decrypt_receive_batch ::
  "blake2b \<Rightarrow> bytes \<Rightarrow> nat \<Rightarrow> bytes list \<Rightarrow> 'addr RecvMeta list \<Rightarrow> 'addr batch option" where
  "decrypt_receive_batch blake2b password count bufs meta =
     foldl (\<lambda>acc index. Option.bind acc (decrypt_receive_one blake2b password index))
       (Some (0, bufs, meta)) [0..<count]"

text \<open>\<^verbatim>\<open>poll_recv\<close>: the results of the successive calls of the inner socket are a list; after its end
  the inner socket is pending.\<close>

datatype 'a poll = Pending | Ready 'a

fun poll_recv ::
  "blake2b \<Rightarrow> bytes \<Rightarrow> (io_error + 'addr batch) list \<Rightarrow> (io_error + 'addr batch) poll option" where
  "poll_recv blake2b password [] = Some Pending"
| "poll_recv blake2b password (Inl e # inner) = Some (Ready (Inl e))"
| "poll_recv blake2b password (Inr (count, bufs, meta) # inner) =
     (case decrypt_receive_batch blake2b password count bufs meta of
        None \<Rightarrow> None
      | Some (decoded, bufs, meta) \<Rightarrow>
          if decoded > 0 then Some (Ready (Inr (decoded, bufs, meta)))
          else poll_recv blake2b password inner)"

section \<open>Lemmas\<close>

lemma length_apply_keystream [simp]: "length (apply_keystream h pw salt xs) = length xs"
  by (simp add: apply_keystream_def Let_def)

lemma nth_apply_keystream:
  "i < length xs \<Longrightarrow> apply_keystream h pw salt xs ! i =
     xs ! i XOR derive_key h pw salt ! (i mod length (derive_key h pw salt))"
  by (simp add: apply_keystream_def Let_def nth_enumerate_eq)

lemma apply_keystream_involution [simp]:
  "apply_keystream h pw salt (apply_keystream h pw salt xs) = xs"
  by (rule nth_equalityI) (simp_all add: nth_apply_keystream xor.assoc)

lemma length_splice [simp]: "i + length ys \<le> length xs \<Longrightarrow> length (splice xs i ys) = length xs"
  by (simp add: splice_def)

lemma length_slice [simp]: "j \<le> length xs \<Longrightarrow> length (slice xs i j) = j - i"
  by (simp add: slice_def)

lemma take_splice_before: "k \<le> i \<Longrightarrow> i \<le> length xs \<Longrightarrow> take k (splice xs i ys) = take k xs"
  by (simp add: splice_def min_absorb1)

lemma take_splice_after:
  "i \<le> length xs \<Longrightarrow> take (i + length ys) (splice xs i ys) = take i xs @ ys"
  by (simp add: splice_def)

lemma drop_splice_after:
  "i + length ys \<le> k \<Longrightarrow> i \<le> length xs \<Longrightarrow> drop k (splice xs i ys) = drop k xs"
  by (simp add: splice_def drop_append)

lemma slice_splice_same: "i \<le> length xs \<Longrightarrow> slice (splice xs i ys) i (i + length ys) = ys"
  by (simp add: slice_def splice_def)

lemma slice_splice_after:
  "i + length ys \<le> k \<Longrightarrow> i \<le> length xs \<Longrightarrow> slice (splice xs i ys) k j = slice xs k j"
  by (simp add: slice_def drop_splice_after)

text \<open>One segment: salt, then obfuscated payload.\<close>

definition decrypt_segment :: "blake2b \<Rightarrow> bytes \<Rightarrow> bytes \<Rightarrow> bytes" where
  "decrypt_segment h pw c = apply_keystream h pw (take SALT_LENGTH c) (drop SALT_LENGTH c)"

lemma chunks_slice:
  assumes "start < len" "len \<le> length buf" "0 < stride"
  shows "chunks stride (slice buf start len) =
    slice buf start (min (start + stride) len) # chunks stride (slice buf (start + stride) len)"
proof -
  have "slice buf start len \<noteq> []" using assms by (simp add: slice_def)
  moreover have "take stride (slice buf start len) = slice buf start (min (start + stride) len)"
    using assms by (simp add: slice_def min_def)
  moreover have "drop stride (slice buf start len) = slice buf (start + stride) len"
    by (simp add: slice_def drop_take add.commute)
  ultimately show ?thesis using chunks_step [of stride "slice buf start len"] assms(3) by simp
qed

lemma decrypt_segment_slice:
  "start + SALT_LENGTH \<le> j \<Longrightarrow> j \<le> length buf \<Longrightarrow> decrypt_segment h pw (slice buf start j) =
     apply_keystream h pw (slice buf start (start + SALT_LENGTH)) (slice buf (start + SALT_LENGTH) j)"
  by (simp add: decrypt_segment_def slice_def drop_take add.commute min_absorb1)

lemma decrypt_segments_step:
  fixes h :: blake2b and pw :: bytes
  assumes "start + SALT_LENGTH \<le> stop" "stop \<le> length buf" "plain \<le> start"
    and "stop = min (start + stride) len"
  defines "out \<equiv> decrypt_segment h pw (slice buf start stop)"
  shows "\<exists>buf'. decrypt_segments h pw stride len (start # starts) buf plain =
      decrypt_segments h pw stride len starts buf' (plain + length out) \<and>
    length buf' = length buf \<and> take (plain + length out) buf' = take plain buf @ out \<and>
    plain + length out \<le> stop \<and> (\<forall>k j. stop \<le> k \<longrightarrow> slice buf' k j = slice buf k j)"
proof -
  let ?p = "start + SALT_LENGTH"
  define buf1 where "buf1 = splice buf ?p out"
  have out: "out = apply_keystream h pw (slice buf start ?p) (slice buf ?p stop)"
    using assms(1,2) by (simp add: out_def decrypt_segment_slice)
  have len: "length out = stop - ?p" using assms(2) by (simp add: out)
  have same: "slice buf1 ?p stop = out"
    using slice_splice_same [of ?p buf out] assms(1,2) len by (simp add: buf1_def)
  have len1: "length buf1 = length buf" using assms(1,2) len by (simp add: buf1_def)
  have after: "slice (splice buf1 plain out) k j = slice buf k j" if "stop \<le> k" for k j
    using that assms(1-3) len len1 by (simp add: slice_splice_after buf1_def)
  have pre: "take (plain + length out) (splice buf1 plain out) = take plain buf @ out"
    using assms(1-3) len1 by (simp add: take_splice_after) (simp add: buf1_def take_splice_before)
  show ?thesis
    using after pre len len1 assms(1-3)
    by (intro exI [of _ "splice buf1 plain out"])
      (simp add: Let_def assms(4) [symmetric] out [symmetric] buf1_def [symmetric] same)
qed

text \<open>The in-place loop computes what decrypting the segments one by one computes: no copy
  overwrites bytes that are still to be read.\<close>

lemma decrypt_segments_chunks:
  fixes h :: blake2b and pw :: bytes
  assumes "0 < stride" "len \<le> length buf" "plain \<le> start"
    and "\<forall>c \<in> set (chunks stride (slice buf start len)). SALT_LENGTH < length c"
  defines "out \<equiv> concat (map (decrypt_segment h pw) (chunks stride (slice buf start len)))"
  shows "\<exists>buf'. decrypt_segments h pw stride len (step_by start len stride) buf plain =
      (buf', plain + length out) \<and> length buf' = length buf \<and>
    take (plain + length out) buf' = take plain buf @ out"
  using assms(1-4) unfolding out_def
proof (induction start len stride arbitrary: buf plain rule: step_by.induct)
  case (1 start len stride)
  show ?case
  proof (cases "start < len")
    case False
    then have "slice buf start len = []" by (simp add: slice_def)
    with False 1 show ?thesis by (simp add: step_by.simps [of start len stride])
  next
    case True
    define stop where "stop = min (start + stride) len"
    note ch = chunks_slice [OF True "1.prems"(2,1), folded stop_def]
    have stop: "start + SALT_LENGTH \<le> stop" "stop \<le> length buf"
      using "1.prems"(2,4) by (auto simp: ch stop_def min_def split: if_splits)
    let ?o = "decrypt_segment h pw (slice buf start stop)"
    obtain buf' where b: "decrypt_segments h pw stride len (step_by start len stride) buf plain =
        decrypt_segments h pw stride len (step_by (start + stride) len stride) buf' (plain + length ?o)"
      "length buf' = length buf" "take (plain + length ?o) buf' = take plain buf @ ?o"
      "plain + length ?o \<le> stop" "slice buf' (start + stride) len = slice buf (start + stride) len"
      using decrypt_segments_step [OF stop "1.prems"(3) stop_def, of h pw "step_by (start + stride) len stride"]
        True "1.prems"(1) step_by.simps [of start len stride] stop_def by auto
    have "plain + length ?o \<le> start + stride" using b(4) stop_def by simp
    from "1.IH" [of buf' "plain + length ?o"] this True "1.prems" b ch show ?thesis
      by (auto simp: add.assoc)
  qed
qed

text \<open>The specification of one received datagram batch: the plain bytes and the new metadata.\<close>

definition source_stride :: "'addr RecvMeta \<Rightarrow> nat" where
  "source_stride m = (if rm_stride m = 0 then rm_len m else rm_stride m)"

definition plain_packet ::
  "blake2b \<Rightarrow> bytes \<Rightarrow> bytes \<times> 'addr RecvMeta \<Rightarrow> (bytes \<times> 'addr RecvMeta) option" where
  "plain_packet h pw p =
     (case p of (buf, m) \<Rightarrow>
      let segments = chunks (source_stride m) (take (rm_len m) buf) in
      if source_stride m \<le> SALT_LENGTH \<or> rm_len m > length buf \<or>
         (\<exists>c \<in> set segments. length c \<le> SALT_LENGTH)
      then None
      else
        let plain = concat (map (decrypt_segment h pw) segments) in
        Some (plain, m\<lparr>rm_len := length plain, rm_stride := source_stride m - SALT_LENGTH\<rparr>))"

lemma short_segment_iff:
  assumes "0 < stride" "len \<le> length buf"
  shows "(\<exists>start \<in> set (step_by from len stride). min (start + stride) len - start \<le> SALT_LENGTH) \<longleftrightarrow>
    (\<exists>c \<in> set (chunks stride (slice buf from len)). length c \<le> SALT_LENGTH)"
  using assms
proof (induction "from" len stride rule: step_by.induct)
  case (1 start len stride)
  show ?case
  proof (cases "start < len")
    case True
    with 1 show ?thesis
      by (simp add: step_by.simps [of start len stride] chunks_slice)
  qed (simp add: step_by.simps [of start len stride] slice_def)
qed

lemma length_decrypt_segments:
  "SALT_LENGTH \<le> length c \<Longrightarrow> length (decrypt_segment h pw c) = length c - SALT_LENGTH"
  by (simp add: decrypt_segment_def)

lemma length_plain_le: "length (concat (map (decrypt_segment h pw) cs)) \<le> length (concat cs)"
  by (induction cs) (auto simp: decrypt_segment_def intro: add_mono)

lemma decrypt_receive_one_spec:
  fixes h :: blake2b and pw :: bytes
  assumes "target \<le> index" "index < length bufs" "index < length meta"
    and "\<forall>b \<in> set bufs. length b = sz"
  shows "case plain_packet h pw (bufs ! index, meta ! index) of
      None \<Rightarrow> decrypt_receive_one h pw index (target, bufs, meta) = Some (target, bufs, meta)
    | Some (plain, m) \<Rightarrow> \<exists>bufs'.
        decrypt_receive_one h pw index (target, bufs, meta) =
          Some (Suc target, bufs', meta[target := m]) \<and>
        length bufs' = length bufs \<and> (\<forall>b \<in> set bufs'. length b = sz) \<and>
        take (length plain) (bufs' ! target) = plain \<and>
        (\<forall>j < length bufs. j \<noteq> index \<and> j \<noteq> target \<longrightarrow> bufs' ! j = bufs ! j)"
proof -
  let ?m = "meta ! index" and ?b = "bufs ! index"
  let ?s = "source_stride ?m" and ?cs = "chunks (source_stride ?m) (take (rm_len ?m) ?b)"
  have sl: "take (rm_len ?m) ?b = slice ?b 0 (rm_len ?m)" by (simp add: slice_def)
  have lb: "length (bufs ! j) = sz" if "j < length bufs" for j using assms(4) that by simp
  show ?thesis
  proof (cases "?s \<le> SALT_LENGTH \<or> rm_len ?m > length ?b \<or> (\<exists>c \<in> set ?cs. length c \<le> SALT_LENGTH)")
    case True
    then show ?thesis
      using assms(2,3) short_segment_iff [of ?s "rm_len ?m" ?b 0]
      by (auto simp: plain_packet_def decrypt_receive_one_def Let_def sl source_stride_def [symmetric])
  next
    case False
    let ?out = "concat (map (decrypt_segment h pw) ?cs)"
    obtain buf where buf: "decrypt_segments h pw ?s (rm_len ?m) (step_by 0 (rm_len ?m) ?s) ?b 0 =
        (buf, length ?out)" "length buf = length ?b" "take (length ?out) buf = ?out"
      using decrypt_segments_chunks [of ?s "rm_len ?m" ?b 0 0 h pw] False by (auto simp: sl not_le)
    have "concat ?cs = take (rm_len ?m) ?b" using concat_chunks [of ?s] False by simp
    then have short: "length ?out \<le> length ?b" using length_plain_le [of h pw ?cs] by simp
    let ?bufs = "if target \<noteq> index then bufs[index := buf, target := splice (bufs ! target) 0 (take (length ?out) buf)]
       else bufs[index := buf]"
    have run: "decrypt_receive_one h pw index (target, bufs, meta) = Some (Suc target, ?bufs,
        meta[target := ?m\<lparr>rm_len := length ?out, rm_stride := ?s - SALT_LENGTH\<rparr>])"
      using assms(1-3) False short_segment_iff [of ?s "rm_len ?m" ?b 0] buf(1) short lb
      by (auto simp: decrypt_receive_one_def Let_def sl source_stride_def [symmetric])
    have t: "target < length bufs" using assms(1,2) by simp
    have lbuf: "length buf = sz" using buf(2) lb [OF assms(2)] by simp
    have "length (?bufs ! j) = sz" if "j < length bufs" for j
      using that lb [OF that] lb [OF t] lbuf short lb [OF assms(2)] t assms(2) by (auto simp: nth_list_update)
    then have "\<forall>b \<in> set ?bufs. length b = sz" by (auto simp: in_set_conv_nth)
    moreover have "take (length ?out) (?bufs ! target) = ?out"
      using buf(3) t assms(2) by (simp add: splice_def)
    moreover have "\<forall>j < length bufs. j \<noteq> index \<and> j \<noteq> target \<longrightarrow> ?bufs ! j = bufs ! j" by simp
    moreover have "plain_packet h pw (?b, ?m) =
        Some (?out, ?m\<lparr>rm_len := length ?out, rm_stride := ?s - SALT_LENGTH\<rparr>)"
      using False by (simp add: plain_packet_def Let_def)
    moreover have "length ?bufs = length bufs" by simp
    ultimately show ?thesis using run by (simp only: option.case prod.case) blast
  qed
qed

lemma foldl_append_concat: "foldl (\<lambda>acc x. acc @ f x) zs xs = zs @ concat (map f xs)"
  by (induction xs arbitrary: zs) simp_all

lemma chunks_enumerate_grow:
  assumes "0 < n" "\<forall>(i, c) \<in> set (enumerate k (chunks n xs)). length (f i c) = length c + g"
  shows "chunks (n + g) (concat (map (\<lambda>(i, c). f i c) (enumerate k (chunks n xs)))) =
    map (\<lambda>(i, c). f i c) (enumerate k (chunks n xs))"
  using assms
proof (induction n xs arbitrary: k rule: chunks.induct)
  case (1 n xs)
  show ?case
  proof (cases "length xs \<le> n")
    case True
    then show ?thesis
      using "1.prems" by (cases "xs = []") (auto simp: chunks_small intro!: chunks_small)
  next
    case False
    then have ne: "xs \<noteq> []" by auto
    let ?rest = "map (\<lambda>(i, c). f i c) (enumerate (Suc k) (chunks n (drop n xs)))"
    have ch: "map (\<lambda>(i, c). f i c) (enumerate k (chunks n xs)) = f k (take n xs) # ?rest"
      using chunks_step [OF "1.prems"(1) ne] by simp
    have len: "length (f k (take n xs)) = n + g"
      using "1.prems" False chunks_step [OF "1.prems"(1) ne] by simp
    have "chunks (n + g) (concat ?rest) = ?rest"
      using "1.IH" [of "Suc k"] "1.prems" ne chunks_step [OF "1.prems"(1) ne] by simp
    moreover have "f k (take n xs) \<noteq> []" using len "1.prems"(1) by (metis add_is_0 gr_implies_not_zero list.size(3))
    ultimately show ?thesis
      unfolding ch using chunks_step [of "n + g" "f k (take n xs) @ concat ?rest"] "1.prems"(1) len by simp
  qed
qed

text \<open>The datagram segments \<open>encrypt_transmit\<close> produces.\<close>

definition seal :: "blake2b \<Rightarrow> bytes \<Rightarrow> bytes \<Rightarrow> nat \<Rightarrow> bytes \<Rightarrow> bytes" where
  "seal h pw salts i c = encrypt h pw (take SALT_LENGTH (drop (i * SALT_LENGTH) salts)) c"

lemma encrypt_transmit_Ok:
  assumes "encrypt_transmit h random pw t = Ok (out, seg)"
  obtains n salts where "n = (case tr_segment_size t of Some s \<Rightarrow> s | None \<Rightarrow> length (tr_contents t))"
    "0 < n" "random (div_ceil (length (tr_contents t)) n * SALT_LENGTH) = Some salts"
    "out = concat (map (\<lambda>(i, c). seal h pw salts i c) (enumerate 0 (chunks n (tr_contents t))))"
    "seg = map_option (\<lambda>s. s + SALT_LENGTH) (tr_segment_size t)"
proof -
  define n where "n = (case tr_segment_size t of Some s \<Rightarrow> s | None \<Rightarrow> length (tr_contents t))"
  have f: "(\<lambda>acc (i, c). let salt = take SALT_LENGTH (drop (i * SALT_LENGTH) salts)
        in acc @ salt @ apply_keystream h pw salt c) = (\<lambda>acc x. acc @ (\<lambda>(i, c). seal h pw salts i c) x)"
    for salts by (auto simp: fun_eq_iff seal_def encrypt_def Let_def)
  show thesis
    using assms that [of n] unfolding encrypt_transmit_def n_def [symmetric] f foldl_append_concat
    by (auto simp: Let_def n_def split: if_splits option.splits)
qed

lemma sealed_segments:
  fixes h :: blake2b and pw :: bytes
  assumes "0 < n" "length salts = div_ceil (length xs) n * SALT_LENGTH"
  defines "cs \<equiv> map (\<lambda>(i, c). seal h pw salts i c) (enumerate 0 (chunks n xs))"
  shows "chunks (n + SALT_LENGTH) (concat cs) = cs" "map (decrypt_segment h pw) cs = chunks n xs"
    "\<forall>c \<in> set cs. SALT_LENGTH < length c"
proof -
  have salt: "length (take SALT_LENGTH (drop (i * SALT_LENGTH) salts)) = SALT_LENGTH"
    if "i < length (chunks n xs)" for i
  proof -
    have "Suc i * SALT_LENGTH \<le> length salts"
      using that assms(1,2) by (simp add: length_chunks del: mult_Suc)
    then show ?thesis by simp
  qed
  have seal: "length (seal h pw salts i c) = length c + SALT_LENGTH" "decrypt_segment h pw (seal h pw salts i c) = c"
    if "i < length (chunks n xs)" for i c
    using salt [OF that] by (simp_all add: seal_def encrypt_def decrypt_segment_def)
  then show "chunks (n + SALT_LENGTH) (concat cs) = cs"
    unfolding cs_def using assms(1) by (intro chunks_enumerate_grow) (auto simp: in_set_enumerate_eq)
  show "map (decrypt_segment h pw) cs = chunks n xs"
    unfolding cs_def by (rule nth_equalityI) (simp_all add: nth_enumerate_eq seal)
  show "\<forall>c \<in> set cs. SALT_LENGTH < length c"
  proof
    fix c assume "c \<in> set cs"
    then obtain i where i: "i < length (chunks n xs)" "c = seal h pw salts i (chunks n xs ! i)"
      by (auto simp: cs_def in_set_enumerate_eq)
    then show "SALT_LENGTH < length c"
      using seal(1) in_chunks [OF assms(1), of "chunks n xs ! i" xs] by simp
  qed
qed

lemma decrypt_receive_batch_Suc:
  "decrypt_receive_batch h pw (Suc n) bufs meta =
     Option.bind (decrypt_receive_batch h pw n bufs meta) (decrypt_receive_one h pw n)"
  by (simp add: decrypt_receive_batch_def)

definition batch_content :: "nat \<Rightarrow> bytes list \<Rightarrow> 'addr RecvMeta list \<Rightarrow> (bytes \<times> 'addr RecvMeta) list" where
  "batch_content n bufs meta = map (\<lambda>i. (take (rm_len (meta ! i)) (bufs ! i), meta ! i)) [0..<n]"

lemma batch_content_cong:
  "(\<And>i. i < n \<Longrightarrow> bufs ! i = bufs' ! i \<and> meta ! i = meta' ! i) \<Longrightarrow>
   batch_content n bufs meta = batch_content n bufs' meta'"
  by (simp add: batch_content_def)

section \<open>Properties\<close>

text \<open>A batch is decrypted in place, without a panic, to exactly the datagrams that decrypt:
  the first \<open>target\<close> buffers and metadata hold, in the order received, the payloads of those of
  the \<open>count\<close> datagrams whose every segment is longer than a salt, decrypted segment by segment,
  with the lengths and strides reduced. The receive buffers have one size.\<close>

theorem decrypt_receive_batch_spec:
  assumes "count \<le> length bufs" "count \<le> length meta" "\<forall>b \<in> set bufs. length b = sz"
  shows "\<exists>target bufs' meta'. decrypt_receive_batch h pw count bufs meta = Some (target, bufs', meta') \<and>
    batch_content target bufs' meta' = List.map_filter (plain_packet h pw) (take count (zip bufs meta))"
proof -
  have "\<exists>target bufs' meta'. decrypt_receive_batch h pw count bufs meta = Some (target, bufs', meta') \<and>
    batch_content target bufs' meta' = List.map_filter (plain_packet h pw) (take count (zip bufs meta)) \<and>
    target \<le> count \<and> length bufs' = length bufs \<and> length meta' = length meta \<and>
    (\<forall>b \<in> set bufs'. length b = sz) \<and>
    (\<forall>j \<ge> count. j < length bufs \<longrightarrow> bufs' ! j = bufs ! j) \<and> (\<forall>j \<ge> count. meta' ! j = meta ! j)"
    using assms(1,2)
  proof (induction count)
    case 0
    then show ?case
      using assms(3) by (simp add: decrypt_receive_batch_def batch_content_def map_filter_simps)
  next
    case (Suc n)
    then obtain t bs ms where IH: "decrypt_receive_batch h pw n bufs meta = Some (t, bs, ms)"
      "batch_content t bs ms = List.map_filter (plain_packet h pw) (take n (zip bufs meta))"
      "t \<le> n" "length bs = length bufs" "length ms = length meta" "\<forall>b \<in> set bs. length b = sz"
      "\<forall>j \<ge> n. j < length bufs \<longrightarrow> bs ! j = bufs ! j" "\<forall>j \<ge> n. ms ! j = meta ! j" by auto
    have tk: "take (Suc n) (zip bufs meta) = take n (zip bufs meta) @ [(bs ! n, ms ! n)]"
      using Suc.prems IH(7,8) by (simp add: take_Suc_conv_app_nth)
    have lt: "n < length bs" "n < length ms" using Suc.prems IH(4,5) by simp_all
    note one = decrypt_receive_one_spec [OF IH(3) lt IH(6), of h pw]
    show ?case
    proof (cases "plain_packet h pw (bs ! n, ms ! n)")
      case None
      with one IH show ?thesis
        by (auto simp: decrypt_receive_batch_Suc tk map_filter_def)
    next
      case (Some r)
      obtain plain m where r: "r = (plain, m)" by fastforce
      then obtain bs' where bs': "decrypt_receive_one h pw n (t, bs, ms) = Some (Suc t, bs', ms[t := m])"
        "length bs' = length bs" "\<forall>b \<in> set bs'. length b = sz" "take (length plain) (bs' ! t) = plain"
        "\<forall>j < length bs. j \<noteq> n \<and> j \<noteq> t \<longrightarrow> bs' ! j = bs ! j"
        using one Some by auto
      have "rm_len m = length plain"
        using Some r by (auto simp: plain_packet_def Let_def split: if_splits)
      then have "batch_content (Suc t) bs' (ms[t := m]) = batch_content t bs' (ms[t := m]) @ [(plain, m)]"
        using bs'(4) IH(3) lt by (simp add: batch_content_def)
      also have "batch_content t bs' (ms[t := m]) = batch_content t bs ms"
        using bs'(5) IH(3) lt by (intro batch_content_cong) simp
      finally have "batch_content (Suc t) bs' (ms[t := m]) =
          List.map_filter (plain_packet h pw) (take (Suc n) (zip bufs meta))"
        using Some r IH(2) by (simp add: tk map_filter_def)
      with bs' IH show ?thesis by (auto simp: decrypt_receive_batch_Suc)
    qed
  qed
  then show ?thesis by blast
qed

theorem decrypt_receive_batch_spec_witness:
  "let h = (\<lambda>n _. replicate n 1); bufs = [[7, 7, 7, 7], [1, 2, 3, 4, 5, 6, 7, 8, 5, 9]];
       meta = [\<lparr>rm_addr = (), rm_len = 4, rm_stride = 0\<rparr>, \<lparr>rm_addr = (), rm_len = 9, rm_stride = 9\<rparr>]
   in \<exists>bufs' meta'. decrypt_receive_batch h [] 2 (map (\<lambda>b. take 10 (b @ replicate 10 0)) bufs) meta =
        Some (1, bufs', meta') \<and>
      batch_content 1 bufs' meta' = [([4], \<lparr>rm_addr = (), rm_len = 1, rm_stride = 1\<rparr>)]"
proof -
  let ?h = "(\<lambda>n _. replicate n 1) :: blake2b"
  let ?bufs = "[[7, 7, 7, 7, 0, 0, 0, 0, 0, 0], [1, 2, 3, 4, 5, 6, 7, 8, 5, 9]] :: bytes list"
  let ?meta = "[\<lparr>rm_addr = (), rm_len = 4, rm_stride = 0\<rparr>, \<lparr>rm_addr = (), rm_len = 9, rm_stride = 9\<rparr>]"
  have r: "List.map_filter (plain_packet ?h []) (take 2 (zip ?bufs ?meta)) =
      [([4], \<lparr>rm_addr = (), rm_len = 1, rm_stride = 1\<rparr>)]" by code_simp
  obtain t bufs' meta' where t: "decrypt_receive_batch ?h [] 2 ?bufs ?meta = Some (t, bufs', meta')"
    "batch_content t bufs' meta' = [([4], \<lparr>rm_addr = (), rm_len = 1, rm_stride = 1\<rparr>)]"
    using decrypt_receive_batch_spec [of 2 ?bufs ?meta 10 ?h "[]"] r by auto
  then have "length (batch_content t bufs' meta') = 1" by simp
  then have "t = 1" by (simp add: batch_content_def)
  moreover have "map (\<lambda>b. take 10 (b @ replicate 10 0)) [[7, 7, 7, 7], [1, 2, 3, 4, 5, 6, 7, 8, 5, 9]] = ?bufs"
    by code_simp
  ultimately show ?thesis unfolding Let_def by (intro exI conjI) (use t in \<open>simp_all only:\<close>)
qed



end
