(* ===== verification/Rust_Str.thy ===== *)
theory Rust_Str
  imports Prelude
begin

text \<open>
  Rust strings. A \<^verbatim>\<open>String\<close> or \<^verbatim>\<open>&str\<close> is the list of its UTF-8 bytes, an Isabelle \<^typ>\<open>string\<close>
  (whose characters are bytes), so that \<open>length\<close> is \<^verbatim>\<open>str::len\<close>; \<open>valid_str\<close> is the invariant the
  type carries. The functions below are the standard-library calls the sources make: UTF-8
  validation and lossy decoding, Unicode trimming and control-character tests, splitting,
  replacement, decimal and hexadecimal conversion.
\<close>

section \<open>Bytes and UTF-8\<close>

definition byte_of_char :: "char \<Rightarrow> u8" where
  "byte_of_char c = word_of_nat (of_char c)"

definition as_bytes :: "string \<Rightarrow> bytes" where
  "as_bytes s = map byte_of_char s"

definition str_of_bytes :: "bytes \<Rightarrow> string" where
  "str_of_bytes bs = map (\<lambda>b. char_of (unat b)) bs"

definition byte_at :: "nat \<Rightarrow> bytes \<Rightarrow> u8" where
  "byte_at i bs = (if i < length bs then bs ! i else 0)"

definition is_cont :: "u8 \<Rightarrow> bool" where
  "is_cont b = (b AND 192 = 128)"

text \<open>The length of the first scalar value or of the maximal ill-formed chunk, and whether it is
  well-formed: the decoder shared by \<^verbatim>\<open>from_utf8\<close> and \<^verbatim>\<open>from_utf8_lossy\<close>.\<close>

definition second_ok :: "u8 \<Rightarrow> u8 \<Rightarrow> bool" where
  "second_ok b c =
     (if b = 0xE0 then 0xA0 \<le> c \<and> c \<le> 0xBF
      else if b = 0xED then 0x80 \<le> c \<and> c \<le> 0x9F
      else if b = 0xF0 then 0x90 \<le> c \<and> c \<le> 0xBF
      else if b = 0xF4 then 0x80 \<le> c \<and> c \<le> 0x8F
      else 0x80 \<le> c \<and> c \<le> 0xBF)"

definition utf8_width :: "u8 \<Rightarrow> nat" where
  "utf8_width b =
     (if b < 0x80 then 1
      else if 0xC2 \<le> b \<and> b \<le> 0xDF then 2
      else if 0xE0 \<le> b \<and> b \<le> 0xEF then 3
      else if 0xF0 \<le> b \<and> b \<le> 0xF4 then 4
      else 0)"

definition utf8_chunk :: "u8 \<Rightarrow> bytes \<Rightarrow> nat \<times> bool" where
  "utf8_chunk b bs =
     (let w = utf8_width b in
      if w = 1 then (1, True)
      else if w = 2 then (if is_cont (byte_at 0 bs) then (2, True) else (1, False))
      else if w = 3 then
        (if \<not> second_ok b (byte_at 0 bs) then (1, False)
         else if \<not> is_cont (byte_at 1 bs) then (2, False)
         else (3, True))
      else if w = 4 then
        (if \<not> second_ok b (byte_at 0 bs) then (1, False)
         else if \<not> is_cont (byte_at 1 bs) then (2, False)
         else if \<not> is_cont (byte_at 2 bs) then (3, False)
         else (4, True))
      else (1, False))"

definition replacement :: bytes where
  "replacement = [0xEF, 0xBF, 0xBD]"

lemma utf8_chunk_pos: "utf8_chunk b bs = (n, ok) \<Longrightarrow> 0 < n"
  by (auto simp: utf8_chunk_def Let_def split: if_splits)

function is_utf8 :: "bytes \<Rightarrow> bool" where
  "is_utf8 [] = True"
| "is_utf8 (b # bs) =
     (let (n, ok) = utf8_chunk b bs in ok \<and> is_utf8 (drop n (b # bs)))"
  by pat_completeness auto
termination
proof (relation "measure length", goal_cases)
  case 1
  then show ?case by simp
next
  case (2 b bs x n ok)
  then have "0 < n" using utf8_chunk_pos [of b bs n ok] by simp
  then show ?case by (cases n) auto
qed

function utf8_lossy :: "bytes \<Rightarrow> bytes" where
  "utf8_lossy [] = []"
| "utf8_lossy (b # bs) =
     (let (n, ok) = utf8_chunk b bs in
      (if ok then take n (b # bs) else replacement) @ utf8_lossy (drop n (b # bs)))"
  by pat_completeness auto
termination
proof (relation "measure length", goal_cases)
  case 1
  then show ?case by simp
next
  case (2 b bs x n ok)
  then have "0 < n" using utf8_chunk_pos [of b bs n ok] by simp
  then show ?case by (cases n) auto
qed

declare is_utf8.simps(2) [simp del] utf8_lossy.simps(2) [simp del]

definition valid_str :: "string \<Rightarrow> bool" where
  "valid_str s = is_utf8 (as_bytes s)"

definition from_utf8 :: "bytes \<Rightarrow> string option" where
  "from_utf8 bs = (if is_utf8 bs then Some (str_of_bytes bs) else None)"

definition from_utf8_lossy :: "bytes \<Rightarrow> string" where
  "from_utf8_lossy bs = str_of_bytes (utf8_lossy bs)"

section \<open>ASCII\<close>

definition code :: "char \<Rightarrow> nat" where
  "code c = of_char c"

definition is_ascii_digit :: "char \<Rightarrow> bool" where
  "is_ascii_digit c = (48 \<le> code c \<and> code c \<le> 57)"

definition is_ascii_alphanumeric :: "char \<Rightarrow> bool" where
  "is_ascii_alphanumeric c =
     (is_ascii_digit c \<or> 65 \<le> code c \<and> code c \<le> 90 \<or> 97 \<le> code c \<and> code c \<le> 122)"

definition ascii_lower :: "char \<Rightarrow> char" where
  "ascii_lower c = (if 65 \<le> code c \<and> code c \<le> 90 then char_of (code c + 32) else c)"

definition to_ascii_lowercase :: "string \<Rightarrow> string" where
  "to_ascii_lowercase s = map ascii_lower s"

definition eq_ignore_ascii_case :: "string \<Rightarrow> string \<Rightarrow> bool" where
  "eq_ignore_ascii_case a b = (to_ascii_lowercase a = to_ascii_lowercase b)"

section \<open>White space and control characters\<close>

text \<open>The UTF-8 encodings of the code points with the Unicode \<^verbatim>\<open>White_Space\<close> property.\<close>

definition white_space :: "string list" where
  "white_space =
     [[CHR 0x09], [CHR 0x0A], [CHR 0x0B], [CHR 0x0C], [CHR 0x0D], [CHR 0x20],
      [CHR 0xC2, CHR 0x85], [CHR 0xC2, CHR 0xA0], [CHR 0xE1, CHR 0x9A, CHR 0x80],
      [CHR 0xE2, CHR 0x80, CHR 0x80], [CHR 0xE2, CHR 0x80, CHR 0x81],
      [CHR 0xE2, CHR 0x80, CHR 0x82], [CHR 0xE2, CHR 0x80, CHR 0x83],
      [CHR 0xE2, CHR 0x80, CHR 0x84], [CHR 0xE2, CHR 0x80, CHR 0x85],
      [CHR 0xE2, CHR 0x80, CHR 0x86], [CHR 0xE2, CHR 0x80, CHR 0x87],
      [CHR 0xE2, CHR 0x80, CHR 0x88], [CHR 0xE2, CHR 0x80, CHR 0x89],
      [CHR 0xE2, CHR 0x80, CHR 0x8A], [CHR 0xE2, CHR 0x80, CHR 0xA8],
      [CHR 0xE2, CHR 0x80, CHR 0xA9], [CHR 0xE2, CHR 0x80, CHR 0xAF],
      [CHR 0xE2, CHR 0x81, CHR 0x9F], [CHR 0xE3, CHR 0x80, CHR 0x80]]"

definition starts_with :: "'a list \<Rightarrow> 'a list \<Rightarrow> bool" where
  "starts_with p s = (take (length p) s = p)"

function strip_leading :: "string list \<Rightarrow> string \<Rightarrow> string" where
  "strip_leading ws s =
     (case find (\<lambda>w. w \<noteq> [] \<and> starts_with w s) ws of
        None \<Rightarrow> s
      | Some w \<Rightarrow> strip_leading ws (drop (length w) s))"
  by pat_completeness auto
termination
proof (relation "measure (\<lambda>(ws, s). length s)", goal_cases)
  case 1
  then show ?case by simp
next
  case (2 ws s w)
  then have "w \<noteq> []" "take (length w) s = w"
    by (auto simp: find_Some_iff starts_with_def)
  then show ?case by (cases s) auto
qed

declare strip_leading.simps [simp del]

definition trim_start :: "string \<Rightarrow> string" where
  "trim_start s = strip_leading white_space s"

definition trim_end :: "string \<Rightarrow> string" where
  "trim_end s = rev (strip_leading (map rev white_space) (rev s))"

definition trim :: "string \<Rightarrow> string" where
  "trim s = trim_end (trim_start s)"

text \<open>\<^verbatim>\<open>chars().any(char::is_control)\<close>: U+0000 to U+001F, U+007F and U+0080 to U+009F (two bytes).\<close>

fun has_control :: "string \<Rightarrow> bool" where
  "has_control [] = False"
| "has_control (c # cs) =
     (code c < 32 \<or> code c = 127 \<or>
      code c = 0xC2 \<and> (case cs of [] \<Rightarrow> False | d # _ \<Rightarrow> 0x80 \<le> code d \<and> code d \<le> 0x9F) \<or>
      has_control cs)"

text \<open>\<^verbatim>\<open>chars().any(char::is_whitespace)\<close>.\<close>

fun has_white_space :: "string \<Rightarrow> bool" where
  "has_white_space [] = False"
| "has_white_space (c # cs) =
     (list_ex (\<lambda>w. starts_with w (c # cs)) white_space \<or> has_white_space cs)"

section \<open>Searching and splitting\<close>

definition ends_with :: "'a list \<Rightarrow> 'a list \<Rightarrow> bool" where
  "ends_with p s = starts_with (rev p) (rev s)"

definition strip_prefix :: "string \<Rightarrow> string \<Rightarrow> string option" where
  "strip_prefix p s = (if starts_with p s then Some (drop (length p) s) else None)"

definition strip_suffix :: "string \<Rightarrow> string \<Rightarrow> string option" where
  "strip_suffix p s = (if ends_with p s then Some (take (length s - length p) s) else None)"

fun str_contains :: "string \<Rightarrow> string \<Rightarrow> bool" where
  "str_contains p [] = (p = [])"
| "str_contains p (c # cs) = (starts_with p (c # cs) \<or> str_contains p cs)"

fun split_once :: "string \<Rightarrow> string \<Rightarrow> (string \<times> string) option" where
  "split_once p [] = (if p = [] then Some ([], []) else None)"
| "split_once p (c # cs) =
     (if starts_with p (c # cs) then Some ([], drop (length p) (c # cs))
      else map_option (\<lambda>(a, b). (c # a, b)) (split_once p cs))"

definition rsplit_once :: "char \<Rightarrow> string \<Rightarrow> (string \<times> string) option" where
  "rsplit_once c s = map_option (\<lambda>(a, b). (rev b, rev a)) (split_once [c] (rev s))"

fun split_on :: "(char \<Rightarrow> bool) \<Rightarrow> string \<Rightarrow> string list" where
  "split_on p [] = [[]]"
| "split_on p (c # cs) =
     (if p c then [] # split_on p cs
      else (case split_on p cs of [] \<Rightarrow> [[c]] | q # qs \<Rightarrow> (c # q) # qs))"

definition trim_start_matches :: "char \<Rightarrow> string \<Rightarrow> string" where
  "trim_start_matches c s = dropWhile (\<lambda>d. d = c) s"

definition trim_end_matches :: "char \<Rightarrow> string \<Rightarrow> string" where
  "trim_end_matches c s = rev (dropWhile (\<lambda>d. d = c) (rev s))"

definition strip_cr :: "string \<Rightarrow> string" where
  "strip_cr s = (if s \<noteq> [] \<and> last s = CHR 0x0D then butlast s else s)"

text \<open>\<^verbatim>\<open>str::lines\<close>: no empty last line, a carriage return is dropped only before a line feed.\<close>

definition str_lines :: "string \<Rightarrow> string list" where
  "str_lines s =
     (let ps = split_on (\<lambda>c. c = CHR 0x0A) s in
      map strip_cr (butlast ps) @ (if last ps = [] then [] else [last ps]))"

fun join :: "string \<Rightarrow> string list \<Rightarrow> string" where
  "join sep [] = []"
| "join sep [s] = s"
| "join sep (s # t # ss) = s @ sep @ join sep (t # ss)"

definition replace_chars :: "(char \<Rightarrow> bool) \<Rightarrow> string \<Rightarrow> string \<Rightarrow> string" where
  "replace_chars p r s = concat (map (\<lambda>c. if p c then r else [c]) s)"

section \<open>Numbers\<close>

definition digit :: "nat \<Rightarrow> char" where
  "digit d = char_of (48 + d)"

fun show_nat :: "nat \<Rightarrow> string" where
  "show_nat n = (if n < 10 then [digit n] else show_nat (n div 10) @ [digit (n mod 10)])"

declare show_nat.simps [simp del]

definition dec_val :: "nat \<Rightarrow> string \<Rightarrow> nat" where
  "dec_val a s = foldl (\<lambda>v c. v * 10 + (code c - 48)) a s"

text \<open>\<^verbatim>\<open>parse\<close> for an unsigned type of \<open>w\<close> bits: an optional plus sign, then decimal digits whose
  value fits.\<close>

definition parse_uint :: "nat \<Rightarrow> string \<Rightarrow> nat option" where
  "parse_uint w s =
     (let ds = (case s of [] \<Rightarrow> [] | c # cs \<Rightarrow> if c = CHR ''+'' then cs else s) in
      if ds \<noteq> [] \<and> list_all is_ascii_digit ds \<and> dec_val 0 ds < 2 ^ w
      then Some (dec_val 0 ds) else None)"

definition hex_digit :: "nat \<Rightarrow> char" where
  "hex_digit d = (if d < 10 then char_of (48 + d) else char_of (87 + d))"

text \<open>\<^verbatim>\<open>{:02x}\<close> of a byte.\<close>

definition hex02 :: "u8 \<Rightarrow> string" where
  "hex02 b = [hex_digit (unat b div 16), hex_digit (unat b mod 16)]"

text \<open>A number in the format \<^verbatim>\<open>{:#x}\<close>.\<close>

fun lower_hex :: "nat \<Rightarrow> string" where
  "lower_hex n = (if n < 16 then [hex_digit n] else lower_hex (n div 16) @ [hex_digit (n mod 16)])"

declare lower_hex.simps [simp del]

definition hex_string :: "bytes \<Rightarrow> string" where
  "hex_string bs = concat (map hex02 bs)"

section \<open>Lemmas\<close>

subsection \<open>Bytes and UTF-8\<close>

lemma unat_byte_of_char [simp]: "unat (byte_of_char c) = of_char c"
proof -
  have "(of_char c :: nat) < 256" by (rule nat_of_char_less_256)
  then show ?thesis by (simp add: byte_of_char_def unat_of_nat)
qed

lemma str_of_as_bytes [simp]: "str_of_bytes (as_bytes s) = s"
  by (simp add: str_of_bytes_def as_bytes_def o_def)

lemma as_of_bytes [simp]: "as_bytes (str_of_bytes bs) = bs"
proof -
  have "byte_of_char (char_of (unat b)) = b" for b :: u8
    using unat_u8_less [of b] by (simp add: word_unat_eq_iff)
  then show ?thesis by (simp add: str_of_bytes_def as_bytes_def o_def map_idI)
qed

lemma length_as_bytes [simp, byte_simps]: "length (as_bytes s) = length s"
  by (simp add: as_bytes_def)

lemma length_str_of_bytes [simp, byte_simps]: "length (str_of_bytes bs) = length bs"
  by (simp add: str_of_bytes_def)

lemma as_bytes_Nil_iff [simp]: "as_bytes s = [] \<longleftrightarrow> s = []"
  by (simp add: as_bytes_def)

lemma as_bytes_inject [simp]: "as_bytes s = as_bytes t \<longleftrightarrow> s = t"
  by (metis str_of_as_bytes)

lemma str_of_bytes_inject [simp]: "str_of_bytes a = str_of_bytes b \<longleftrightarrow> a = b"
  by (metis as_of_bytes)

lemma utf8_lossy_valid: "is_utf8 bs \<Longrightarrow> utf8_lossy bs = bs"
proof (induction bs rule: is_utf8.induct)
  case (2 b bs)
  obtain n ok where c: "utf8_chunk b bs = (n, ok)" by fastforce
  with "2.prems" have "ok" "is_utf8 (drop n (b # bs))"
    by (simp_all add: is_utf8.simps(2))
  with 2 c have "utf8_lossy (drop n (b # bs)) = drop n (b # bs)" by simp
  with c \<open>ok\<close> show ?case by (simp add: utf8_lossy.simps(2) del: drop_Cons')
qed simp

lemma from_utf8_lossy_valid [simp]: "valid_str s \<Longrightarrow> from_utf8_lossy (as_bytes s) = s"
  by (simp add: from_utf8_lossy_def valid_str_def utf8_lossy_valid)

lemma from_utf8_as_bytes [simp]: "valid_str s \<Longrightarrow> from_utf8 (as_bytes s) = Some s"
  by (simp add: from_utf8_def valid_str_def)

lemma from_utf8_eq_Some: "from_utf8 bs = Some s \<longleftrightarrow> valid_str s \<and> bs = as_bytes s"
  by (auto simp: from_utf8_def valid_str_def)

subsection \<open>Numbers\<close>

lemma digit_code: "d < 10 \<Longrightarrow> code (digit d) = 48 + d"
  by (simp add: code_def digit_def)

lemma show_nat_digits: "show_nat n \<noteq> [] \<and> list_all is_ascii_digit (show_nat n)"
proof (induction n rule: show_nat.induct)
  case (1 n)
  show ?case
  proof (cases "n < 10")
    case True
    then show ?thesis by (simp add: show_nat.simps [of n] is_ascii_digit_def digit_code)
  next
    case False
    with 1 show ?thesis by (simp add: show_nat.simps [of n] is_ascii_digit_def digit_code)
  qed
qed

lemma dec_val_show_nat: "dec_val 0 (show_nat n) = n"
proof (induction n rule: show_nat.induct)
  case (1 n)
  show ?case
  proof (cases "n < 10")
    case True
    then show ?thesis by (subst show_nat.simps) (simp add: dec_val_def digit_code)
  next
    case False
    with 1 show ?thesis by (subst show_nat.simps) (simp add: dec_val_def digit_code)
  qed
qed

lemma parse_uint_show_nat:
  assumes "n < 2 ^ w"
  shows "parse_uint w (show_nat n) = Some n"
proof -
  obtain c cs where s: "show_nat n = c # cs" and d: "is_ascii_digit c"
    using show_nat_digits [of n] by (cases "show_nat n") auto
  have "c \<noteq> CHR ''+''" using d by (auto simp: is_ascii_digit_def code_def)
  then show ?thesis
    using assms show_nat_digits [of n] dec_val_show_nat [of n]
    by (simp add: parse_uint_def s Let_def)
qed

lemma parse_uint_bound: "parse_uint w s = Some n \<Longrightarrow> n < 2 ^ w"
  by (auto simp: parse_uint_def Let_def split: if_splits)

lemma length_hex_string [simp, byte_simps]: "length (hex_string bs) = 2 * length bs"
  by (induction bs) (simp_all add: hex_string_def hex02_def)

lemma hex_digit_alnum: "d < 16 \<Longrightarrow> is_ascii_alphanumeric (hex_digit d)"
  by (auto simp: is_ascii_alphanumeric_def is_ascii_digit_def hex_digit_def code_def)

lemma hex_string_alnum: "list_all is_ascii_alphanumeric (hex_string bs)"
proof (induction bs)
  case Nil
  then show ?case by (simp add: hex_string_def)
next
  case (Cons b bs)
  have "unat b div 16 < 16" "unat b mod 16 < 16"
    using unat_u8_less [of b] by auto
  with Cons show ?case
    by (simp add: hex_string_def hex02_def hex_digit_alnum)
qed

subsection \<open>Trimming\<close>

lemma strip_leading_stops: "find (\<lambda>w. w \<noteq> [] \<and> starts_with w (strip_leading ws s)) ws = None"
proof (induction ws s rule: strip_leading.induct)
  case (1 ws s)
  show ?case
  proof (cases "find (\<lambda>w. w \<noteq> [] \<and> starts_with w s) ws")
    case None
    then show ?thesis by (subst strip_leading.simps) simp
  next
    case (Some w)
    with 1 show ?thesis by (subst strip_leading.simps) simp
  qed
qed

lemma strip_leading_fixed:
  "find (\<lambda>w. w \<noteq> [] \<and> starts_with w s) ws = None \<Longrightarrow> strip_leading ws s = s"
  by (subst strip_leading.simps) simp

lemma strip_leading_drop: "\<exists>k. strip_leading ws s = drop k s"
proof (induction ws s rule: strip_leading.induct)
  case (1 ws s)
  show ?case
  proof (cases "find (\<lambda>w. w \<noteq> [] \<and> starts_with w s) ws")
    case None
    then show ?thesis by (intro exI [of _ 0]) (simp add: strip_leading_fixed)
  next
    case (Some w)
    then obtain k where "strip_leading ws (drop (length w) s) = drop k (drop (length w) s)" using 1 by blast
    with Some show ?thesis by (subst strip_leading.simps) (auto simp: drop_drop)
  qed
qed

lemma trim_end_take: "\<exists>k. trim_end s = take k s"
  using strip_leading_drop [of "map rev white_space" "rev s"] by (auto simp: trim_end_def rev_drop)

lemma starts_with_take: "starts_with w (take k s) \<Longrightarrow> w \<noteq> [] \<Longrightarrow> starts_with w s"
  unfolding starts_with_def by (metis append_take_drop_id length_take min.absorb_iff2 min_def take_take nat_le_linear)

lemma trim_idem [simp]: "trim (trim s) = trim s"
proof -
  obtain k where k: "trim s = take k (trim_start s)" using trim_end_take by (metis trim_def)
  have "find (\<lambda>w. w \<noteq> [] \<and> starts_with w (trim_start s)) white_space = None"
    unfolding trim_start_def by (rule strip_leading_stops)
  then have "find (\<lambda>w. w \<noteq> [] \<and> starts_with w (trim s)) white_space = None"
    unfolding k by (auto simp: find_None_iff dest: starts_with_take)
  then have "trim_start (trim s) = trim s" unfolding trim_start_def by (rule strip_leading_fixed)
  moreover have "trim_end (trim s) = trim s"
    unfolding trim_def trim_end_def by (simp add: strip_leading_fixed [OF strip_leading_stops])
  ultimately show ?thesis by (simp add: trim_def)
qed

lemma set_trim: "set (trim s) \<subseteq> set s"
proof -
  obtain k j where "trim s = take k (trim_start s)" "trim_start s = drop j s"
    using trim_end_take strip_leading_drop by (metis trim_def trim_start_def)
  then show ?thesis using set_take_subset set_drop_subset by (metis subset_trans)
qed

text \<open>Printable ASCII without the blank.\<close>

definition is_ascii_graphic :: "char \<Rightarrow> bool" where
  "is_ascii_graphic c = (33 \<le> code c \<and> code c \<le> 126)"

lemma white_space_ends:
  "list_all (\<lambda>w. w \<noteq> [] \<and> \<not> is_ascii_graphic (hd w) \<and> \<not> is_ascii_graphic (last w)) white_space"
  by code_simp

lemma starts_with_hd: "starts_with w s \<Longrightarrow> w \<noteq> [] \<Longrightarrow> hd w \<in> set s"
  unfolding starts_with_def by (metis hd_in_set in_set_takeD)

lemma graphic_no_white_space:
  assumes "list_all is_ascii_graphic s"
  shows "trim s = s" "\<not> has_white_space s"
proof -
  have hd: "\<not> starts_with w s" if "w \<in> set white_space" "list_all is_ascii_graphic s" for w s
    using starts_with_hd [of w s] white_space_ends that by (auto simp: list_all_iff)
  have rev: "\<not> starts_with (rev w) s" if "w \<in> set white_space" "list_all is_ascii_graphic s" for w s
    using starts_with_hd [of "rev w" s] white_space_ends that by (auto simp: list_all_iff hd_rev)
  have "trim_start s = s" unfolding trim_start_def
    by (rule strip_leading_fixed) (use hd assms in \<open>auto simp: find_None_iff\<close>)
  moreover have "strip_leading (map rev white_space) (rev s) = rev s"
    by (rule strip_leading_fixed) (use rev [of _ "rev s"] assms in \<open>auto simp: find_None_iff list_all_iff\<close>)
  ultimately show "trim s = s" by (simp add: trim_def trim_end_def)
  show "\<not> has_white_space s" using assms
  proof (induction s)
    case (Cons c s)
    with hd [of _ "c # s"] show ?case by (auto simp: list_ex_iff)
  qed simp
qed

subsection \<open>Lines\<close>

lemma split_on_pieces: "q \<in> set (split_on p s) \<Longrightarrow> c \<in> set q \<Longrightarrow> c \<in> set s \<and> \<not> p c"
  by (induction s arbitrary: q) (fastforce split: if_splits list.splits)+

lemma split_on_ne [simp]: "split_on p s \<noteq> []"
  by (induction s) (auto split: list.splits)

lemma split_on_none: "(\<And>c. c \<in> set s \<Longrightarrow> \<not> p c) \<Longrightarrow> split_on p s = [s]"
  by (induction s) auto

lemma split_on_append: "(\<And>c. c \<in> set s \<Longrightarrow> \<not> p c) \<Longrightarrow> p d \<Longrightarrow> split_on p (s @ d # t) = s # split_on p t"
  by (induction s) auto

lemma split_on_append_sep: "p d \<Longrightarrow> split_on p (s @ d # t) = split_on p s @ split_on p t"
  by (induction s) (auto split: list.splits)

lemma split_on_join:
  assumes "xs \<noteq> []" "\<forall>x \<in> set xs. d \<notin> set x"
  shows "split_on (\<lambda>c. c = d) (join [d] xs) = xs"
  using assms
proof (induction "[d]" xs rule: join.induct)
  case (2 s)
  then have "split_on (\<lambda>c. c = d) s = [s]" by (intro split_on_none) auto
  then show ?case by simp
next
  case (3 s t ss)
  then have "split_on (\<lambda>c. c = d) (s @ d # join [d] (t # ss)) = s # split_on (\<lambda>c. c = d) (join [d] (t # ss))"
    by (intro split_on_append) auto
  with 3 show ?case by simp
qed simp

lemma str_lines_no_LF: "l \<in> set (str_lines s) \<Longrightarrow> CHR 0x0A \<notin> set l"
proof -
  have cr: "set (strip_cr q) \<subseteq> set q" for q by (auto simp: strip_cr_def dest: in_set_butlastD)
  assume "l \<in> set (str_lines s)"
  then have "\<exists>q \<in> set (butlast (split_on (\<lambda>c. c = CHR 0x0A) s)). l = strip_cr q \<or> l = last (split_on (\<lambda>c. c = CHR 0x0A) s)"
    if "l \<noteq> last (split_on (\<lambda>c. c = CHR 0x0A) s)"
    using that by (auto simp: str_lines_def Let_def split: if_splits)
  then obtain q where "q \<in> set (split_on (\<lambda>c. c = CHR 0x0A) s)" "set l \<subseteq> set q"
    using cr last_in_set [OF split_on_ne] by (metis in_set_butlastD subset_refl)
  then show ?thesis using split_on_pieces by blast
qed

lemma str_lines_join:
  assumes "xs \<noteq> []" "\<forall>x \<in> set xs. x \<noteq> [] \<and> CHR 0x0A \<notin> set x \<and> last x \<noteq> CHR 0x0D"
  shows "str_lines (join [CHR 0x0A] xs) = xs"
proof -
  have "map strip_cr (butlast xs) = butlast xs"
    using assms(2) by (intro map_idI) (auto simp: strip_cr_def dest: in_set_butlastD)
  moreover have "last xs \<noteq> []" using assms last_in_set by blast
  moreover have "split_on (\<lambda>c. c = CHR 0x0A) (join [CHR 0x0A] xs) = xs"
    using assms by (intro split_on_join) auto
  ultimately show ?thesis using assms(1) by (simp add: str_lines_def)
qed

subsection \<open>Substrings\<close>

lemma starts_with_iff: "starts_with p s \<longleftrightarrow> (\<exists>t. s = p @ t)"
  unfolding starts_with_def by (metis append_eq_conv_conj append_take_drop_id)

lemma str_contains_iff: "str_contains p s \<longleftrightarrow> (\<exists>a b. s = a @ p @ b)"
proof (induction s)
  case (Cons c s)
  show ?case
    by (auto simp: Cons starts_with_iff Cons_eq_append_conv)
qed simp

lemma str_contains_join: "x \<in> set xs \<Longrightarrow> str_contains p x \<Longrightarrow> str_contains p (join sep xs)"
proof (induction sep xs rule: join.induct)
  case (3 sep s t ss)
  then show ?case by (auto simp: str_contains_iff) (metis append.assoc)+
qed auto

end
