(* ===== verification/Net_Addr.thy ===== *)
theory Net_Addr
  imports Rust_Str
begin

text \<open>
  IP and socket addresses of \<^verbatim>\<open>std::net\<close>, as far as the components use them: address families,
  the loopback and unspecified tests, and the textual forms \<^verbatim>\<open>Display\<close> produces.
\<close>

datatype IpAddr = IpV4 u32 | IpV6 "128 word"

datatype SocketAddr =
    SocketAddrV4 u32 u16
  | SocketAddrV6 "128 word" u16 (flowinfo: u32) (scope_id: u32)

fun ip_of :: "SocketAddr \<Rightarrow> IpAddr" where
  "ip_of (SocketAddrV4 a _) = IpV4 a"
| "ip_of (SocketAddrV6 a _ _ _) = IpV6 a"

fun port_of :: "SocketAddr \<Rightarrow> u16" where
  "port_of (SocketAddrV4 _ p) = p"
| "port_of (SocketAddrV6 _ p _ _) = p"

fun is_ipv4 :: "SocketAddr \<Rightarrow> bool" where
  "is_ipv4 (SocketAddrV4 _ _) = True"
| "is_ipv4 (SocketAddrV6 _ _ _ _) = False"

fun is_loopback :: "IpAddr \<Rightarrow> bool" where
  "is_loopback (IpV4 a) = (hd (be_bytes 4 a) = 127)"
| "is_loopback (IpV6 a) = (a = 1)"

fun is_unspecified :: "IpAddr \<Rightarrow> bool" where
  "is_unspecified (IpV4 a) = (a = 0)"
| "is_unspecified (IpV6 a) = (a = 0)"

definition show_ipv4 :: "u32 \<Rightarrow> string" where
  "show_ipv4 a = join ''.'' (map (\<lambda>b. show_nat (unat b)) (be_bytes 4 a))"

text \<open>The eight 16-bit segments, most significant first.\<close>

definition segments :: "128 word \<Rightarrow> u16 list" where
  "segments a = map (\<lambda>bs. from_be_bytes bs) (chunks 2 (be_bytes 16 a))"

fun show_hex :: "nat \<Rightarrow> string" where
  "show_hex n = (if n < 16 then [hex_digit n] else show_hex (n div 16) @ [hex_digit (n mod 16)])"

declare show_hex.simps [simp del]

text \<open>The first longest run of zero segments, as a pair of start and length.\<close>

fun longest_run :: "nat \<Rightarrow> u16 list \<Rightarrow> nat \<times> nat \<Rightarrow> nat \<times> nat \<Rightarrow> nat \<times> nat" where
  "longest_run i [] current longest = longest"
| "longest_run i (s # ss) current longest =
     (if s = 0 then
        let current = (if snd current = 0 then i else fst current, snd current + 1);
            longest = (if snd current > snd longest then current else longest)
        in longest_run (Suc i) ss current longest
      else longest_run (Suc i) ss (0, 0) longest)"

definition show_segments :: "u16 list \<Rightarrow> string" where
  "show_segments ss = join '':'' (map (\<lambda>s. show_hex (unat s)) ss)"

definition show_ipv6 :: "128 word \<Rightarrow> string" where
  "show_ipv6 a =
     (if take 6 (segments a) = [0, 0, 0, 0, 0, 0xffff] then ''::ffff:'' @ show_ipv4 (ucast a)
      else
        let (start, len) = longest_run 0 (segments a) (0, 0) (0, 0) in
        if len > 1
        then show_segments (take start (segments a)) @ ''::'' @
             show_segments (drop (start + len) (segments a))
        else show_segments (segments a))"

fun show_ip :: "IpAddr \<Rightarrow> string" where
  "show_ip (IpV4 a) = show_ipv4 a"
| "show_ip (IpV6 a) = show_ipv6 a"

fun show_socket_addr :: "SocketAddr \<Rightarrow> string" where
  "show_socket_addr (SocketAddrV4 a p) = show_ipv4 a @ '':'' @ show_nat (unat p)"
| "show_socket_addr (SocketAddrV6 a p _ scope) =
     ''['' @ show_ipv6 a @ (if scope = 0 then [] else ''%'' @ show_nat (unat scope)) @ '']:'' @
     show_nat (unat p)"

section \<open>Lemmas\<close>

lemma show_examples:
  "show_ipv4 0x7F000001 = ''127.0.0.1''" "show_ipv6 1 = ''::1''" "show_ipv6 0 = ''::''"
  "show_ipv6 0x000a0000000000000001000000000001 = ''a::1:0:0:1''"
  by code_simp+

lemma length_join: "length (join sep xs) = sum_list (map length xs) + (length xs - 1) * length sep"
  by (induction sep xs rule: join.induct) (simp_all add: algebra_simps)

lemma sum_list_le_mult: "(\<And>x. x \<in> set xs \<Longrightarrow> f x \<le> k) \<Longrightarrow> sum_list (map f xs) \<le> length xs * (k :: nat)"
  by (induction xs) (auto intro: add_mono)

lemma length_show_nat:
  assumes "n < 10 ^ k" "0 < k"
  shows "length (show_nat n) \<le> k"
  using assms
proof (induction k arbitrary: n)
  case (Suc k)
  show ?case
  proof (cases "n < 10")
    case False
    with Suc.prems have "0 < k" by (cases k) auto
    with Suc False show ?thesis by (subst show_nat.simps) (simp add: less_mult_imp_div_less)
  qed (subst show_nat.simps, simp)
qed simp

lemma length_show_hex:
  assumes "n < 16 ^ k" "0 < k"
  shows "length (show_hex n) \<le> k"
  using assms
proof (induction k arbitrary: n)
  case (Suc k)
  show ?case
  proof (cases "n < 16")
    case False
    with Suc.prems have "0 < k" by (cases k) auto
    with Suc False show ?thesis by (subst show_hex.simps) (simp add: less_mult_imp_div_less)
  qed (subst show_hex.simps, simp)
qed simp

text \<open>The textual forms are ASCII, not empty and short.\<close>

definition ascii :: "string \<Rightarrow> bool" where
  "ascii s = list_all (\<lambda>c. code c < 128) s"

lemma ascii_simps [simp]:
  "ascii []" "ascii (c # s) \<longleftrightarrow> code c < 128 \<and> ascii s" "ascii (s @ t) \<longleftrightarrow> ascii s \<and> ascii t"
  by (simp_all add: ascii_def)

lemma valid_str_ascii: "ascii s \<Longrightarrow> valid_str s"
proof (induction s)
  case (Cons c s)
  then have "unat (byte_of_char c) < 128" by (simp add: code_def)
  then have "utf8_width (byte_of_char c) = 1" by (simp add: utf8_width_def word_less_nat_alt)
  then have "utf8_chunk (byte_of_char c) bs = (1, True)" for bs by (simp add: utf8_chunk_def)
  with Cons show ?case by (simp add: valid_str_def as_bytes_def is_utf8.simps(2))
qed (simp add: valid_str_def as_bytes_def)

lemma ascii_show_nat: "ascii (show_nat n)"
  using show_nat_digits [of n] by (auto simp: ascii_def list_all_iff is_ascii_digit_def)

lemma ascii_show_hex: "ascii (show_hex n)"
proof (induction n rule: show_hex.induct)
  case (1 n)
  have "code (hex_digit d) < 128" if "d < 16" for d using that by (simp add: code_def hex_digit_def)
  with 1 show ?case by (subst show_hex.simps) simp
qed

lemma ascii_join: "ascii sep \<Longrightarrow> \<forall>s \<in> set ss. ascii s \<Longrightarrow> ascii (join sep ss)"
  by (induction sep ss rule: join.induct) simp_all

lemma show_ipv4_ascii: "ascii (show_ipv4 a)"
  unfolding show_ipv4_def by (rule ascii_join) (auto simp: ascii_show_nat code_def)

lemma show_segments_ascii: "ascii (show_segments ss)"
  unfolding show_segments_def by (rule ascii_join) (auto simp: ascii_show_hex code_def)

lemma show_socket_addr_ascii: "ascii (show_socket_addr a)"
proof -
  have "ascii (show_ipv6 x)" for x
    by (simp add: show_ipv6_def show_ipv4_ascii show_segments_ascii code_def split: prod.split)
  then show ?thesis by (cases a) (simp_all add: show_ipv4_ascii ascii_show_nat code_def)
qed

lemma show_u16_length: "length (show_nat (unat (p :: u16))) \<le> 5"
  using unsigned_less [of p, where ?'a = nat] by (intro length_show_nat) simp_all

lemma show_ipv4_length: "length (show_ipv4 a) \<le> 15"
proof -
  have "length (show_nat (unat b)) \<le> 3" for b :: u8
    using unat_u8_less [of b] by (intro length_show_nat) simp_all
  then have "sum_list (map (\<lambda>b. length (show_nat (unat b))) (be_bytes 4 a)) \<le> length (be_bytes 4 a) * 3"
    by (intro sum_list_le_mult) simp
  then show ?thesis by (simp add: show_ipv4_def length_join o_def byte_simps)
qed

lemma show_segments_length: "length (show_segments ss) \<le> 5 * length ss"
proof -
  have "length (show_hex (unat s)) \<le> 4" for s :: u16
    using unsigned_less [of s, where ?'a = nat] by (intro length_show_hex) simp_all
  then have "sum_list (map (\<lambda>s. length (show_hex (unat s))) ss) \<le> length ss * 4"
    by (intro sum_list_le_mult) simp
  then show ?thesis by (simp add: show_segments_def length_join o_def)
qed

lemma length_segments: "length (segments a) = 8"
  by (simp add: segments_def length_chunks div_ceil_def byte_simps)

lemma show_socket_addr_length: "length (show_socket_addr a) \<le> 128 \<and> show_socket_addr a \<noteq> []"
proof -
  have six: "length (show_ipv6 x) \<le> 90" for x
  proof -
    have "length (show_segments (take s (segments x))) + length (show_segments (drop t (segments x))) \<le> 88"
      "length (show_segments (segments x)) \<le> 40" for s t
      using show_segments_length [of "take s (segments x)"] show_segments_length [of "drop t (segments x)"]
        show_segments_length [of "segments x"] by (simp_all add: length_segments)
    then show ?thesis
      using show_ipv4_length [of "ucast x"] by (auto simp: show_ipv6_def intro: order_trans split: prod.split)
  qed
  have ten: "length (show_nat (unat (w :: u32))) \<le> 10" for w
    using unsigned_less [of w, where ?'a = nat] by (intro length_show_nat) simp_all
  show ?thesis
  proof (cases a)
    case (SocketAddrV4 x p)
    with show_ipv4_length [of x] show_u16_length [of p] show ?thesis by simp
  next
    case (SocketAddrV6 x p f sc)
    with six [of x] show_u16_length [of p] ten [of sc] show ?thesis by simp
  qed
qed

end
