(* ===== verification/Sublink_Rules.thy ===== *)
theory Sublink_Rules
  imports Rust_Str "HOL-Library.Sublist"
begin

text \<open>
  Routing rules of the subscription service, from \<^verbatim>\<open>src/src/sublink.rs\<close>: the rule tables and
  presets, and the custom domain lists. \<^verbatim>\<open>url::Host::parse\<close> is the argument \<open>host_parse\<close>; an
  \<^verbatim>\<open>anyhow\<close> error is its message.
\<close>

type_synonym 'a result = "string + 'a"

datatype RulePreset = Minimal | Balanced | Comprehensive | China

text \<open>The presets can be enumerated, so a statement about all of them can be evaluated.\<close>

instantiation RulePreset :: enum
begin

definition enum_RulePreset :: "RulePreset list" where
  "enum_RulePreset = [Minimal, Balanced, Comprehensive, China]"

definition enum_all_RulePreset :: "(RulePreset \<Rightarrow> bool) \<Rightarrow> bool" where
  "enum_all_RulePreset P = (P Minimal \<and> P Balanced \<and> P Comprehensive \<and> P China)"

definition enum_ex_RulePreset :: "(RulePreset \<Rightarrow> bool) \<Rightarrow> bool" where
  "enum_ex_RulePreset P = (P Minimal \<or> P Balanced \<or> P Comprehensive \<or> P China)"

instance
proof
  fix P :: "RulePreset \<Rightarrow> bool"
  have all: "Q p" if "Q Minimal" "Q Balanced" "Q Comprehensive" "Q China" for Q and p :: RulePreset
    using that by (cases p) simp_all
  show "(UNIV :: RulePreset set) = set enum_class.enum"
    using all [of "\<lambda>p. p \<in> set enum_class.enum"] by (auto simp: enum_RulePreset_def)
  show "distinct (enum_class.enum :: RulePreset list)" by (simp add: enum_RulePreset_def)
  show "enum_class.enum_all P \<longleftrightarrow> Ball UNIV P" using all [of P] by (auto simp: enum_all_RulePreset_def)
  show "enum_class.enum_ex P \<longleftrightarrow> Bex UNIV P" using all [of "\<lambda>p. \<not> P p"] by (auto simp: enum_ex_RulePreset_def)
qed

end

datatype RuleAction = Proxy | Direct | Reject

record RuleSpec =
  rule_name :: string
  sites :: "string list"
  ips :: "string list"
  rule_action :: RuleAction

datatype DomainRule = Exact string | Suffix string

record CustomRules =
  whitelist :: "DomainRule list"
  blacklist :: "DomainRule list"

abbreviation rule :: "string \<Rightarrow> string list \<Rightarrow> string list \<Rightarrow> RuleAction \<Rightarrow> RuleSpec" where
  "rule n s i a \<equiv> \<lparr>rule_name = n, sites = s, ips = i, rule_action = a\<rparr>"

definition RULES :: "RuleSpec list" where
  "RULES =
     [rule ''Ad Block'' [''category-ads-all''] [] Reject,
      rule ''AI Services'' [''category-ai-!cn''] [] Proxy,
      rule ''Bilibili'' [''bilibili''] [] Proxy,
      rule ''Youtube'' [''youtube''] [] Proxy,
      rule ''Google'' [''google''] [''google''] Proxy,
      rule ''Private'' [] [''private''] Direct,
      rule ''Location:CN'' [''geolocation-cn'', ''cn''] [''cn''] Direct,
      rule ''Telegram'' [] [''telegram''] Proxy,
      rule ''Github'' [''github'', ''gitlab''] [] Proxy,
      rule ''Microsoft'' [''microsoft''] [] Proxy,
      rule ''Apple'' [''apple''] [] Proxy,
      rule ''Social Media'' [''facebook'', ''instagram'', ''twitter'', ''tiktok'', ''linkedin''] [] Proxy,
      rule ''Streaming'' [''netflix'', ''hulu'', ''disney'', ''hbo'', ''amazon'', ''bahamut''] [] Proxy,
      rule ''Gaming'' [''steam'', ''epicgames'', ''ea'', ''ubisoft'', ''blizzard''] [] Proxy,
      rule ''Education'' [''coursera'', ''edx'', ''udemy'', ''khanacademy'', ''category-scholar-!cn''] [] Proxy,
      rule ''Financial'' [''paypal'', ''visa'', ''mastercard'', ''stripe'', ''wise''] [] Proxy,
      rule ''Cloud Services'' [''aws'', ''azure'', ''digitalocean'', ''heroku'', ''dropbox''] [] Proxy,
      rule ''Non-China'' [''geolocation-!cn''] [] Proxy]"

definition CHINA_RULES :: "RuleSpec list" where
  "CHINA_RULES =
     [rule ''Ad Block'' [''category-ads-all''] [] Reject,
      rule ''Private'' [''private''] [''private''] Direct,
      rule ''China Services'' [''apple-cn'', ''microsoft@cn'', ''steam@cn'', ''category-games@cn'', ''bilibili''] [] Direct,
      rule ''AI Services'' [''category-ai-!cn''] [] Proxy,
      rule ''Youtube'' [''youtube''] [] Proxy,
      rule ''Google'' [''google''] [''google''] Proxy,
      rule ''Telegram'' [] [''telegram''] Proxy,
      rule ''Github'' [''github'', ''gitlab''] [] Proxy,
      rule ''Location:CN'' [''geolocation-cn'', ''cn''] [''cn''] Direct,
      rule ''Non-China'' [''geolocation-!cn''] [] Proxy]"

text \<open>The result of \<^verbatim>\<open>Host::parse\<close>; the addresses themselves are not used.\<close>

datatype url_host = Host_Domain string | Host_Ipv4 | Host_Ipv6

text \<open>One entry of a custom list, trimmed and not empty.\<close>

definition parse_domain_rule ::
  "(string \<Rightarrow> url_host option) \<Rightarrow> string \<Rightarrow> string \<Rightarrow> DomainRule result" where
  "parse_domain_rule host_parse label raw =
     (let (suffix, domain) =
        (case strip_prefix ''*.'' raw of
           Some domain \<Rightarrow> (True, domain)
         | None \<Rightarrow> (case strip_prefix ''.'' raw of
               Some domain \<Rightarrow> (True, domain)
             | None \<Rightarrow> (False, raw)));
          domain = trim_end_matches CHR ''.'' domain
      in and_then (ensure (domain \<noteq> [] \<and> CHR ''*'' \<notin> set domain \<and> \<not> has_white_space domain)
                     (''invalid '' @ label @ '' domain: '' @ raw)) (\<lambda>_.
         case host_parse domain of
           None \<Rightarrow> Err (''invalid '' @ label @ '' domain: '' @ raw)
         | Some (Host_Domain domain) \<Rightarrow> Ok (if suffix then Suffix domain else Exact domain)
         | Some _ \<Rightarrow> Err (label @ '' only supports domain names: '' @ raw)))"

fun parse_domain_entries ::
  "(string \<Rightarrow> url_host option) \<Rightarrow> string \<Rightarrow> string list \<Rightarrow> DomainRule list \<Rightarrow> DomainRule list result" where
  "parse_domain_entries host_parse label [] rules = Ok rules"
| "parse_domain_entries host_parse label (raw # raws) rules =
     (let raw = trim raw in
      if raw = [] then parse_domain_entries host_parse label raws rules
      else and_then (parse_domain_rule host_parse label raw) (\<lambda>rule.
        parse_domain_entries host_parse label raws
          (if rule \<in> set rules then rules else rules @ [rule])))"

definition parse_domain_rules ::
  "(string \<Rightarrow> url_host option) \<Rightarrow> string \<Rightarrow> string \<Rightarrow> DomainRule list result" where
  "parse_domain_rules host_parse val label =
     and_then (ensure (length val \<le> 8 * 1024) (label @ '' is too large'')) (\<lambda>_.
     and_then (parse_domain_entries host_parse label
                 (split_on (\<lambda>c. c \<in> {CHR '','', CHR 0x0A, CHR 0x0D}) val) []) (\<lambda>rules.
     and_then (ensure (length rules \<le> 128) (''too many '' @ label @ '' domains'')) (\<lambda>_.
     Ok rules)))"

definition validate_custom_rule_values ::
  "(string \<Rightarrow> url_host option) \<Rightarrow> string list \<Rightarrow> string \<Rightarrow> unit result" where
  "validate_custom_rule_values host_parse values label =
     and_then (parse_domain_rules host_parse (join [CHR 0x0A] values) label) (\<lambda>_. Ok ())"

definition unwrap_or_default :: "string option \<Rightarrow> string" where
  "unwrap_or_default s = (case s of None \<Rightarrow> [] | Some s \<Rightarrow> s)"

definition parse_custom_rules ::
  "(string \<Rightarrow> url_host option) \<Rightarrow> string option \<Rightarrow> string option \<Rightarrow> CustomRules result" where
  "parse_custom_rules host_parse white black =
     and_then (parse_domain_rules host_parse (unwrap_or_default white) ''whitelist'') (\<lambda>w.
     and_then (parse_domain_rules host_parse (unwrap_or_default black) ''blacklist'') (\<lambda>b.
     Ok \<lparr>whitelist = w, blacklist = b\<rparr>))"

definition parse_rule_preset :: "string \<Rightarrow> RulePreset result" where
  "parse_rule_preset val =
     (let v = to_ascii_lowercase (trim val) in
      if v = ''minimal'' then Ok Minimal
      else if v = ''balanced'' then Ok Balanced
      else if v = ''comprehensive'' then Ok Comprehensive
      else if v = ''china'' then Ok China
      else Err ''invalid selectedRules preset'')"

definition included :: "RulePreset option \<Rightarrow> RuleSpec \<Rightarrow> bool" where
  "included preset r =
     (case preset of
        None \<Rightarrow> False
      | Some Minimal \<Rightarrow> rule_name r \<in> {''Location:CN'', ''Private'', ''Non-China''}
      | Some Balanced \<Rightarrow> rule_name r \<in> {''Location:CN'', ''Private'', ''Non-China'', ''Github'',
          ''Google'', ''Youtube'', ''AI Services'', ''Telegram''}
      | Some Comprehensive \<Rightarrow> True
      | Some China \<Rightarrow> False)"

definition selected_rule_specs :: "RulePreset option \<Rightarrow> bool \<Rightarrow> RuleSpec list" where
  "selected_rule_specs preset ad_block =
     (if preset = Some China then filter (\<lambda>r. ad_block \<or> rule_name r \<noteq> ''Ad Block'') CHINA_RULES
      else filter (\<lambda>r. included preset r \<or> ad_block \<and> rule_name r = ''Ad Block'') RULES)"

section \<open>Lemmas\<close>

text \<open>The entries of a list that count: trimmed and not empty.\<close>

definition list_entries :: "string \<Rightarrow> string list" where
  "list_entries val =
     filter (\<lambda>e. e \<noteq> []) (map trim (split_on (\<lambda>c. c \<in> {CHR '','', CHR 0x0A, CHR 0x0D}) val))"

lemma parse_domain_entries_spec:
  assumes "parse_domain_entries h label raws acc = Ok rules" "distinct acc"
  shows "distinct rules \<and> (\<exists>new. rules = acc @ new) \<and>
    set rules = set acc \<union> {r. \<exists>e \<in> set (filter (\<lambda>e. e \<noteq> []) (map trim raws)). parse_domain_rule h label e = Ok r} \<and>
    (\<forall>e \<in> set (filter (\<lambda>e. e \<noteq> []) (map trim raws)). \<exists>r. parse_domain_rule h label e = Ok r)"
  using assms
proof (induction raws arbitrary: acc)
  case Nil
  then show ?case by simp
next
  case (Cons raw raws)
  show ?case
  proof (cases "trim raw = []")
    case True
    with Cons show ?thesis by (simp add: Let_def)
  next
    case False
    with Cons.prems(1) obtain r where r: "parse_domain_rule h label (trim raw) = Ok r"
      "parse_domain_entries h label raws (if r \<in> set acc then acc else acc @ [r]) = Ok rules"
      by (auto simp: Let_def result_simps)
    with Cons.IH [OF r(2)] Cons.prems(2) False show ?thesis by (auto split: if_splits)
  qed
qed

text \<open>The tags a rule gets in a sing-box configuration.\<close>

definition rule_tags :: "RuleSpec \<Rightarrow> string list" where
  "rule_tags r = sites r @ map (\<lambda>ip. ip @ ''-ip'') (ips r)"

text \<open>The comprehensive preset blocks advertisements whatever the option says.\<close>

lemma comprehensive_ignores_ad_block: "selected_rule_specs (Some Comprehensive) ad_block = RULES"
  by (simp add: selected_rule_specs_def included_def)

lemma selected_tags_distinct: "distinct (concat (map rule_tags (selected_rule_specs preset ad_block)))"
proof -
  have "distinct (concat (map rule_tags RULES)) \<and> distinct (concat (map rule_tags CHINA_RULES))"
    by code_simp
  moreover have "distinct (concat (map f xs)) \<Longrightarrow> distinct (concat (map f (filter P xs)))"
    for f :: "RuleSpec \<Rightarrow> string list" and P xs
    by (induction xs) auto
  ultimately show ?thesis by (simp add: selected_rule_specs_def)
qed

section \<open>Properties\<close>

text \<open>An accepted custom list yields each rule once, at most 128 of them: exactly the rules of
  its non-empty entries. Every rule's domain is what the host parser made of a name without a
  wildcard or white space; no rule is an address.\<close>

theorem parse_domain_rules_spec:
  assumes "parse_domain_rules h val label = Ok rules"
  shows "distinct rules \<and> length rules \<le> 128 \<and> length val \<le> 8192 \<and>
    set rules = {r. \<exists>e \<in> set (list_entries val). parse_domain_rule h label e = Ok r} \<and>
    (\<forall>e \<in> set (list_entries val). is_ok (parse_domain_rule h label e)) \<and>
    (\<forall>r \<in> set rules. \<exists>x d. h x = Some (Host_Domain d) \<and> x \<noteq> [] \<and> CHR ''*'' \<notin> set x \<and>
       \<not> has_white_space x \<and> r \<in> {Exact d, Suffix d})"
proof -
  have len: "length val \<le> 8192" "length rules \<le> 128"
    and e: "parse_domain_entries h label
      (split_on (\<lambda>c. c \<in> {CHR '','', CHR 0x0A, CHR 0x0D}) val) [] = Ok rules"
    using assms by (simp_all add: parse_domain_rules_def result_simps)
  note spec = parse_domain_entries_spec [OF e, simplified distinct.simps simp_thms]
  have "\<exists>x d. h x = Some (Host_Domain d) \<and> x \<noteq> [] \<and> CHR ''*'' \<notin> set x \<and> \<not> has_white_space x \<and>
      r \<in> {Exact d, Suffix d}" if "parse_domain_rule h label raw = Ok r" for raw r
    using that by (auto simp: parse_domain_rule_def Let_def result_simps split: option.splits url_host.splits prod.splits)
  with spec len show ?thesis by (fastforce simp: list_entries_def is_ok_def)
qed

theorem parse_domain_rules_spec_witness:
  "let h = (\<lambda>d. Some (Host_Domain d)); rules = [Suffix ''a.cn'', Exact ''b.org'']
   in parse_domain_rules h '' *.a.cn.,b.org,,.a.cn'' ''whitelist'' = Ok rules \<and> distinct rules"
proof -
  have "parse_domain_rules (\<lambda>d. Some (Host_Domain d)) '' *.a.cn.,b.org,,.a.cn'' ''whitelist'' =
      Ok [Suffix ''a.cn'', Exact ''b.org'']" by code_simp
  with parse_domain_rules_spec [OF this] show ?thesis by simp
qed

text \<open>Every preset selects a part of its table in the table's order, without two rule sets under
  one tag; ad blocking is included whenever it is asked for; the presets without it grow from
  minimal through balanced to comprehensive; and the catch-all rule for foreign sites comes last.\<close>

theorem selected_rule_specs_spec:
  "subseq (selected_rule_specs preset ad_block) (if preset = Some China then CHINA_RULES else RULES) \<and>
   distinct (concat (map rule_tags (selected_rule_specs preset ad_block))) \<and>
   (\<exists>r. r \<in> set (selected_rule_specs preset True) \<and> rule_name r = ''Ad Block'' \<and> rule_action r = Reject) \<and>
   set (selected_rule_specs (Some Minimal) ad_block) \<subseteq> set (selected_rule_specs (Some Balanced) ad_block) \<and>
   set (selected_rule_specs (Some Balanced) ad_block) \<subseteq> set (selected_rule_specs (Some Comprehensive) ad_block) \<and>
   (preset \<noteq> None \<longrightarrow> rule_name (last (selected_rule_specs preset ad_block)) = ''Non-China'')"
proof -
  note selected_tags_distinct
  moreover have "subseq (selected_rule_specs preset ad_block) (if preset = Some China then CHINA_RULES else RULES)"
    by (simp add: selected_rule_specs_def subseq_filter_left)
  moreover have "\<exists>r. r \<in> set (selected_rule_specs preset True) \<and> rule_name r = ''Ad Block'' \<and> rule_action r = Reject"
    by (intro exI [of _ "RULES ! 0"]) (simp add: selected_rule_specs_def RULES_def CHINA_RULES_def)
  moreover have "rule_name (last (selected_rule_specs preset ad_block)) = ''Non-China''" if "preset \<noteq> None"
  proof -
    have "\<forall>p a. rule_name (last (selected_rule_specs (Some p) a)) = ''Non-China''" by code_simp
    then show ?thesis using that by auto
  qed
  ultimately show ?thesis
    by (auto simp: selected_rule_specs_def included_def)
qed

theorem selected_rule_specs_spec_witness:
  "rule_name (last (selected_rule_specs (Some Balanced) False)) = ''Non-China''"
  using selected_rule_specs_spec [of "Some Balanced" False] by simp

end
