(* ===== verification/Config.thy ===== *)
theory Config
  imports Net_Addr Sublink_Rules
begin

text \<open>
  The configuration of \<^verbatim>\<open>src/src/config.rs\<close>: its records, the defaults, the validation every loaded
  and saved configuration passes, and the file operations around it. The TOML reader and writer,
  the URL parser and the HTTP header syntax checks are arguments (\<open>libs\<close>); a file system is a map
  from paths to contents.
\<close>

record TlsConfig =
  certificate :: string
  private_key :: string

record User =
  user_name :: string
  user_password :: string

record SshConfig =
  ssh_enabled :: bool
  ssh_upstream :: SocketAddr
  ssh_username :: string
  ssh_private_key :: string
  ssh_host_key :: string

record Bandwidth =
  up_mbps :: u64
  down_mbps :: u64
  ignore_client_bandwidth :: bool

record UdpConfig =
  udp_enabled :: bool
  timeout_secs :: u64

datatype OutboundMode = PreferIpv4 | Ipv4Only | Ipv6Only

record ObfsConfig =
  obfs_kind :: string
  obfs_password :: string

record ShareConfig =
  share_server :: string
  share_ipv6_server :: string
  share_port :: u16
  share_sni :: string
  share_insecure :: bool
  share_rule_preset :: string
  share_ad_block :: bool
  share_whitelist :: "string list"
  share_blacklist :: "string list"

datatype MasqueradeConfig =
    MasqueradeFile (directory: string)
  | MasqueradeProxy (url: string) (rewrite_host: bool)
  | MasqueradeString (status_code: u16) (headers: "(string \<times> string list) list") (content: string)

record Config =
  listen :: SocketAddr
  tls :: TlsConfig
  users :: "User list"
  ssh :: SshConfig
  bandwidth :: Bandwidth
  udp :: UdpConfig
  outbound_mode :: OutboundMode
  obfs :: "ObfsConfig option"
  masquerade :: "MasqueradeConfig option"
  share :: "ShareConfig option"

definition default_ssh_upstream :: SocketAddr where
  "default_ssh_upstream = SocketAddrV4 0x7F000001 51401"

definition SshConfig_default :: SshConfig where
  "SshConfig_default = \<lparr>ssh_enabled = False, ssh_upstream = default_ssh_upstream, ssh_username = [],
     ssh_private_key = [], ssh_host_key = []\<rparr>"

definition UdpConfig_default :: UdpConfig where
  "UdpConfig_default = \<lparr>udp_enabled = True, timeout_secs = 300\<rparr>"

text \<open>The library functions the validation calls.\<close>

record libs =
  host_parse :: "string \<Rightarrow> url_host option"
  url_scheme :: "string \<Rightarrow> string option"
  header_name_ok :: "string \<Rightarrow> bool"
  header_value_ok :: "string \<Rightarrow> bool"

text \<open>\<^verbatim>\<open>http::StatusCode::from_u16\<close> accepts 100 to 999.\<close>

definition status_code_ok :: "u16 \<Rightarrow> bool" where
  "status_code_ok s = (100 \<le> s \<and> s < 1000)"

definition check_header :: "libs \<Rightarrow> string \<times> string list \<Rightarrow> unit result" where
  "check_header lb h =
     (case h of (name, values) \<Rightarrow>
      and_then (ensure (header_name_ok lb name) (''invalid masquerade header name '' @ name)) (\<lambda>_.
      ensure (list_all (header_value_ok lb) values)
        (''invalid value for masquerade header '' @ name)))"

fun validate_masquerade :: "libs \<Rightarrow> MasqueradeConfig \<Rightarrow> unit result" where
  "validate_masquerade lb (MasqueradeFile dir) =
     ensure (trim dir \<noteq> []) ''masquerade directory is required''"
| "validate_masquerade lb (MasqueradeProxy u _) =
     and_then (ok_or (url_scheme lb u) ''parse masquerade proxy URL'') (\<lambda>scheme.
     ensure (scheme \<in> {''http'', ''https''}) ''masquerade proxy URL must use http or https'')"
| "validate_masquerade lb (MasqueradeString status hs _) =
     and_then (ensure (status_code_ok status) ''invalid masquerade status code'') (\<lambda>_.
     and_then (collect_results (map (check_header lb) hs)) (\<lambda>_. Ok ()))"

definition validate_ssh :: "SshConfig \<Rightarrow> unit result" where
  "validate_ssh s =
     (if ssh_enabled s then
        and_then (ensure (is_loopback (ip_of (ssh_upstream s)))
                    ''SSH upstream must use a loopback address'') (\<lambda>_.
        and_then (ensure (trim (ssh_username s) \<noteq> []) ''SSH username is required'') (\<lambda>_.
        ensure (trim (ssh_private_key s) \<noteq> []) ''SSH private key is required''))
      else Ok ())"

definition validate_share :: "libs \<Rightarrow> ShareConfig \<Rightarrow> unit result" where
  "validate_share lb s =
     and_then (ensure (trim (share_server s) \<noteq> [] \<or> trim (share_ipv6_server s) \<noteq> [])
                 ''at least one share server address is required'') (\<lambda>_.
     and_then (ensure (share_port s > 0) ''share server port must be greater than zero'') (\<lambda>_.
     and_then (ensure (share_rule_preset s \<in> {''minimal'', ''balanced'', ''comprehensive'', ''china''})
                 ''share rule preset must be minimal, balanced, comprehensive, or china'') (\<lambda>_.
     and_then (validate_custom_rule_values (host_parse lb) (share_whitelist s) ''whitelist'') (\<lambda>_.
     validate_custom_rule_values (host_parse lb) (share_blacklist s) ''blacklist''))))"

definition validate :: "libs \<Rightarrow> Config \<Rightarrow> unit result" where
  "validate lb c =
     and_then (ensure (users c \<noteq> []) ''at least one HY2 user is required'') (\<lambda>_.
     and_then (ensure (list_all (\<lambda>u. user_password u \<noteq> []) (users c))
                 ''HY2 user passwords must not be empty'') (\<lambda>_.
     and_then (ensure (list_all (\<lambda>u. trim (user_name u) \<noteq> []) (users c))
                 ''HY2 user names must not be empty'') (\<lambda>_.
     and_then (ensure (trim (certificate (tls c)) \<noteq> []) ''TLS certificate path is required'') (\<lambda>_.
     and_then (ensure (trim (private_key (tls c)) \<noteq> []) ''TLS private key path is required'') (\<lambda>_.
     and_then (ensure (timeout_secs (udp c) > 0) ''UDP timeout must be greater than zero'') (\<lambda>_.
     and_then (validate_ssh (ssh c)) (\<lambda>_.
     and_then (case obfs c of None \<Rightarrow> Ok ()
               | Some ob \<Rightarrow>
                   and_then (ensure (obfs_kind ob = ''salamander'') ''unsupported obfuscation type'') (\<lambda>_.
                   ensure (obfs_password ob \<noteq> []) ''Salamander password must not be empty'')) (\<lambda>_.
     and_then (case masquerade c of None \<Rightarrow> Ok () | Some m \<Rightarrow> validate_masquerade lb m) (\<lambda>_.
     case share c of None \<Rightarrow> Ok () | Some s \<Rightarrow> validate_share lb s)))))))))"

section \<open>Files\<close>

text \<open>A configuration file system: contents and permission bits by path. The operations the code calls
  may fail; \<open>ops\<close> says which paths can be written and renamed to.\<close>

type_synonym path = string

record file_entry =
  file_contents :: string
  file_mode :: nat

type_synonym fs = "path \<Rightarrow> file_entry option"

text \<open>\<^verbatim>\<open>path.with_extension("toml.tmp")\<close> of a file name with the extension \<^verbatim>\<open>.toml\<close> is the path with
  \<^verbatim>\<open>.tmp\<close> appended; the caller supplies it.\<close>

definition from_toml :: "(string \<Rightarrow> Config option) \<Rightarrow> libs \<Rightarrow> string \<Rightarrow> Config result" where
  "from_toml toml_parse lb contents =
     and_then (ok_or (toml_parse contents) ''parse TOML configuration'') (\<lambda>config.
     and_then (validate lb config) (\<lambda>_. Ok config))"

definition load :: "(string \<Rightarrow> Config option) \<Rightarrow> libs \<Rightarrow> fs \<Rightarrow> path \<Rightarrow> Config result" where
  "load toml_parse lb files path =
     and_then (ok_or (map_option file_contents (files path)) (''read configuration '' @ path)) (\<lambda>contents.
     from_toml toml_parse lb contents)"

definition to_toml :: "(Config \<Rightarrow> string option) \<Rightarrow> libs \<Rightarrow> Config \<Rightarrow> string result" where
  "to_toml toml_print lb c =
     and_then (validate lb c) (\<lambda>_. ok_or (toml_print c) ''serialize TOML configuration'')"

text \<open>\<open>writable\<close> is the set of paths \<^verbatim>\<open>fs::write\<close> succeeds on, \<open>can_chmod\<close> and \<open>can_rename\<close> whether the
  two other calls succeed. A new file gets the mode \<open>umask_mode\<close>.\<close>

record fs_ops =
  writable :: "path \<Rightarrow> bool"
  can_chmod :: bool
  can_rename :: bool
  umask_mode :: nat

definition save_atomic ::
  "(Config \<Rightarrow> string option) \<Rightarrow> libs \<Rightarrow> (path \<Rightarrow> path) \<Rightarrow> fs_ops \<Rightarrow> Config \<Rightarrow> path \<Rightarrow> fs \<Rightarrow> unit result \<times> fs" where
  "save_atomic toml_print lb with_tmp_extension ops c path files =
     (case to_toml toml_print lb c of
        Err e \<Rightarrow> (Err e, files)
      | Ok contents \<Rightarrow>
          let temporary = with_tmp_extension path in
          if \<not> writable ops temporary
          then (Err (''write temporary configuration '' @ temporary), files)
          else
            let mode = (case files temporary of None \<Rightarrow> umask_mode ops | Some f \<Rightarrow> file_mode f);
                files = files(temporary \<mapsto> \<lparr>file_contents = contents, file_mode = mode\<rparr>)
            in case files path of
                 Some old \<Rightarrow>
                   if \<not> can_chmod ops
                   then (Err (''preserve configuration permissions for '' @ path), files)
                   else
                     let files = files(temporary \<mapsto> \<lparr>file_contents = contents, file_mode = file_mode old\<rparr>)
                     in if can_rename ops
                        then (Ok (), files(path := files temporary, temporary := None))
                        else (Err (''replace configuration '' @ path), files)
               | None \<Rightarrow>
                   if can_rename ops
                   then (Ok (), files(path := files temporary, temporary := None))
                   else (Err (''replace configuration '' @ path), files))"

text \<open>The configuration of the integration test, \<^verbatim>\<open>src/integration/server.toml\<close>, in outline.\<close>

definition example_config :: Config where
  "example_config = \<lparr>listen = SocketAddrV4 0 443, tls = \<lparr>certificate = ''c.pem'', private_key = ''k.pem''\<rparr>,
     users = [\<lparr>user_name = ''u'', user_password = ''p''\<rparr>], ssh = SshConfig_default,
     bandwidth = \<lparr>up_mbps = 100, down_mbps = 100, ignore_client_bandwidth = False\<rparr>,
     udp = UdpConfig_default, outbound_mode = PreferIpv4, obfs = None, masquerade = None, share = None\<rparr>"

definition example_libs :: libs where
  "example_libs = \<lparr>host_parse = (\<lambda>d. Some (Host_Domain d)), url_scheme = (\<lambda>_. Some ''http''),
     header_name_ok = (\<lambda>_. True), header_value_ok = (\<lambda>_. True)\<rparr>"

section \<open>Lemmas\<close>

lemma from_toml_valid:
  "from_toml p lb s = Ok c \<longleftrightarrow> p s = Some c \<and> validate lb c = Ok ()"
  by (auto simp: from_toml_def result_simps)

lemma to_toml_valid:
  "to_toml p lb c = Ok s \<longleftrightarrow> p c = Some s \<and> validate lb c = Ok ()"
  by (auto simp: to_toml_def result_simps)

lemma save_atomic_Ok:
  assumes "\<And>c s. toml_print c = Some s \<Longrightarrow> toml_parse s = Some c" "with_tmp path \<noteq> path"
    and "save_atomic toml_print lb with_tmp ops c path files = (Ok u, files')"
  shows "load toml_parse lb files' path = Ok c"
proof (cases "to_toml toml_print lb c")
  case (Inl e)
  with assms(3) show ?thesis by (auto simp: save_atomic_def)
next
  case (Inr s)
  then have "from_toml toml_parse lb s = Ok c"
    using assms(1) by (simp add: to_toml_valid from_toml_valid)
  with Inr assms(2,3) show ?thesis
    by (auto simp: save_atomic_def load_def Let_def split: if_splits option.splits)
qed

lemma save_atomic_Err:
  assumes "with_tmp path \<noteq> path" "save_atomic toml_print lb with_tmp ops c path files = (Err e, files')"
  shows "files' path = files path"
  using assms by (auto simp: save_atomic_def Let_def split: if_splits option.splits sum.splits)

lemma example_config_valid: "validate example_libs example_config = Ok ()"
  by code_simp

section \<open>Properties\<close>



text \<open>Saving is atomic. If \<open>save_atomic\<close> succeeds, the file holds the new configuration with the
  permissions it had before and loading it returns that configuration, provided the TOML writer's
  output parses back; if it fails at any step, the file at the path is untouched. No third file
  is touched either way.\<close>

theorem save_atomic_spec:
  assumes "\<And>c s. toml_print c = Some s \<Longrightarrow> toml_parse s = Some c"
    and "with_tmp path \<noteq> path" "save_atomic toml_print lb with_tmp ops c path files = (r, files')"
  shows "(r = Ok () \<longrightarrow> load toml_parse lb files' path = Ok c \<and>
      (\<forall>old new. files path = Some old \<longrightarrow> files' path = Some new \<longrightarrow> file_mode new = file_mode old)) \<and>
    (r \<noteq> Ok () \<longrightarrow> files' path = files path) \<and>
    (\<forall>p. p \<noteq> path \<longrightarrow> p \<noteq> with_tmp path \<longrightarrow> files' p = files p)"
proof -
  have "r = Ok () \<longrightarrow> load toml_parse lb files' path = Ok c" using save_atomic_Ok assms by blast
  moreover have "r \<noteq> Ok () \<longrightarrow> files' path = files path"
    using save_atomic_Err assms(2,3) by (cases r) (auto simp: old.unit.exhaust)
  moreover have "(r = Ok () \<longrightarrow> (\<forall>old new. files path = Some old \<longrightarrow> files' path = Some new \<longrightarrow> file_mode new = file_mode old)) \<and>
      (\<forall>p. p \<noteq> path \<longrightarrow> p \<noteq> with_tmp path \<longrightarrow> files' p = files p)"
    using assms(2,3) by (auto simp: save_atomic_def Let_def split: if_splits option.splits sum.splits)
  ultimately show ?thesis by blast
qed

theorem save_atomic_spec_witness:
  "let print = (\<lambda>c. if c = example_config then Some ''x'' else None);
       parse = (\<lambda>s. if s = ''x'' then Some example_config else None);
       ops = \<lparr>writable = (\<lambda>_. True), can_chmod = True, can_rename = True, umask_mode = 420\<rparr>
   in load parse example_libs (snd (save_atomic print example_libs (\<lambda>p. p @ ''.tmp'') ops example_config
        ''s.toml'' [''s.toml'' \<mapsto> \<lparr>file_contents = ''old'', file_mode = 384\<rparr>])) ''s.toml'' = Ok example_config"
proof -
  let ?print = "\<lambda>c. if c = example_config then Some ''x'' else None"
  let ?parse = "\<lambda>s. if s = ''x'' then Some example_config else None"
  let ?ops = "\<lparr>writable = (\<lambda>_. True), can_chmod = True, can_rename = True, umask_mode = 420\<rparr>"
  let ?r = "save_atomic ?print example_libs (\<lambda>p. p @ ''.tmp'') ?ops example_config ''s.toml''
    [''s.toml'' \<mapsto> \<lparr>file_contents = ''old'', file_mode = 384\<rparr>]"
  have "fst ?r = Ok ()"
    by (simp add: save_atomic_def to_toml_def example_config_valid)
  then obtain files' where r: "?r = (Ok (), files')" by (metis prod.collapse)
  have "?print c = Some s \<Longrightarrow> ?parse s = Some c" for c s by (simp split: if_splits)
  from save_atomic_spec [of ?print ?parse, OF this _ r] have "load ?parse example_libs files' ''s.toml'' = Ok example_config"
    by simp
  then show ?thesis unfolding Let_def r by simp
qed

end
