(* ===== verification/Brutal.thy ===== *)
theory Brutal
  imports Prelude Complex_Main
begin

text \<open>
  Congestion control, \<^verbatim>\<open>src/src/brutal.rs\<close>: the queue of pending rates, rate negotiation, the Brutal
  controller and the controller that switches between it and BBR. The shared rate cell is read by
  atomic loads, so the value of each load is an argument. An \<^verbatim>\<open>f64\<close> is a rational number; every
  operation on it rounds to 53 significant bits, ties to even. The magnitudes here (below 2^130,
  above 2^-64 or zero) neither overflow nor become subnormal. A \<^verbatim>\<open>Duration\<close> is in nanoseconds.
\<close>

section \<open>Floating point\<close>

fun log2_floor :: "nat \<Rightarrow> nat" where
  "log2_floor n = (if n < 2 then 0 else Suc (log2_floor (n div 2)))"

declare log2_floor.simps [simp del]

text \<open>The exponent of the binade of a positive number: \<open>2 ^ e \<le> x < 2 ^ (e + 1)\<close>.\<close>

definition binade :: "rat \<Rightarrow> int" where
  "binade x =
     (if 1 \<le> x then int (log2_floor (nat \<lfloor>x\<rfloor>))
      else - int (Suc (log2_floor (nat (\<lceil>1 / x\<rceil> - 1)))))"

definition round_half_even :: "rat \<Rightarrow> int" where
  "round_half_even x =
     (let f = \<lfloor>x\<rfloor>; d = x - of_int f in
      if d < 1 / 2 then f else if d > 1 / 2 then f + 1 else if even f then f else f + 1)"

definition pow2 :: "int \<Rightarrow> rat" where
  "pow2 e = (if 0 \<le> e then 2 ^ nat e else 1 / 2 ^ nat (- e))"

definition rnd :: "rat \<Rightarrow> rat" where
  "rnd x = (if x \<le> 0 then 0
     else let u = pow2 (binade x - 52) in of_int (round_half_even (x / u)) * u)"

definition f64_of :: "u64 \<Rightarrow> rat" where
  "f64_of n = rnd (of_nat (unat n))"

text \<open>\<^verbatim>\<open>as u64\<close>: truncation, saturating at the largest value.\<close>

definition u64_of :: "rat \<Rightarrow> u64" where
  "u64_of x = word_of_nat (min (nat \<lfloor>x\<rfloor>) (2 ^ 64 - 1))"

definition as_secs_f64 :: "nat \<Rightarrow> rat" where
  "as_secs_f64 d =
     rnd (rnd (of_nat (d div 10 ^ 9)) + rnd (rnd (of_nat (d mod 10 ^ 9)) / 10 ^ 9))"

section \<open>The shared configuration\<close>

abbreviation SLOT_COUNT :: nat where "SLOT_COUNT \<equiv> 5"
abbreviation MIN_SAMPLE_BYTES :: u64 where "MIN_SAMPLE_BYTES \<equiv> 60000"
abbreviation MIN_WINDOW :: u64 where "MIN_WINDOW \<equiv> 10240"

definition MIN_ACK_RATE :: rat where "MIN_ACK_RATE = rnd (8 / 10)"
definition QUINN_PACING_WINDOW_FACTOR :: rat where "QUINN_PACING_WINDOW_FACTOR = rnd (8 / 10)"

text \<open>A rate cell is named by the order of its creation.\<close>

record Hy2CongestionConfig =
  server_limit_bps :: u64
  pending_rates :: "nat list"
  next_cell :: nat

definition Hy2CongestionConfig_new :: "u64 \<Rightarrow> Hy2CongestionConfig" where
  "Hy2CongestionConfig_new limit = \<lparr>server_limit_bps = limit, pending_rates = [], next_cell = 0\<rparr>"

text \<open>\<^verbatim>\<open>take_pending_rate\<close>: \<open>None\<close> while the queue is empty and the caller waits.\<close>

definition take_pending_rate :: "Hy2CongestionConfig \<Rightarrow> (nat \<times> Hy2CongestionConfig) option" where
  "take_pending_rate c =
     (case pending_rates c of [] \<Rightarrow> None | r # rs \<Rightarrow> Some (r, c\<lparr>pending_rates := rs\<rparr>))"

definition negotiated_rate :: "Hy2CongestionConfig \<Rightarrow> u64 \<Rightarrow> u64" where
  "negotiated_rate c client =
     (if client = 0 then 0 else if server_limit_bps c = 0 then client
      else min (server_limit_bps c) client)"

section \<open>The Brutal controller\<close>

record SampleSlot =
  slot_second :: u64
  acked_bytes :: u64
  lost_bytes :: u64

record BrutalController =
  mtu :: u16
  started :: nat
  rtt :: nat
  ack_rate :: rat
  slots :: "SampleSlot list"
  cached_rate :: u64
  cached_window :: u64
  cached_pacing_rate :: u64

definition compute_window :: "u64 \<Rightarrow> nat \<Rightarrow> rat \<Rightarrow> u16 \<Rightarrow> u64" where
  "compute_window rate delay ack packet =
     (let target = rnd (rnd (rnd (f64_of rate * as_secs_f64 delay) * QUINN_PACING_WINDOW_FACTOR) / ack)
      in max (max (u64_of target) MIN_WINDOW) (ucast packet * 2))"

definition compute_pacing :: "u64 \<Rightarrow> rat \<Rightarrow> u64" where
  "compute_pacing rate ack = u64_of (rnd (rnd (f64_of rate / ack) * 8))"

definition refresh_cache :: "bool \<Rightarrow> u64 \<Rightarrow> BrutalController \<Rightarrow> BrutalController" where
  "refresh_cache force rate b =
     (if \<not> force \<and> rate = cached_rate b then b
      else b\<lparr>cached_rate := rate,
             cached_window := compute_window rate (rtt b) (ack_rate b) (mtu b),
             cached_pacing_rate := compute_pacing rate (ack_rate b)\<rparr>)"

definition BrutalController_new :: "u64 \<Rightarrow> u16 \<Rightarrow> nat \<Rightarrow> BrutalController" where
  "BrutalController_new rate current_mtu now =
     refresh_cache True rate
       \<lparr>mtu = current_mtu, started = now, rtt = 100 * 10 ^ 6, ack_rate = 1,
        slots = replicate SLOT_COUNT \<lparr>slot_second = - 1, acked_bytes = 0, lost_bytes = 0\<rparr>,
        cached_rate = - 1, cached_window = MIN_WINDOW, cached_pacing_rate = 0\<rparr>"

text \<open>\<^verbatim>\<open>record\<close>: the slot of the current second, then the rate over the window.\<close>

definition bump_slot :: "u64 \<Rightarrow> u64 \<Rightarrow> u64 \<Rightarrow> SampleSlot list \<Rightarrow> SampleSlot list" where
  "bump_slot sec acked lost ss =
     (let i = unat sec mod SLOT_COUNT;
          slot = (if slot_second (ss ! i) \<noteq> sec
                  then \<lparr>slot_second = sec, acked_bytes = 0, lost_bytes = 0\<rparr> else ss ! i)
      in ss[i := slot\<lparr>acked_bytes := saturating_add (acked_bytes slot) acked,
                      lost_bytes := saturating_add (lost_bytes slot) lost\<rparr>])"

definition window_sums :: "u64 \<Rightarrow> SampleSlot list \<Rightarrow> u64 \<times> u64" where
  "window_sums sec ss =
     (let oldest = saturating_sub sec (word_of_nat SLOT_COUNT) in
      foldl (\<lambda>(acked, lost) s. (saturating_add acked (acked_bytes s), saturating_add lost (lost_bytes s)))
        (0, 0) (filter (\<lambda>s. slot_second s \<ge> oldest \<and> slot_second s \<le> sec) ss))"

definition ack_rate_of :: "u64 \<Rightarrow> u64 \<Rightarrow> rat" where
  "ack_rate_of acked lost =
     (let total = saturating_add acked lost in
      if total < MIN_SAMPLE_BYTES then 1
      else max (rnd (f64_of acked / f64_of total)) MIN_ACK_RATE)"

definition brutal_record :: "nat \<Rightarrow> u64 \<Rightarrow> u64 \<Rightarrow> u64 \<Rightarrow> BrutalController \<Rightarrow> BrutalController" where
  "brutal_record now acked_b lost_b rate b =
     (let sec = word_of_nat ((now - started b) div 10 ^ 9);
          ss = bump_slot sec acked_b lost_b (slots b);
          (acked, lost) = window_sums sec ss
      in refresh_cache True rate (b\<lparr>slots := ss, ack_rate := ack_rate_of acked lost\<rparr>))"

definition brutal_on_ack :: "nat \<Rightarrow> u64 \<Rightarrow> nat \<Rightarrow> u64 \<Rightarrow> BrutalController \<Rightarrow> BrutalController" where
  "brutal_on_ack now acked_b new_rtt rate b = brutal_record now acked_b 0 rate (b\<lparr>rtt := new_rtt\<rparr>)"

definition brutal_on_congestion_event :: "nat \<Rightarrow> u64 \<Rightarrow> u64 \<Rightarrow> BrutalController \<Rightarrow> BrutalController" where
  "brutal_on_congestion_event now lost_b rate b = brutal_record now 0 lost_b rate b"

definition brutal_on_mtu_update :: "u16 \<Rightarrow> u64 \<Rightarrow> BrutalController \<Rightarrow> BrutalController" where
  "brutal_on_mtu_update new_mtu rate b = refresh_cache True rate (b\<lparr>mtu := new_mtu\<rparr>)"

text \<open>\<^verbatim>\<open>target_window\<close>, \<^verbatim>\<open>window\<close> and \<^verbatim>\<open>metrics\<close>: the value and the refreshed cache.\<close>

definition brutal_window :: "u64 \<Rightarrow> BrutalController \<Rightarrow> u64 \<times> BrutalController" where
  "brutal_window rate b = (let b = refresh_cache False rate b in (cached_window b, b))"

definition brutal_metrics :: "u64 \<Rightarrow> BrutalController \<Rightarrow> (u64 \<times> u64) \<times> BrutalController" where
  "brutal_metrics rate b =
     (let b = refresh_cache False rate b in ((cached_window b, cached_pacing_rate b), b))"

section \<open>The switching controller\<close>

text \<open>BBR is quinn's; its state and operations are parameters.\<close>

record 'b bbr_ops =
  bbr_new :: "nat \<Rightarrow> u16 \<Rightarrow> 'b"
  bbr_on_ack :: "nat \<Rightarrow> u64 \<Rightarrow> nat \<Rightarrow> 'b \<Rightarrow> 'b"
  bbr_on_sent :: "nat \<Rightarrow> u64 \<Rightarrow> u64 \<Rightarrow> 'b \<Rightarrow> 'b"
  bbr_on_end_acks :: "nat \<Rightarrow> u64 \<Rightarrow> u64 option \<Rightarrow> 'b \<Rightarrow> 'b"
  bbr_on_congestion_event :: "nat \<Rightarrow> u64 \<Rightarrow> 'b \<Rightarrow> 'b"
  bbr_on_mtu_update :: "u16 \<Rightarrow> 'b \<Rightarrow> 'b"
  bbr_window :: "'b \<Rightarrow> u64"
  bbr_metrics :: "'b \<Rightarrow> u64 \<times> u64"
  bbr_clone_box :: "'b \<Rightarrow> 'b"
  bbr_initial_window :: "'b \<Rightarrow> u64"

record 'b Hy2Controller =
  bbr :: 'b
  brutal :: BrutalController

text \<open>\<open>r1\<close> is the load of \<^verbatim>\<open>use_brutal\<close>, \<open>r2\<close> the load inside the Brutal controller.\<close>

definition hy2_build ::
  "'b bbr_ops \<Rightarrow> nat \<Rightarrow> u16 \<Rightarrow> Hy2CongestionConfig \<Rightarrow> 'b Hy2Controller \<times> nat \<times> Hy2CongestionConfig" where
  "hy2_build ops now current_mtu c =
     (let cell = next_cell c in
      (\<lparr>bbr = bbr_new ops now current_mtu, brutal = BrutalController_new 0 current_mtu now\<rparr>, cell,
       c\<lparr>pending_rates := pending_rates c @ [cell], next_cell := Suc cell\<rparr>))"

text \<open>The Brutal controller has no \<^verbatim>\<open>on_sent\<close> and \<^verbatim>\<open>on_end_acks\<close>: the trait's defaults do nothing.\<close>

definition hy2_on_sent ::
  "'b bbr_ops \<Rightarrow> u64 \<Rightarrow> nat \<Rightarrow> u64 \<Rightarrow> u64 \<Rightarrow> 'b Hy2Controller \<Rightarrow> 'b Hy2Controller" where
  "hy2_on_sent ops r1 now sent_b number h =
     (if r1 > 0 then h else h\<lparr>bbr := bbr_on_sent ops now sent_b number (bbr h)\<rparr>)"

definition hy2_on_end_acks ::
  "'b bbr_ops \<Rightarrow> u64 \<Rightarrow> nat \<Rightarrow> u64 \<Rightarrow> u64 option \<Rightarrow> 'b Hy2Controller \<Rightarrow> 'b Hy2Controller" where
  "hy2_on_end_acks ops r1 now in_flight largest h =
     (if r1 > 0 then h else h\<lparr>bbr := bbr_on_end_acks ops now in_flight largest (bbr h)\<rparr>)"

definition hy2_on_ack ::
  "'b bbr_ops \<Rightarrow> u64 \<Rightarrow> u64 \<Rightarrow> nat \<Rightarrow> u64 \<Rightarrow> nat \<Rightarrow> 'b Hy2Controller \<Rightarrow> 'b Hy2Controller" where
  "hy2_on_ack ops r1 r2 now acked_b new_rtt h =
     (if r1 > 0 then h\<lparr>brutal := brutal_on_ack now acked_b new_rtt r2 (brutal h)\<rparr>
      else h\<lparr>bbr := bbr_on_ack ops now acked_b new_rtt (bbr h)\<rparr>)"

definition hy2_on_congestion_event ::
  "'b bbr_ops \<Rightarrow> u64 \<Rightarrow> u64 \<Rightarrow> nat \<Rightarrow> u64 \<Rightarrow> 'b Hy2Controller \<Rightarrow> 'b Hy2Controller" where
  "hy2_on_congestion_event ops r1 r2 now lost_b h =
     (if r1 > 0 then h\<lparr>brutal := brutal_on_congestion_event now lost_b r2 (brutal h)\<rparr>
      else h\<lparr>bbr := bbr_on_congestion_event ops now lost_b (bbr h)\<rparr>)"

definition hy2_on_mtu_update ::
  "'b bbr_ops \<Rightarrow> u64 \<Rightarrow> u16 \<Rightarrow> 'b Hy2Controller \<Rightarrow> 'b Hy2Controller" where
  "hy2_on_mtu_update ops r new_mtu h =
     h\<lparr>bbr := bbr_on_mtu_update ops new_mtu (bbr h), brutal := brutal_on_mtu_update new_mtu r (brutal h)\<rparr>"

definition hy2_window :: "'b bbr_ops \<Rightarrow> u64 \<Rightarrow> u64 \<Rightarrow> 'b Hy2Controller \<Rightarrow> u64 \<times> 'b Hy2Controller" where
  "hy2_window ops r1 r2 h =
     (if r1 > 0 then let (w, b) = brutal_window r2 (brutal h) in (w, h\<lparr>brutal := b\<rparr>)
      else (bbr_window ops (bbr h), h))"

definition hy2_metrics ::
  "'b bbr_ops \<Rightarrow> u64 \<Rightarrow> u64 \<Rightarrow> 'b Hy2Controller \<Rightarrow> (u64 \<times> u64) \<times> 'b Hy2Controller" where
  "hy2_metrics ops r1 r2 h =
     (if r1 > 0 then let (m, b) = brutal_metrics r2 (brutal h) in (m, h\<lparr>brutal := b\<rparr>)
      else (bbr_metrics ops (bbr h), h))"

text \<open>quinn clones the controller of a connection for another path and asks it for the initial window. A clone
  copies everything but the cell: both controllers go on loading their rate from the same one.\<close>

definition brutal_initial_window :: "u64 \<Rightarrow> BrutalController \<Rightarrow> u64 \<times> BrutalController" where
  "brutal_initial_window rate b = brutal_window rate b"

definition brutal_clone :: "BrutalController \<Rightarrow> BrutalController" where
  "brutal_clone b =
     \<lparr>mtu = mtu b, started = started b, rtt = rtt b, ack_rate = ack_rate b, slots = slots b,
      cached_rate = cached_rate b, cached_window = cached_window b, cached_pacing_rate = cached_pacing_rate b\<rparr>"

definition hy2_clone_box :: "'b bbr_ops \<Rightarrow> 'b Hy2Controller \<Rightarrow> 'b Hy2Controller" where
  "hy2_clone_box ops h = \<lparr>bbr = bbr_clone_box ops (bbr h), brutal = brutal_clone (brutal h)\<rparr>"

definition hy2_initial_window :: "'b bbr_ops \<Rightarrow> 'b Hy2Controller \<Rightarrow> u64" where
  "hy2_initial_window ops h = bbr_initial_window ops (bbr h)"

section \<open>Runs\<close>

text \<open>What quinn calls, with the clock, the measured round-trip time and the loaded rate.\<close>

datatype brutal_event =
    Acked nat u64 nat u64
  | Lost nat u64 u64
  | MtuUpdate u16 u64
  | Query u64

fun brutal_step :: "BrutalController \<Rightarrow> brutal_event \<Rightarrow> BrutalController" where
  "brutal_step b (Acked now n delay rate) = brutal_on_ack now n delay rate b"
| "brutal_step b (Lost now n rate) = brutal_on_congestion_event now n rate b"
| "brutal_step b (MtuUpdate m rate) = brutal_on_mtu_update m rate b"
| "brutal_step b (Query rate) = snd (brutal_window rate b)"

definition brutal_run :: "BrutalController \<Rightarrow> brutal_event list \<Rightarrow> BrutalController" where
  "brutal_run b es = foldl brutal_step b es"

section \<open>Lemmas\<close>

subsection \<open>Rounding\<close>

lemma log2_floor_bounds: "0 < n \<Longrightarrow> 2 ^ log2_floor n \<le> n \<and> n < 2 ^ Suc (log2_floor n)"
proof (induction n rule: log2_floor.induct)
  case (1 n)
  show ?case
  proof (cases "n < 2")
    case True
    with 1 show ?thesis by (simp add: log2_floor.simps [of n])
  next
    case False
    with 1 have "2 ^ log2_floor (n div 2) \<le> n div 2" "n div 2 < 2 ^ Suc (log2_floor (n div 2))"
      by simp_all
    then show ?thesis by (subst (1 2) log2_floor.simps) (use False in auto)
  qed
qed

lemma pow2_powi: "pow2 e = 2 powi e"
  by (simp add: pow2_def power_int_def field_simps)

lemma pow2_pos [simp]: "0 < pow2 e"
  by (simp add: pow2_powi)

lemma pow2_mono: "e \<le> e' \<Longrightarrow> pow2 e \<le> pow2 e'"
  by (simp add: pow2_powi power_int_increasing)

lemma pow2_diff: "pow2 (e + int k) = 2 ^ k * pow2 e"
  by (simp add: pow2_powi power_int_add)

lemma binade_bounds:
  assumes "0 < x"
  shows "pow2 (binade x) \<le> x \<and> x < pow2 (binade x + 1)"
proof (cases "1 \<le> x")
  case True
  let ?n = "nat \<lfloor>x\<rfloor>" and ?k = "log2_floor (nat \<lfloor>x\<rfloor>)"
  have n: "0 < ?n" "of_nat ?n \<le> x" "x < of_nat ?n + 1" using True by (auto simp: of_nat_nat) linarith+
  then have b: "(2::rat) ^ ?k \<le> of_nat ?n" "(of_nat ?n :: rat) + 1 \<le> 2 ^ Suc ?k"
    using log2_floor_bounds [OF n(1)] by (metis of_nat_le_iff of_nat_numeral of_nat_power,
      metis Suc_leI add.commute of_nat_Suc of_nat_le_iff of_nat_numeral of_nat_power)
  moreover have "pow2 (binade x) = 2 ^ ?k" "pow2 (binade x + 1) = 2 ^ Suc ?k"
    using True by (simp_all add: binade_def pow2_def nat_add_distrib)
  ultimately show ?thesis using n by linarith
next
  case False
  let ?m = "nat (\<lceil>1 / x\<rceil> - 1)" and ?k = "log2_floor (nat (\<lceil>1 / x\<rceil> - 1))"
  have x1: "1 < 1 / x" using False assms by (simp add: field_simps)
  then have c: "2 \<le> \<lceil>1 / x\<rceil>" by linarith
  then have "0 < ?m" by simp
  moreover from c have "of_nat ?m = (of_int (\<lceil>1 / x\<rceil> - 1) :: rat)" by (intro of_nat_nat) linarith
  moreover have "of_int (\<lceil>1 / x\<rceil> - 1) < 1 / x" "1 / x \<le> of_int \<lceil>1 / x\<rceil>"
    using ceiling_correct [of "1 / x"] by simp_all
  ultimately have m: "0 < ?m" "of_nat ?m < 1 / x" "1 / x \<le> of_nat ?m + 1" by simp_all
  have "(2::rat) ^ ?k \<le> of_nat ?m" "(of_nat ?m :: rat) + 1 \<le> 2 ^ Suc ?k"
    using log2_floor_bounds [OF m(1)] by (metis of_nat_le_iff of_nat_numeral of_nat_power,
      metis Suc_leI add.commute of_nat_Suc of_nat_le_iff of_nat_numeral of_nat_power)
  with m have "2 ^ ?k < 1 / x" "1 / x \<le> 2 ^ Suc ?k" by linarith+
  then have "x < 1 / 2 ^ ?k" "1 / 2 ^ Suc ?k \<le> x" using assms by (simp_all add: field_simps)
  moreover have "pow2 (binade x) = 1 / 2 ^ Suc ?k" "pow2 (binade x + 1) = 1 / 2 ^ ?k"
    using False by (simp_all add: binade_def pow2_def nat_add_distrib)
  ultimately show ?thesis by simp
qed

lemma round_half_even_mono: "x \<le> y \<Longrightarrow> round_half_even x \<le> round_half_even y"
proof -
  assume xy: "x \<le> y"
  have b: "\<lfloor>z\<rfloor> \<le> round_half_even z" "round_half_even z \<le> \<lfloor>z\<rfloor> + 1" for z
    by (simp_all add: round_half_even_def Let_def)
  show ?thesis
  proof (cases "\<lfloor>x\<rfloor> = \<lfloor>y\<rfloor>")
    case True
    with xy show ?thesis by (simp add: round_half_even_def Let_def)
  next
    case False
    then have "\<lfloor>x\<rfloor> + 1 \<le> \<lfloor>y\<rfloor>" using floor_mono [OF xy] by simp
    with b(2) [of x] b(1) [of y] show ?thesis by linarith
  qed
qed

lemma round_half_even_of_int [simp]: "round_half_even (of_int n) = n"
  by (simp add: round_half_even_def Let_def)

lemma rnd_binade:
  assumes "0 < x"
  shows "pow2 (binade x) \<le> rnd x \<and> rnd x \<le> pow2 (binade x + 1)"
proof -
  let ?u = "pow2 (binade x - 52)"
  have p: "pow2 (binade x) = of_int (2 ^ 52) * ?u" "pow2 (binade x + 1) = of_int (2 ^ 53) * ?u"
    using pow2_diff [of "binade x - 52" 52] pow2_diff [of "binade x - 52" 53]
    by (simp_all add: add.commute)
  then have "of_int (2 ^ 52) \<le> x / ?u" "x / ?u \<le> of_int (2 ^ 53)"
    using binade_bounds [OF assms] by (simp_all add: pos_le_divide_eq pos_divide_le_eq)
  then have "2 ^ 52 \<le> round_half_even (x / ?u)" "round_half_even (x / ?u) \<le> 2 ^ 53"
    using round_half_even_mono round_half_even_of_int by metis+
  then have "of_int (2 ^ 52) * ?u \<le> of_int (round_half_even (x / ?u)) * ?u"
    "of_int (round_half_even (x / ?u)) * ?u \<le> of_int (2 ^ 53) * ?u"
    using less_imp_le [OF pow2_pos [of "binade x - 52"]]
    by (simp_all only: of_int_le_iff mult_right_mono)
  with p assms show ?thesis by (simp add: rnd_def Let_def)
qed

lemma rnd_nonneg: "0 \<le> rnd x"
proof (cases "0 < x")
  case True
  then show ?thesis
    using rnd_binade [OF True] pow2_pos [of "binade x"] by (meson less_imp_le order_trans)
qed (simp add: rnd_def)

lemma rnd_mono:
  assumes "x \<le> y"
  shows "rnd x \<le> rnd y"
proof (cases "0 < x")
  case False
  then show ?thesis using rnd_nonneg [of y] by (simp add: rnd_def)
next
  case True
  with assms have y: "0 < y" by simp
  consider "binade x = binade y" | "binade x < binade y" | "binade y < binade x" by linarith
  then show ?thesis
  proof cases
    case 1
    have "x / pow2 (binade y - 52) \<le> y / pow2 (binade y - 52)"
      by (rule divide_right_mono [OF assms less_imp_le]) simp
    from round_half_even_mono [OF this] 1 True y show ?thesis by (simp add: rnd_def Let_def)
  next
    case 2
    then have "pow2 (binade x + 1) \<le> pow2 (binade y)" by (simp add: pow2_mono)
    with rnd_binade [OF True] rnd_binade [OF y] show ?thesis by linarith
  next
    case 3
    then have "pow2 (binade y + 1) \<le> pow2 (binade x)" by (simp add: pow2_mono)
    with binade_bounds [OF True] binade_bounds [OF y] assms show ?thesis by linarith
  qed
qed

lemma rnd_1 [simp]: "rnd 1 = 1"
proof -
  have "binade 1 = 0" by (simp add: binade_def log2_floor.simps)
  then show ?thesis
    using round_half_even_of_int [of "2 ^ 52"] by (simp add: rnd_def pow2_def)
qed

lemma f64_of_mono: "a \<le> b \<Longrightarrow> f64_of a \<le> f64_of b"
  unfolding f64_of_def by (rule rnd_mono) (simp only: of_nat_le_iff word_le_nat_alt)

lemma f64_of_pos: "0 < a \<Longrightarrow> 1 \<le> f64_of a"
proof -
  assume "0 < a"
  then have "1 \<le> unat a" by (simp add: word_less_nat_alt)
  then have "(1::rat) \<le> of_nat (unat a)" by (metis of_nat_1 of_nat_le_iff)
  from rnd_mono [OF this] show "1 \<le> f64_of a" unfolding f64_of_def rnd_1 .
qed

lemma ack_rate_of_bounds: "MIN_ACK_RATE \<le> ack_rate_of a l \<and> ack_rate_of a l \<le> 1"
proof -
  have m: "MIN_ACK_RATE \<le> 1" using rnd_mono [of "8 / 10" 1] by (simp add: MIN_ACK_RATE_def)
  let ?t = "saturating_add a l"
  have le: "f64_of a \<le> f64_of ?t"
    using unsigned_less [of a, where ?'a = nat] by (intro f64_of_mono) (simp add: word_le_nat_alt unat_saturating_add)
  have "rnd (f64_of a / f64_of ?t) \<le> 1" if "\<not> ?t < MIN_SAMPLE_BYTES"
  proof -
    have "0 < ?t" using that by (auto simp: word_less_nat_alt)
    then have "f64_of a / f64_of ?t \<le> 1" using f64_of_pos [of ?t] le by simp
    from rnd_mono [OF this] show ?thesis by simp
  qed
  with m show ?thesis by (simp add: ack_rate_of_def Let_def)
qed

subsection \<open>The sampling window\<close>

text \<open>The abstract account of the samples: every event with its second since the start.\<close>

type_synonym sample = "nat \<times> nat \<times> nat"

definition total_at :: "(sample \<Rightarrow> nat) \<Rightarrow> sample list \<Rightarrow> nat \<Rightarrow> nat" where
  "total_at f hist s = sum_list (map f (filter (\<lambda>e. fst e = s) hist))"

abbreviation U64_MAX :: nat where "U64_MAX \<equiv> 2 ^ 64 - 1"

definition slot_ok :: "sample list \<Rightarrow> nat \<Rightarrow> SampleSlot \<Rightarrow> bool" where
  "slot_ok hist i s =
     ((\<forall>e \<in> set hist. fst e mod SLOT_COUNT = i \<longrightarrow> slot_second s \<noteq> - 1 \<and> fst e \<le> unat (slot_second s)) \<and>
      (slot_second s \<noteq> - 1 \<longrightarrow>
         unat (slot_second s) mod SLOT_COUNT = i \<and> unat (slot_second s) \<in> fst ` set hist \<and>
         unat (acked_bytes s) = min (total_at (fst \<circ> snd) hist (unat (slot_second s))) U64_MAX \<and>
         unat (lost_bytes s) = min (total_at (snd \<circ> snd) hist (unat (slot_second s))) U64_MAX))"

definition slots_ok :: "sample list \<Rightarrow> SampleSlot list \<Rightarrow> bool" where
  "slots_ok hist ss = (length ss = SLOT_COUNT \<and> (\<forall>i < SLOT_COUNT. slot_ok hist i (ss ! i)))"

lemma slots_ok_init: "slots_ok [] (replicate SLOT_COUNT \<lparr>slot_second = - 1, acked_bytes = 0, lost_bytes = 0\<rparr>)"
  by (simp add: slots_ok_def slot_ok_def)

lemma total_at_snoc: "total_at f (hist @ [e]) s = total_at f hist s + (if fst e = s then f e else 0)"
  by (simp add: total_at_def)

lemma total_at_none: "s \<notin> fst ` set hist \<Longrightarrow> total_at f hist s = 0"
proof -
  assume "s \<notin> fst ` set hist"
  then have "filter (\<lambda>e. fst e = s) hist = []" by (auto simp: filter_empty_conv image_iff)
  then show ?thesis by (simp add: total_at_def)
qed

lemma slot_ok_bump:
  assumes "slot_ok hist (unat sec mod SLOT_COUNT) s" "\<forall>e \<in> set hist. fst e \<le> unat sec" "sec \<noteq> - 1"
  defines "s0 \<equiv> (if slot_second s \<noteq> sec then \<lparr>slot_second = sec, acked_bytes = 0, lost_bytes = 0\<rparr> else s)"
  shows "slot_ok (hist @ [(unat sec, unat a, unat l)]) (unat sec mod SLOT_COUNT)
    (s0\<lparr>acked_bytes := saturating_add (acked_bytes s0) a, lost_bytes := saturating_add (lost_bytes s0) l\<rparr>)"
proof (cases "slot_second s = sec")
  case True
  with assms(1-3) show ?thesis
    by (auto simp: s0_def slot_ok_def total_at_snoc unat_saturating_add)
next
  case False
  have "unat sec \<notin> fst ` set hist"
  proof
    assume h: "unat sec \<in> fst ` set hist"
    then have "slot_second s \<noteq> - 1" "unat sec \<le> unat (slot_second s)"
      using assms(1) by (auto simp: slot_ok_def)
    moreover from this(1) have "unat (slot_second s) \<le> unat sec"
      using assms(1,2) by (auto simp: slot_ok_def)
    ultimately show False using False by (simp add: word_unat_eq_iff)
  qed
  with False assms(2,3) show ?thesis
    by (auto simp: s0_def slot_ok_def total_at_snoc total_at_none unat_saturating_add)
qed

lemma slot_ok_other:
  assumes "slot_ok hist i s" "c mod SLOT_COUNT \<noteq> i"
  shows "slot_ok (hist @ [(c, a, l)]) i s"
  using assms by (auto simp: slot_ok_def total_at_snoc)

lemma slots_ok_bump:
  assumes "slots_ok hist ss" "\<forall>e \<in> set hist. fst e \<le> unat sec" "sec \<noteq> - 1"
  shows "slots_ok (hist @ [(unat sec, unat a, unat l)]) (bump_slot sec a l ss)"
proof -
  let ?i = "unat sec mod SLOT_COUNT"
  have "slot_ok (hist @ [(unat sec, unat a, unat l)]) i (bump_slot sec a l ss ! i)" if "i < SLOT_COUNT" for i
    using that assms(1) slot_ok_bump [of hist sec "ss ! ?i" a l] assms(2,3) slot_ok_other [of hist i "ss ! i" "unat sec"]
    by (cases "i = ?i") (auto simp: bump_slot_def slots_ok_def Let_def)
  with assms(1) show ?thesis by (simp add: slots_ok_def bump_slot_def Let_def)
qed

lemma unat_foldl_saturating:
  "unat (foldl (\<lambda>a s. saturating_add a (f s)) a0 xs) = min (unat a0 + sum_list (map (\<lambda>s. unat (f s)) xs)) U64_MAX"
  for a0 :: u64
proof (induction xs arbitrary: a0)
  case Nil
  then show ?case using unsigned_less [of a0, where ?'a = nat] by simp
next
  case (Cons x xs)
  then show ?case by (simp add: unat_saturating_add min_def)
qed

lemma min_sum_min:
  "finite I \<Longrightarrow> min (\<Sum>i \<in> I. min (f i) M) M = min (\<Sum>i \<in> I. f i) (M :: nat)"
proof (induction I rule: finite_induct)
  case (insert i I)
  have "min (min (f i) M + (\<Sum>i \<in> I. min (f i) M)) M = min (f i + min (\<Sum>i \<in> I. min (f i) M) M) M"
    by (simp add: min_def)
  with insert show ?case by (simp add: min_def)
qed simp

definition in_window :: "u64 \<Rightarrow> SampleSlot \<Rightarrow> bool" where
  "in_window sec s = (slot_second s \<ge> saturating_sub sec (word_of_nat SLOT_COUNT) \<and> slot_second s \<le> sec)"

lemma window_sums_foldl:
  "window_sums sec ss =
     (foldl (\<lambda>a s. saturating_add a (acked_bytes s)) 0 (filter (in_window sec) ss),
      foldl (\<lambda>a s. saturating_add a (lost_bytes s)) 0 (filter (in_window sec) ss))"
proof -
  have "foldl (\<lambda>(acked, lost) s. (saturating_add acked (acked_bytes s), saturating_add lost (lost_bytes s))) (a, l) xs =
      (foldl (\<lambda>a s. saturating_add a (acked_bytes s)) a xs, foldl (\<lambda>a s. saturating_add a (lost_bytes s)) l xs)"
    for a l and xs :: "SampleSlot list"
    by (induction xs arbitrary: a l) simp_all
  then show ?thesis by (simp add: window_sums_def in_window_def [abs_def] Let_def)
qed

lemma mod_eq_in_window:
  "c - 4 \<le> s \<Longrightarrow> s \<le> c \<Longrightarrow> c - 4 \<le> t \<Longrightarrow> t \<le> c \<Longrightarrow> s mod 5 = t mod 5 \<Longrightarrow> s = (t :: nat)"
proof -
  have close: "a = b" if "a \<le> b" "b \<le> a + 4" "b mod 5 = a mod 5" for a b :: nat
  proof -
    have "5 dvd b - a" using that mod_eq_dvd_iff_nat [of a b 5] by simp
    with that show ?thesis using nat_dvd_not_less [of "b - a" 5] by (cases "b - a = 0") auto
  qed
  assume b: "c - 4 \<le> s" "s \<le> c" "c - 4 \<le> t" "t \<le> c" and eq: "s mod 5 = t mod 5"
  have "t \<le> s + 4" "s \<le> t + 4" using b by linarith+
  then show ?thesis
    using close [OF _ _ eq] close [OF _ _ eq [symmetric]] linear [of s t] by blast
qed

text \<open>Although the filter admits six seconds, the slot that could hold the sixth is the one of the
  current second: the sums are those of the last five.\<close>

lemma slot_contribution:
  assumes ok: "slots_ok hist ss" and c: "unat sec \<in> fst ` set hist" "\<forall>e \<in> set hist. fst e \<le> unat sec" "sec \<noteq> - 1"
    and i: "i < SLOT_COUNT"
    and g: "\<And>s. slot_ok hist i s \<Longrightarrow> slot_second s \<noteq> - 1 \<Longrightarrow> g s = min (total_at f hist (unat (slot_second s))) U64_MAX"
  shows "(if in_window sec (ss ! i) then g (ss ! i) else 0) =
    (\<Sum>s \<in> {s \<in> {unat sec - 4..unat sec}. s mod SLOT_COUNT = i}. min (total_at f hist s) U64_MAX)"
proof -
  let ?s = "ss ! i" and ?c = "unat sec"
  have si: "slot_ok hist i ?s" using ok i by (simp add: slots_ok_def)
  have win: "in_window sec ?s \<longleftrightarrow> ?c - 5 \<le> unat (slot_second ?s) \<and> unat (slot_second ?s) \<le> ?c"
    by (simp add: in_window_def word_le_nat_alt unat_saturating_sub)
  show ?thesis
  proof (cases "in_window sec ?s")
    case True
    let ?t = "unat (slot_second ?s)"
    have ne: "slot_second ?s \<noteq> - 1"
    proof
      assume "slot_second ?s = - 1"
      then have "unat (- 1 :: u64) \<le> unat sec" using True win by simp
      then have "(- 1 :: u64) \<le> sec" by (simp only: word_le_nat_alt)
      with c(3) word_n1_ge [of sec] show False by (meson order.antisym)
    qed
    have t: "?t mod SLOT_COUNT = i" using si ne by (simp add: slot_ok_def)
    have "?t \<noteq> ?c - 5 \<or> ?c < 5"
    proof (rule ccontr)
      assume "\<not> (?t \<noteq> ?c - 5 \<or> ?c < 5)"
      then have "?t + 5 = ?c" by simp
      then have "?c mod SLOT_COUNT = i" using t by (metis mod_add_self2)
      then have "?c \<le> ?t" using si c(1) by (auto simp: slot_ok_def)
      with \<open>?t + 5 = ?c\<close> show False by simp
    qed
    then have "?c - 4 \<le> ?t" "?t \<le> ?c" using True win by linarith+
    then have "x = ?t" if "x \<in> {?c - 4..?c}" "x mod SLOT_COUNT = i" for x
      using that t by (intro mod_eq_in_window [of ?c x ?t]) (simp_all only: atLeastAtMost_iff)
    then have "{s \<in> {?c - 4..?c}. s mod SLOT_COUNT = i} \<subseteq> {?t}" by blast
    moreover have "?t \<in> {s \<in> {?c - 4..?c}. s mod SLOT_COUNT = i}"
      by (intro CollectI conjI t) (simp only: atLeastAtMost_iff \<open>?c - 4 \<le> ?t\<close> \<open>?t \<le> ?c\<close>)
    ultimately have "{s \<in> {?c - 4..?c}. s mod SLOT_COUNT = i} = {?t}" by blast
    with True g [OF si ne] show ?thesis by simp
  next
    case False
    have "total_at f hist s = 0" if "s \<in> {?c - 4..?c}" "s mod SLOT_COUNT = i" for s
    proof (rule total_at_none)
      show "s \<notin> fst ` set hist"
      proof
        assume "s \<in> fst ` set hist"
        then have "slot_second ?s \<noteq> - 1" "s \<le> unat (slot_second ?s)"
          using si that(2) by (auto simp: slot_ok_def)
        moreover from this(1) have "unat (slot_second ?s) \<le> ?c" using si c(2) by (auto simp: slot_ok_def)
        ultimately show False using False win that(1) by simp
      qed
    qed
    with False show ?thesis by simp
  qed
qed

lemma sum_list_filter_nth:
  "sum_list (map g (filter P xs)) = (\<Sum>i < length xs. if P (xs ! i) then g (xs ! i) else (0 :: nat))"
proof (induction xs rule: rev_induct)
  case (snoc x xs)
  have "(\<Sum>i < length xs. if P ((xs @ [x]) ! i) then g ((xs @ [x]) ! i) else 0) =
      (\<Sum>i < length xs. if P (xs ! i) then g (xs ! i) else 0)"
    by (rule sum.cong) (simp_all add: nth_append)
  with snoc show ?case by simp
qed simp

lemma window_total:
  fixes g :: "SampleSlot \<Rightarrow> u64"
  assumes ok: "slots_ok hist ss" and c: "unat sec \<in> fst ` set hist" "\<forall>e \<in> set hist. fst e \<le> unat sec" "sec \<noteq> - 1"
    and g: "\<And>i s. slot_ok hist i s \<Longrightarrow> slot_second s \<noteq> - 1 \<Longrightarrow>
      unat (g s) = min (total_at f hist (unat (slot_second s))) U64_MAX"
  shows "unat (foldl (\<lambda>a s. saturating_add a (g s)) 0 (filter (in_window sec) ss)) =
    min (\<Sum>s \<in> {unat sec - 4..unat sec}. total_at f hist s) U64_MAX"
proof -
  let ?W = "{unat sec - 4..unat sec}" and ?h = "\<lambda>s. min (total_at f hist s) U64_MAX"
  have "sum_list (map (\<lambda>s. unat (g s)) (filter (in_window sec) ss)) =
      (\<Sum>i < SLOT_COUNT. \<Sum>s \<in> {s \<in> ?W. s mod SLOT_COUNT = i}. ?h s)"
    unfolding sum_list_filter_nth
    using ok slot_contribution [OF ok c _ g] by (intro sum.cong) (simp_all add: slots_ok_def)
  also have "\<dots> = (\<Sum>s \<in> ?W. ?h s)" by (rule sum.group) auto
  finally have sum: "sum_list (map (\<lambda>s. unat (g s)) (filter (in_window sec) ss)) = (\<Sum>s \<in> ?W. ?h s)" .
  show ?thesis
    unfolding unat_foldl_saturating sum by (simp only: unsigned_0 add_0 min_sum_min finite_atLeastAtMost)
qed

subsection \<open>The invariant\<close>

fun sample_of :: "nat \<Rightarrow> brutal_event \<Rightarrow> sample list" where
  "sample_of t0 (Acked now n _ _) = [((now - t0) div 10 ^ 9, unat n, 0)]"
| "sample_of t0 (Lost now n _) = [((now - t0) div 10 ^ 9, 0, unat n)]"
| "sample_of t0 _ = []"

definition samples :: "nat \<Rightarrow> brutal_event list \<Rightarrow> sample list" where
  "samples t0 es = concat (map (sample_of t0) es)"

text \<open>The bytes of the five seconds up to the last sample, and the acknowledgement rate they give.\<close>

definition window_bytes :: "(sample \<Rightarrow> nat) \<Rightarrow> sample list \<Rightarrow> u64" where
  "window_bytes f hist =
     (let c = fst (last hist) in word_of_nat (min (\<Sum>s \<in> {c - 4..c}. total_at f hist s) U64_MAX))"

definition expected_ack_rate :: "sample list \<Rightarrow> rat" where
  "expected_ack_rate hist =
     (if hist = [] then 1 else ack_rate_of (window_bytes (fst \<circ> snd) hist) (window_bytes (snd \<circ> snd) hist))"

definition cache_coherent :: "BrutalController \<Rightarrow> bool" where
  "cache_coherent b =
     (cached_window b = compute_window (cached_rate b) (rtt b) (ack_rate b) (mtu b) \<and>
      cached_pacing_rate b = compute_pacing (cached_rate b) (ack_rate b))"

definition brutal_inv :: "nat \<Rightarrow> sample list \<Rightarrow> BrutalController \<Rightarrow> bool" where
  "brutal_inv t0 hist b =
     (started b = t0 \<and> slots_ok hist (slots b) \<and> ack_rate b = expected_ack_rate hist \<and> cache_coherent b)"

lemma cache_coherent_refresh:
  "force \<or> cache_coherent b \<Longrightarrow> cache_coherent (refresh_cache force rate b)"
  by (auto simp: cache_coherent_def refresh_cache_def)

lemma refresh_cache_fields [simp]:
  "started (refresh_cache force rate b) = started b" "slots (refresh_cache force rate b) = slots b"
  "ack_rate (refresh_cache force rate b) = ack_rate b" "rtt (refresh_cache force rate b) = rtt b"
  "mtu (refresh_cache force rate b) = mtu b"
  by (simp_all add: refresh_cache_def)

lemma unat_word_of_min: "unat (word_of_nat (min n U64_MAX) :: u64) = min n U64_MAX"
  by (simp add: unat_of_nat min_def)

lemma brutal_record_inv:
  assumes inv: "slots_ok hist (slots b)" "started b = t0"
    and c: "\<forall>e \<in> set hist. fst e \<le> (now - t0) div 10 ^ 9" "(now - t0) div 10 ^ 9 < U64_MAX"
  shows "brutal_inv t0 (hist @ [((now - t0) div 10 ^ 9, unat a, unat l)]) (brutal_record now a l rate b)"
proof -
  define n where "n = (now - t0) div 10 ^ 9"
  define sec where "sec = (word_of_nat n :: u64)"
  define hist' where "hist' = hist @ [(unat sec, unat a, unat l)]"
  have n: "unat sec = n" using c(2) [folded n_def] by (simp add: sec_def unat_of_nat)
  then have ne: "sec \<noteq> - 1" using c(2) unat_minus_1 [where ?'a = 64] by (auto simp: n_def)
  have ok: "slots_ok hist' (bump_slot sec a l (slots b))"
    unfolding hist'_def using slots_ok_bump [OF inv(1) _ ne] c(1) n n_def by simp
  have mem: "unat sec \<in> fst ` set hist'" "\<forall>e \<in> set hist'. fst e \<le> unat sec" "fst (last hist') = unat sec" "hist' \<noteq> []"
    using c(1) n n_def by (auto simp: hist'_def)
  have w: "window_sums sec (bump_slot sec a l (slots b)) =
      (window_bytes (fst \<circ> snd) hist', window_bytes (snd \<circ> snd) hist')"
    using window_total [OF ok mem(1,2) ne, of acked_bytes "fst \<circ> snd"] window_total [OF ok mem(1,2) ne, of lost_bytes "snd \<circ> snd"]
    by (simp only: window_sums_foldl window_bytes_def mem(3) slot_ok_def word_unat_eq_iff Let_def
        prod.inject unat_word_of_min simp_thms)
  have "brutal_record now a l rate b = refresh_cache True rate (b\<lparr>slots := bump_slot sec a l (slots b),
      ack_rate := ack_rate_of (window_bytes (fst \<circ> snd) hist') (window_bytes (snd \<circ> snd) hist')\<rparr>)"
    unfolding brutal_record_def Let_def inv(2) n_def [symmetric] sec_def [symmetric] w prod.case ..
  then have "brutal_inv t0 hist' (brutal_record now a l rate b)"
    using ok inv(2) mem(4) by (simp add: brutal_inv_def expected_ack_rate_def cache_coherent_refresh)
  then show ?thesis unfolding hist'_def n unfolding n_def .
qed

lemma brutal_step_inv:
  assumes "brutal_inv t0 hist b" "sorted (map fst (hist @ sample_of t0 e))"
    and "\<forall>s \<in> set (sample_of t0 e). fst s < U64_MAX"
  shows "brutal_inv t0 (hist @ sample_of t0 e) (brutal_step b e)"
proof (cases e)
  case (Acked now n delay rate)
  with assms brutal_record_inv [of hist "b\<lparr>rtt := delay\<rparr>" t0 now n 0 rate] show ?thesis
    by (auto simp: brutal_on_ack_def brutal_inv_def sorted_append)
next
  case (Lost now n rate)
  with assms brutal_record_inv [of hist b t0 now 0 n rate] show ?thesis
    by (auto simp: brutal_on_congestion_event_def brutal_inv_def sorted_append)
qed (use assms in \<open>simp_all add: brutal_on_mtu_update_def brutal_window_def brutal_inv_def Let_def cache_coherent_refresh\<close>)

lemma brutal_run_inv:
  assumes "sorted (map fst (samples t0 es))" "\<forall>s \<in> set (samples t0 es). fst s < U64_MAX"
  shows "brutal_inv t0 (samples t0 es) (brutal_run (BrutalController_new r0 m0 t0) es)"
  using assms
proof (induction es rule: rev_induct)
  case Nil
  have "brutal_inv t0 [] (BrutalController_new r0 m0 t0)"
    using slots_ok_init
    by (simp add: brutal_inv_def BrutalController_new_def cache_coherent_refresh expected_ack_rate_def)
  then show ?case by (simp add: samples_def brutal_run_def)
next
  case (snoc e es)
  have s: "samples t0 (es @ [e]) = samples t0 es @ sample_of t0 e" by (simp add: samples_def)
  have "brutal_inv t0 (samples t0 es) (brutal_run (BrutalController_new r0 m0 t0) es)"
    using snoc by (simp add: s sorted_append)
  from brutal_step_inv [OF this, of e] snoc.prems show ?case by (simp add: s brutal_run_def)
qed

section \<open>Properties\<close>

text \<open>A clone behaves as its original under every later rate of the shared cell, if the library's controller does.\<close>

lemma brutal_clone_id: "brutal_clone b = b"
  by (cases b) (simp add: brutal_clone_def)

lemma hy2_clone_window:
  "bbr_window ops (bbr_clone_box ops (bbr h)) = bbr_window ops (bbr h) \<Longrightarrow>
    fst (hy2_window ops r1 r2 (hy2_clone_box ops h)) = fst (hy2_window ops r1 r2 h)"
  by (simp add: hy2_window_def hy2_clone_box_def brutal_clone_id split: prod.split)

text \<open>C15: loss measurement. After any run of acknowledgements, losses, MTU updates and queries in
  clock order, the controller's acknowledgement rate is the one of the bytes acknowledged and lost
  in the five seconds up to the last sample (one, if they are too few to judge), and it lies
  between the minimum and one.\<close>

theorem brutal_ack_rate_window:
  assumes "sorted (map fst (samples t0 es))" "\<forall>s \<in> set (samples t0 es). fst s < U64_MAX"
  shows "ack_rate (brutal_run (BrutalController_new r0 m0 t0) es) = expected_ack_rate (samples t0 es) \<and>
    MIN_ACK_RATE \<le> expected_ack_rate (samples t0 es) \<and> expected_ack_rate (samples t0 es) \<le> 1"
proof -
  have "MIN_ACK_RATE \<le> 1" using ack_rate_of_bounds [of 0 0] by linarith
  then show ?thesis
    using brutal_run_inv [OF assms] ack_rate_of_bounds by (simp add: brutal_inv_def expected_ack_rate_def)
qed

theorem brutal_ack_rate_window_witness:
  "let es = [Acked (10 ^ 9) 60000 (10 ^ 8) 5, Lost (2 * 10 ^ 9) 60000 5]
   in ack_rate (brutal_run (BrutalController_new 5 1200 0) es) = expected_ack_rate (samples 0 es)"
proof -
  let ?es = "[Acked (10 ^ 9) 60000 (10 ^ 8) 5, Lost (2 * 10 ^ 9) 60000 5]"
  have "samples 0 ?es = [(1, 60000, 0), (2, 0, 60000)]" by (simp add: samples_def)
  then show ?thesis
    unfolding Let_def using brutal_ack_rate_window [of 0 ?es 5 1200] by simp
qed

text \<open>The cached window is never stale. Whatever happened before and whatever rate another task
  has stored since, a query returns the window and the pacing rate computed from the rate loaded,
  the last round-trip time, the current loss rate and MTU; the window is at least 10240 bytes and
  two packets.\<close>

theorem brutal_query_fresh:
  fixes r0 rate :: u64 and m0 :: u16
  assumes "sorted (map fst (samples t0 es))" "\<forall>s \<in> set (samples t0 es). fst s < U64_MAX"
  defines "b \<equiv> brutal_run (BrutalController_new r0 m0 t0) es"
  shows "fst (brutal_metrics rate b) =
      (compute_window rate (rtt b) (expected_ack_rate (samples t0 es)) (mtu b),
       compute_pacing rate (expected_ack_rate (samples t0 es))) \<and>
    fst (brutal_window rate b) = fst (fst (brutal_metrics rate b)) \<and>
    MIN_WINDOW \<le> fst (brutal_window rate b) \<and> 2 * unat (mtu b) \<le> unat (fst (brutal_window rate b))"
proof -
  have inv: "brutal_inv t0 (samples t0 es) b" unfolding b_def by (rule brutal_run_inv [OF assms(1,2)])
  have "unat (mtu b) < 2 ^ 16" using unsigned_less [of "mtu b", where ?'a = nat] by simp
  moreover from this have "unat (ucast (mtu b) :: u64) = unat (mtu b)"
    by (simp add: unsigned_ucast_eq take_bit_nat_eq_self_iff)
  ultimately have "unat (ucast (mtu b) * 2 :: u64) = 2 * unat (mtu b)"
    by (simp add: unat_word_ariths)
  then have "2 * unat (mtu b) \<le> unat (compute_window rate (rtt b) k (mtu b))" for k
    unfolding compute_window_def Let_def by (metis max.cobounded2 word_le_nat_alt)
  moreover have "MIN_WINDOW \<le> compute_window rate (rtt b) k (mtu b)" for k
    by (simp add: compute_window_def Let_def le_max_iff_disj)
  ultimately show ?thesis
    using inv
    by (auto simp: brutal_inv_def cache_coherent_def brutal_metrics_def brutal_window_def Let_def refresh_cache_def)
qed

theorem brutal_query_fresh_witness:
  "let es = [Acked (10 ^ 9) 60000 (10 ^ 8) 5, Lost (2 * 10 ^ 9) 60000 5, Query 7];
       b = brutal_run (BrutalController_new 5 1200 0) es
   in MIN_WINDOW \<le> fst (brutal_window 9 b)"
proof -
  let ?es = "[Acked (10 ^ 9) 60000 (10 ^ 8) 5, Lost (2 * 10 ^ 9) 60000 5, Query 7]"
  have "samples 0 ?es = [(1, 60000, 0), (2, 0, 60000)]" by (simp add: samples_def)
  then have "sorted (map fst (samples 0 ?es))" "\<forall>s \<in> set (samples 0 ?es). fst s < U64_MAX" by simp_all
  from brutal_query_fresh [OF this, where rate = 9 and ?r0.0 = 5 and ?m0.0 = 1200]
  show ?thesis unfolding Let_def by blast
qed

end
