(* ===== verification/Varint.thy ===== *)
theory Varint
  imports Prelude
begin

text \<open>
  QUIC variable-length integers, \<^verbatim>\<open>src/src/protocol/varint.rs\<close>: the two-bit width prefix, the
  encoder that appends to an output buffer and the decoder that consumes a slice. The interface
  the frame codecs rely on (what is written is read back, nothing else is consumed) is the
  locale \<open>prefix_codec\<close>, interpreted on the two functions.
\<close>

datatype VarIntError = VarInt_Truncated | VarInt_TooLarge

definition varint_width :: "u64 \<Rightarrow> (nat \<times> u8) option" where
  "varint_width value =
     (if value \<le> 63 then Some (1, 0)
      else if value \<le> 16383 then Some (2, 0x40)
      else if value \<le> 1073741823 then Some (4, 0x80)
      else if value \<le> 4611686018427387903 then Some (8, 0xc0)
      else None)"

definition encode_varint :: "u64 \<Rightarrow> bytes \<Rightarrow> VarIntError + bytes" where
  "encode_varint value output =
     (case varint_width value of
        None \<Rightarrow> Err VarInt_TooLarge
      | Some (width, prefix) \<Rightarrow>
          let bs = be_bytes 8 value;
              start = length bs - width;
              bs = bs[start := bs ! start OR prefix]
          in Ok (output @ drop start bs))"

text \<open>The slice is advanced only on success: the second component is what is left of it.\<close>

definition decode_varint :: "bytes \<Rightarrow> VarIntError + (u64 \<times> bytes)" where
  "decode_varint input =
     (case input of
        [] \<Rightarrow> Err VarInt_Truncated
      | first # _ \<Rightarrow>
          let width = push_bit (unat (drop_bit 6 first)) (1::nat) in
          if length input < width then Err VarInt_Truncated
          else Ok (foldl be_push (ucast (first AND 0x3f)) (drop 1 (take width input)),
                   drop width input))"

text \<open>The interface of a self-delimiting code: \<open>size\<close> bytes per valid value, read back exactly.\<close>

locale prefix_codec =
  fixes enc :: "'v \<Rightarrow> bytes \<Rightarrow> 'e + bytes"
    and dec :: "bytes \<Rightarrow> 'e + ('v \<times> bytes)"
    and valid :: "'v \<Rightarrow> bool"
    and size_of :: "'v \<Rightarrow> nat"
  assumes enc_dec: "valid x \<Longrightarrow>
      \<exists>c. length c = size_of x \<and> (\<forall>out. enc x out = Ok (out @ c)) \<and> (\<forall>t. dec (c @ t) = Ok (x, t))"
    and enc_invalid: "\<not> valid x \<Longrightarrow> \<exists>e. enc x out = Err e"
    and dec_valid: "dec inp = Ok (x, t) \<Longrightarrow> valid x"
    and dec_suffix: "dec inp = Ok (x, t) \<Longrightarrow> \<exists>c. c \<noteq> [] \<and> inp = c @ t"
begin

lemma enc_frame:
  assumes "enc x out = Ok out'"
  shows "\<exists>c. length c = size_of x \<and> out' = out @ c \<and> (\<forall>t. dec (c @ t) = Ok (x, t))"
proof -
  have "valid x"
    using assms enc_invalid [of x out] by auto
  with enc_dec [of x] assms show ?thesis by fastforce
qed

lemma enc_total: "valid x \<Longrightarrow> \<exists>out'. enc x out = Ok out' \<and> length out' = length out + size_of x"
  using enc_dec [of x] by force

lemma dec_shorter: "dec inp = Ok (x, t) \<Longrightarrow> length t < length inp"
  by (drule dec_suffix) auto

lemma size_positive:
  assumes "valid x"
  shows "0 < size_of x"
proof -
  obtain c where "length c = size_of x" "dec (c @ []) = Ok (x, [])"
    using enc_dec [OF assms] by blast
  then show ?thesis using dec_suffix [of "c @ []" x "[]"] by (cases c) auto
qed

end

section \<open>Lemmas\<close>

lemma varint_width_cases:
  "varint_width v = Some (width, prefix) \<longleftrightarrow>
     width = 1 \<and> prefix = 0 \<and> unat v < 64 \<or>
     width = 2 \<and> prefix = 0x40 \<and> 64 \<le> unat v \<and> unat v < 2 ^ 14 \<or>
     width = 4 \<and> prefix = 0x80 \<and> 2 ^ 14 \<le> unat v \<and> unat v < 2 ^ 30 \<or>
     width = 8 \<and> prefix = 0xc0 \<and> 2 ^ 30 \<le> unat v \<and> unat v < 2 ^ 62"
  by (auto simp: varint_width_def word_le_nat_alt)

lemma varint_width_None: "varint_width v = None \<longleftrightarrow> 2 ^ 62 \<le> unat v"
  by (auto simp: varint_width_def word_le_nat_alt)

lemma drop_be_bytes: "drop m (be_bytes (m + n) w) = be_bytes n w"
  by (induction n arbitrary: w) (simp_all add: be_bytes.simps)

lemma be_val_ge: "a * 256 ^ length bs \<le> be_val a bs"
proof (induction bs arbitrary: a)
  case Nil
  then show ?case by simp
next
  case (Cons b bs)
  have "a * 256 ^ length (b # bs) \<le> (a * 256 + unat b) * 256 ^ length bs"
    by (simp add: algebra_simps)
  also have "\<dots> \<le> be_val (a * 256 + unat b) bs" by (rule Cons)
  finally show ?case by simp
qed

text \<open>The first byte of a value that leaves the two prefix bits free.\<close>

lemma be_bytes_head:
  assumes "unat w < 64 * 256 ^ n"
  obtains b bs where "be_bytes (Suc n) w = b # bs" "length bs = n" "unat b < 64"
    "be_val (unat b) bs = unat w"
proof -
  obtain b bs where eq: "be_bytes (Suc n) w = b # bs" "length bs = n"
    using length_be_bytes [of "Suc n" w] unfolding length_Suc_conv by blast
  have "unat w < 256 ^ Suc n" using assms by simp
  then have v: "be_val (unat b) bs = unat w"
    using be_val_be_bytes [of "Suc n" w] unfolding eq(1) by simp
  then have "unat b * 256 ^ n < 64 * 256 ^ n"
    using be_val_ge [of "unat b" bs] assms unfolding eq(2) by linarith
  then have "unat b < 64" by (simp only: mult_less_cancel2)
  with eq v that show ?thesis by blast
qed

lemma low_byte_and: "unat b < 64 \<Longrightarrow> b AND 63 = b" for b :: u8
proof -
  assume "unat b < 64"
  then have "take_bit 6 b = b"
    by (simp add: word_unat_eq_iff unsigned_take_bit_eq take_bit_nat_eq_self)
  moreover have "(63::u8) = mask 6" by (simp add: mask_eq_exp_minus_1)
  ultimately show ?thesis by (simp add: take_bit_eq_mask)
qed

lemma prefixed_byte:
  fixes b p :: u8
  assumes "unat b < 64" "p AND 63 = 0"
  shows "(b OR p) AND 63 = b" "drop_bit 6 (b OR p) = drop_bit 6 p"
proof -
  show "(b OR p) AND 63 = b"
    using assms low_byte_and [of b] by (simp add: bit.conj_disj_distrib2)
  have "unat (drop_bit 6 b) = 0"
    using assms(1) by (simp only: unat_drop_bit_eq) (simp add: drop_bit_eq_div)
  then have "drop_bit 6 b = 0" by (simp only: unat_eq_zero)
  then show "drop_bit 6 (b OR p) = drop_bit 6 p" by (simp only: drop_bit_or or.left_neutral)
qed

lemma decode_prefixed:
  assumes "unat b < 64" "p AND 63 = 0" "Suc (length bs) = 2 ^ unat (drop_bit 6 p)"
    and "be_val (unat b) bs = unat w"
  shows "decode_varint (((b OR p) # bs) @ t) = Ok (w, t)"
proof -
  have k: "unat (drop_bit 6 p) < 4"
    using unat_u8_less [of p] by (simp only: unat_drop_bit_eq) (simp add: drop_bit_eq_div)
  then have "Suc (length bs) \<le> 2 ^ 3"
    unfolding assms(3) by (intro power_increasing) auto
  then have "(unat b + 1) * 256 ^ length bs \<le> 64 * 256 ^ 7"
    using assms(1) by (intro mult_le_mono power_increasing) auto
  moreover have "unat (ucast b :: u64) = unat b"
    by (rule unat_ucast_up) simp
  ultimately have "unat (foldl be_push (ucast b :: u64) bs) = be_val (unat b) bs"
    by (subst unat_foldl_be_push) simp_all
  then have "foldl be_push (ucast b :: u64) bs = w"
    using assms(4) by (simp add: word_unat_eq_iff)
  then show ?thesis
    using prefixed_byte [OF assms(1,2)]
    by (simp add: decode_varint_def Let_def flip: assms(3) del: drop_bit_or)
qed

text \<open>One encoded value, by width class.\<close>

lemma encode_varint_code:
  assumes "varint_width v = Some (width, prefix)"
  shows "\<exists>b bs. length (b # bs) = width \<and> unat b < 64 \<and> be_val (unat b) bs = unat v \<and>
    (\<forall>output. encode_varint v output = Ok (output @ (b OR prefix) # bs))"
proof -
  have w: "0 < width" "width \<le> 8" and lt: "unat v < 64 * 256 ^ (width - 1)"
    using assms by (auto simp: varint_width_cases)
  from lt obtain b bs where code: "be_bytes (Suc (width - 1)) v = b # bs"
    "length bs = width - 1" "unat b < 64" "be_val (unat b) bs = unat v"
    by (rule be_bytes_head)
  then have code1: "be_bytes width v = b # bs" using w by simp
  have tail: "drop (8 - width) (be_bytes 8 v) = b # bs"
    using drop_be_bytes [of "8 - width" width v] w code1 by simp
  then have start: "be_bytes 8 v ! (8 - width) = b"
    using w by (metis hd_drop_conv_nth length_be_bytes diff_less list.sel(1) zero_less_numeral)
  have "drop (8 - width) ((be_bytes 8 v)[8 - width := b OR prefix]) = (b OR prefix) # bs"
    by (simp add: drop_update_swap tail)
  then have "encode_varint v out = Ok (out @ (b OR prefix) # bs)" for out
    using assms start by (simp add: encode_varint_def Let_def)
  then show ?thesis using code(2-4) w by auto
qed

lemma varint_prefix:
  assumes "varint_width v = Some (width, prefix)"
  shows "prefix AND 63 = 0" "width = 2 ^ unat (drop_bit 6 prefix)"
  using assms by (auto simp: varint_width_cases)

lemma decode_varint_Ok:
  assumes "decode_varint input = Ok (v, rest)"
  shows "\<exists>c. length c \<in> {1, 2, 4, 8} \<and> input = c @ rest \<and> unat v < 64 * 256 ^ (length c - 1)"
proof -
  from assms obtain first tl where inp: "input = first # tl"
    by (auto simp: decode_varint_def split: list.splits)
  define width where "width = (2::nat) ^ unat (drop_bit 6 first)"
  have k: "unat (drop_bit 6 first) < 4"
    using unat_u8_less [of first] by (simp only: unat_drop_bit_eq) (simp add: drop_bit_eq_div)
  then have w: "width \<in> {1, 2, 4, 8}"
    unfolding width_def by (auto simp: less_Suc_eq numeral_eq_Suc)
  let ?b = "first AND 63" and ?bs = "drop 1 (take width input)"
  have ok: "width \<le> length input" "rest = drop width input"
    "v = foldl be_push (ucast ?b) ?bs"
    using assms by (auto simp: decode_varint_def inp width_def Let_def split: if_splits)
  have len: "length ?bs = width - 1" using ok(1) by simp
  have "unat ?b \<le> 63"
    using word_and_le1 [of first 63] by (simp add: word_le_nat_alt)
  moreover have ub: "unat (ucast ?b :: u64) = unat ?b"
    by (rule unat_ucast_up) simp
  moreover have "(256::nat) ^ (width - 1) \<le> 256 ^ 7"
    using w by (intro power_increasing) auto
  ultimately have "(unat (ucast ?b :: u64) + 1) * 256 ^ length ?bs \<le> 64 * 256 ^ 7"
    unfolding len by (intro mult_le_mono) auto
  then have "unat v = be_val (unat ?b) ?bs"
    unfolding ok(3) ub [symmetric] by (intro unat_foldl_be_push) simp_all
  also have "\<dots> < (unat ?b + 1) * 256 ^ (width - 1)"
    using be_val_bound [of "unat ?b" ?bs] by (simp only: len)
  also have "\<dots> \<le> 64 * 256 ^ (width - 1)"
    using \<open>unat ?b \<le> 63\<close> by (intro mult_le_mono1) simp
  finally have "unat v < 64 * 256 ^ (width - 1)" .
  then show ?thesis
    using w ok(1,2) by (intro exI [of _ "take width input"]) (auto simp: min_def)
qed

text \<open>C39: every value below \<open>2 ^ 62\<close> that \<open>encode_varint\<close> appends to a buffer is read back by
  \<open>decode_varint\<close>, whatever follows it, and exactly the appended bytes are consumed; larger
  values are refused with \<open>TooLarge\<close>.\<close>

theorem varint_roundtrip:
  "(if unat v < 2 ^ 62
    then \<exists>c. encode_varint v output = Ok (output @ c) \<and> decode_varint (c @ rest) = Ok (v, rest)
    else encode_varint v output = Err VarInt_TooLarge)"
proof (cases "varint_width v")
  case None
  then have "2 ^ 62 \<le> unat v" by (simp only: varint_width_None)
  with None show ?thesis by (simp add: encode_varint_def)
next
  case (Some p)
  obtain width prefix where p: "varint_width v = Some (width, prefix)"
    using Some by (cases p) simp
  obtain b bs where code: "length (b # bs) = width" "unat b < 64" "be_val (unat b) bs = unat v"
    "encode_varint v output = Ok (output @ (b OR prefix) # bs)"
    using encode_varint_code [OF p] by blast
  have "decode_varint (((b OR prefix) # bs) @ rest) = Ok (v, rest)"
    using code varint_prefix [OF p] by (intro decode_prefixed) auto
  moreover have "unat v < 2 ^ 62" using p by (auto simp: varint_width_cases)
  ultimately show ?thesis using code(4) by auto
qed

definition varint_valid :: "u64 \<Rightarrow> bool" where
  "varint_valid v = (unat v < 2 ^ 62)"

text \<open>The size the UDP codec budgets for a length field, \<^verbatim>\<open>varint_size\<close> of
  \<^verbatim>\<open>src/src/protocol/udp.rs\<close>.\<close>

definition varint_size :: "u64 \<Rightarrow> nat" where
  "varint_size value =
     (if value \<le> 63 then 1
      else if value \<le> 16383 then 2
      else if value \<le> 1073741823 then 4
      else 8)"

lemma varint_size_width: "varint_width v = Some (width, prefix) \<Longrightarrow> varint_size v = width"
  by (auto simp: varint_width_def varint_size_def split: if_splits)

interpretation varint: prefix_codec encode_varint decode_varint varint_valid varint_size
proof
  fix x :: u64
  assume "varint_valid x"
  then obtain width prefix where p: "varint_width x = Some (width, prefix)"
    using varint_width_None [of x] by (cases "varint_width x") (auto simp: varint_valid_def)
  obtain b bs where code: "length (b # bs) = width" "unat b < 64" "be_val (unat b) bs = unat x"
    "\<forall>output. encode_varint x output = Ok (output @ (b OR prefix) # bs)"
    using encode_varint_code [OF p] by blast
  have "decode_varint (((b OR prefix) # bs) @ t) = Ok (x, t)" for t
    using code varint_prefix [OF p] by (intro decode_prefixed) auto
  then show "\<exists>c. length c = varint_size x \<and> (\<forall>out. encode_varint x out = Ok (out @ c)) \<and>
      (\<forall>t. decode_varint (c @ t) = Ok (x, t))"
    using code varint_size_width [OF p] by (intro exI [of _ "(b OR prefix) # bs"]) auto
next
  fix x :: u64 and out :: bytes
  assume "\<not> varint_valid x"
  then show "\<exists>e. encode_varint x out = Err e"
    using varint_width_None [of x] by (simp add: varint_valid_def encode_varint_def)
next
  fix inp t :: bytes and x :: u64
  assume "decode_varint inp = Ok (x, t)"
  then obtain c where c: "length c \<in> {1, 2, 4, 8}" "inp = c @ t" "unat x < 64 * 256 ^ (length c - 1)"
    using decode_varint_Ok by blast
  then show "varint_valid x" by (auto simp: varint_valid_def)
  show "\<exists>c. c \<noteq> [] \<and> inp = c @ t" using c by auto
qed

end
