(* ===== verification/Tcp_Codec.thy ===== *)
theory Tcp_Codec
  imports Varint Rust_Str
begin

text \<open>
  The HY2 TCP frames of \<^verbatim>\<open>src/src/protocol/tcp.rs\<close> with the limits of
  \<^verbatim>\<open>src/src/protocol/mod.rs\<close>: requests (frame type, address, padding, early payload) and responses
  (status, message, padding, payload), both built from length-prefixed fields.
\<close>

abbreviation MAX_ADDRESS_LENGTH :: nat where "MAX_ADDRESS_LENGTH \<equiv> 2048"
abbreviation MAX_MESSAGE_LENGTH :: nat where "MAX_MESSAGE_LENGTH \<equiv> 2048"
abbreviation MAX_PADDING_LENGTH :: nat where "MAX_PADDING_LENGTH \<equiv> 4096"
abbreviation MAX_UDP_SIZE :: nat where "MAX_UDP_SIZE \<equiv> 4096"
abbreviation FRAME_TYPE_TCP_REQUEST :: u64 where "FRAME_TYPE_TCP_REQUEST \<equiv> 0x401"

datatype TcpCodecError =
    InvalidFrameType u64
  | InvalidLength string nat
  | Tcp_Truncated
  | Tcp_VarInt VarIntError

text \<open>The messages of the errors.\<close>

fun show_VarIntError :: "VarIntError \<Rightarrow> string" where
  "show_VarIntError VarInt_Truncated = ''unexpected end of QUIC varint''"
| "show_VarIntError VarInt_TooLarge = ''QUIC varint exceeds 62 bits''"

fun show_TcpCodecError :: "TcpCodecError \<Rightarrow> string" where
  "show_TcpCodecError (InvalidFrameType frame_type) = ''invalid HY2 frame type: 0x'' @ lower_hex (unat frame_type)"
| "show_TcpCodecError (InvalidLength field len) = ''invalid '' @ field @ '' length: '' @ show_nat len"
| "show_TcpCodecError Tcp_Truncated = ''truncated HY2 TCP frame''"
| "show_TcpCodecError (Tcp_VarInt e) = show_VarIntError e"

record TcpRequest =
  req_destination :: string
  req_payload :: bytes

datatype TcpResponseStatus = Status_Ok | Status_Error

record TcpResponse =
  resp_status :: TcpResponseStatus
  resp_message :: string
  resp_payload :: bytes

definition status_byte :: "TcpResponseStatus \<Rightarrow> u8" where
  "status_byte s = (case s of Status_Ok \<Rightarrow> 0 | Status_Error \<Rightarrow> 1)"

definition validate_len :: "nat \<Rightarrow> nat \<Rightarrow> string \<Rightarrow> TcpCodecError + unit" where
  "validate_len len maximum field =
     (if len > maximum then Err (InvalidLength field len) else Ok ())"

definition write_bytes :: "bytes \<Rightarrow> bytes \<Rightarrow> TcpCodecError + bytes" where
  "write_bytes bs out =
     and_then (map_err Tcp_VarInt (encode_varint (word_of_nat (length bs)) out)) (\<lambda>out.
     Ok (out @ bs))"

definition read_limited :: "bytes \<Rightarrow> nat \<Rightarrow> string \<Rightarrow> TcpCodecError + (bytes \<times> bytes)" where
  "read_limited input maximum field =
     and_then (map_err Tcp_VarInt (decode_varint input)) (\<lambda>(v, input).
     let len = unat v in
     and_then (validate_len len maximum field) (\<lambda>_.
     if length input < len then Err Tcp_Truncated
     else Ok (take len input, drop len input)))"

text \<open>\<^verbatim>\<open>TcpRequest::decode\<close>; the second component is the slice it leaves behind.\<close>

definition TcpRequest_decode :: "bytes \<Rightarrow> TcpCodecError + (TcpRequest \<times> bytes)" where
  "TcpRequest_decode input =
     and_then (map_err Tcp_VarInt (decode_varint input)) (\<lambda>(frame_type, input).
     if frame_type \<noteq> FRAME_TYPE_TCP_REQUEST then Err (InvalidFrameType frame_type)
     else
       and_then (read_limited input MAX_ADDRESS_LENGTH ''address'') (\<lambda>(address, input).
       if address = [] then Err (InvalidLength ''address'' 0)
       else
         and_then (read_limited input MAX_PADDING_LENGTH ''padding'') (\<lambda>(padding, input).
         Ok (\<lparr>req_destination = from_utf8_lossy address, req_payload = input\<rparr>, input))))"

definition TcpRequest_encode :: "string \<Rightarrow> bytes \<Rightarrow> bytes \<Rightarrow> TcpCodecError + bytes" where
  "TcpRequest_encode dest padding payload =
     and_then (validate_len (length dest) MAX_ADDRESS_LENGTH ''address'') (\<lambda>_.
     if dest = [] then Err (InvalidLength ''address'' 0)
     else
       and_then (validate_len (length padding) MAX_PADDING_LENGTH ''padding'') (\<lambda>_.
       and_then (map_err Tcp_VarInt (encode_varint FRAME_TYPE_TCP_REQUEST [])) (\<lambda>out.
       and_then (write_bytes (as_bytes dest) out) (\<lambda>out.
       and_then (write_bytes padding out) (\<lambda>out.
       Ok (out @ payload))))))"

definition TcpResponse_encode :: "TcpResponse \<Rightarrow> bytes \<Rightarrow> TcpCodecError + bytes" where
  "TcpResponse_encode r padding =
     and_then (validate_len (length (resp_message r)) MAX_MESSAGE_LENGTH ''message'') (\<lambda>_.
     and_then (validate_len (length padding) MAX_PADDING_LENGTH ''padding'') (\<lambda>_.
     let out = [status_byte (resp_status r)] in
     and_then (write_bytes (as_bytes (resp_message r)) out) (\<lambda>out.
     and_then (write_bytes padding out) (\<lambda>out.
     Ok (out @ resp_payload r)))))"

section \<open>Lemmas\<close>

lemma validate_len_simps [simp]:
  "n \<le> m \<Longrightarrow> validate_len n m f = Ok ()"
  "m < n \<Longrightarrow> validate_len n m f = Err (InvalidLength f n)"
  by (simp_all add: validate_len_def)

lemma validate_len_eq_Ok [result_simps]: "validate_len n m f = Ok u \<longleftrightarrow> n \<le> m"
  by (auto simp: validate_len_def)

lemma unat_word_of_length: "n < 2 ^ 62 \<Longrightarrow> unat (word_of_nat n :: u64) = n"
  by (simp add: unat_of_nat)

text \<open>A written field is appended, and read back by every reader whose limit admits it.\<close>

lemma write_bytes_field:
  assumes "length bs < 2 ^ 62"
  shows "\<exists>c. (\<forall>out. write_bytes bs out = Ok (out @ c)) \<and>
    length c = varint_size (word_of_nat (length bs)) + length bs \<and>
    (\<forall>t m f. length bs \<le> m \<longrightarrow> read_limited (c @ t) m f = Ok (bs, t))"
proof -
  have "varint_valid (word_of_nat (length bs))"
    using assms by (simp add: varint_valid_def unat_word_of_length)
  then obtain c where c: "length c = varint_size (word_of_nat (length bs))"
    "\<And>out. encode_varint (word_of_nat (length bs)) out = Ok (out @ c)"
    "\<And>t. decode_varint (c @ t) = Ok (word_of_nat (length bs), t)"
    using varint.enc_dec by blast
  have "read_limited ((c @ bs) @ t) m f = Ok (bs, t)" if "length bs \<le> m" for t m f
    using that assms by (simp add: read_limited_def c(3) unat_word_of_length Let_def)
  moreover have "write_bytes bs out = Ok (out @ c @ bs)" for out
    by (simp add: write_bytes_def c(2))
  ultimately show ?thesis using c(1) by (intro exI [of _ "c @ bs"]) auto
qed

lemma read_limited_Ok:
  assumes "read_limited input m f = Ok (bs, rest)"
  shows "length bs \<le> m \<and> (\<exists>l. length l \<in> {1, 2, 4, 8} \<and> input = l @ bs @ rest)"
proof -
  from assms obtain v t where d: "decode_varint input = Ok (v, t)"
    and k: "unat v \<le> m" "unat v \<le> length t" "bs = take (unat v) t" "rest = drop (unat v) t"
    by (auto simp: read_limited_def result_simps Let_def split: if_splits)
  from decode_varint_Ok [OF d] obtain l where "length l \<in> {1, 2, 4, 8}" "input = l @ t"
    by blast
  with k show ?thesis by auto
qed

lemma frame_type_code:
  "\<exists>c. encode_varint FRAME_TYPE_TCP_REQUEST [] = Ok c \<and>
     (\<forall>t. decode_varint (c @ t) = Ok (FRAME_TYPE_TCP_REQUEST, t))"
proof -
  have "varint_valid FRAME_TYPE_TCP_REQUEST" by (simp add: varint_valid_def)
  then show ?thesis using varint.enc_dec [of FRAME_TYPE_TCP_REQUEST] by force
qed

section \<open>Properties\<close>

text \<open>The frame that \<open>TcpRequest::encode\<close> produces for an address of 1 to 2048 bytes and at
  most 4096 bytes of padding decodes to that address and to the early payload, unchanged; every
  other address or padding length is refused with \<open>InvalidLength\<close>.\<close>

theorem tcp_request_roundtrip:
  assumes "valid_str dest"
  shows "if dest \<noteq> [] \<and> length dest \<le> MAX_ADDRESS_LENGTH \<and> length padding \<le> MAX_PADDING_LENGTH
    then \<exists>out. TcpRequest_encode dest padding payload = Ok out \<and>
           TcpRequest_decode out =
             Ok (\<lparr>req_destination = dest, req_payload = payload\<rparr>, payload)
    else \<exists>f n. TcpRequest_encode dest padding payload = Err (InvalidLength f n)"
proof (cases "dest \<noteq> [] \<and> length dest \<le> MAX_ADDRESS_LENGTH \<and> length padding \<le> MAX_PADDING_LENGTH")
  case True
  obtain ft where ft: "encode_varint FRAME_TYPE_TCP_REQUEST [] = Ok ft"
    "\<And>t. decode_varint (ft @ t) = Ok (FRAME_TYPE_TCP_REQUEST, t)"
    using frame_type_code by blast
  obtain a where a: "\<And>out. write_bytes (as_bytes dest) out = Ok (out @ a)"
    "\<And>t f. read_limited (a @ t) MAX_ADDRESS_LENGTH f = Ok (as_bytes dest, t)"
    using write_bytes_field [of "as_bytes dest"] True by fastforce
  obtain p where p: "\<And>out. write_bytes padding out = Ok (out @ p)"
    "\<And>t f. read_limited (p @ t) MAX_PADDING_LENGTH f = Ok (padding, t)"
    using write_bytes_field [of padding] True by fastforce
  have "TcpRequest_encode dest padding payload = Ok (ft @ a @ p @ payload)"
    using True by (simp add: TcpRequest_encode_def ft a p)
  moreover have "TcpRequest_decode (ft @ a @ p @ payload) =
      Ok (\<lparr>req_destination = dest, req_payload = payload\<rparr>, payload)"
    using True assms by (simp add: TcpRequest_decode_def ft(2) a(2) p(2))
  ultimately show ?thesis using True by auto
next
  case False
  then show ?thesis
    by (cases "length dest \<le> MAX_ADDRESS_LENGTH"; cases "dest = []"; cases "length padding \<le> MAX_PADDING_LENGTH")
      (auto simp: TcpRequest_encode_def)
qed

theorem tcp_request_roundtrip_witness:
  "valid_str ''example.com:443'' \<and>
   (\<exists>out. TcpRequest_encode ''example.com:443'' [1, 2] [104, 105] = Ok out \<and>
      TcpRequest_decode out =
        Ok (\<lparr>req_destination = ''example.com:443'', req_payload = [104, 105]\<rparr>, [104, 105]))"
proof -
  have v: "valid_str ''example.com:443''" by code_simp
  show ?thesis
    using v tcp_request_roundtrip [OF v, of "[1, 2]" "[104, 105]"] by simp
qed

text \<open>A request is accepted only if the input is a well-formed frame: the type field, an
  address field of 1 to 2048 bytes, a padding field of at most 4096 bytes, each behind a varint
  length, and everything after them is the early payload.\<close>

theorem tcp_request_decode_sound:
  assumes "TcpRequest_decode input = Ok (r, rest)"
  shows "\<exists>ft la address lp padding. input = ft @ la @ address @ lp @ padding @ rest \<and>
    decode_varint input = Ok (FRAME_TYPE_TCP_REQUEST, la @ address @ lp @ padding @ rest) \<and>
    {length ft, length la, length lp} \<subseteq> {1, 2, 4, 8} \<and>
    1 \<le> length address \<and> length address \<le> MAX_ADDRESS_LENGTH \<and>
    length padding \<le> MAX_PADDING_LENGTH \<and>
    req_destination r = from_utf8_lossy address \<and> req_payload r = rest"
proof -
  from assms obtain t1 address t2 padding where
    s: "decode_varint input = Ok (FRAME_TYPE_TCP_REQUEST, t1)"
      "read_limited t1 MAX_ADDRESS_LENGTH ''address'' = Ok (address, t2)" "address \<noteq> []"
      "read_limited t2 MAX_PADDING_LENGTH ''padding'' = Ok (padding, rest)"
      "r = \<lparr>req_destination = from_utf8_lossy address, req_payload = rest\<rparr>"
    by (auto simp: TcpRequest_decode_def result_simps split: if_splits)
  obtain ft where "length ft \<in> {1, 2, 4, 8}" "input = ft @ t1"
    using decode_varint_Ok [OF s(1)] by blast
  moreover obtain la where "length la \<in> {1, 2, 4, 8}" "t1 = la @ address @ t2"
    "length address \<le> MAX_ADDRESS_LENGTH"
    using read_limited_Ok [OF s(2)] by blast
  moreover obtain lp where "length lp \<in> {1, 2, 4, 8}" "t2 = lp @ padding @ rest"
    "length padding \<le> MAX_PADDING_LENGTH"
    using read_limited_Ok [OF s(4)] by blast
  moreover have "1 \<le> length address" using s(3) by (cases address) auto
  ultimately show ?thesis using s(1,5)
    by (intro exI [of _ ft] exI [of _ la] exI [of _ address] exI [of _ lp] exI [of _ padding])
      simp
qed

theorem tcp_request_decode_sound_witness:
  "TcpRequest_decode [0x44, 0x01, 1, 97, 0, 9] =
     Ok (\<lparr>req_destination = ''a'', req_payload = [9]\<rparr>, [9]) \<and>
   (\<exists>ft la address lp padding. [0x44, 0x01, 1, 97, 0, 9] = ft @ la @ address @ lp @ padding @ [9] \<and>
    1 \<le> length (address :: bytes) \<and> from_utf8_lossy address = ''a'')"
proof -
  have d: "TcpRequest_decode [0x44, 0x01, 1, 97, 0, 9] =
      Ok (\<lparr>req_destination = ''a'', req_payload = [9]\<rparr>, [9])"
    by code_simp
  show ?thesis using d tcp_request_decode_sound [OF d] by fastforce
qed

text \<open>\<open>TcpResponse::encode\<close> starts with the status byte and a peer reads the message, the padding
  and the payload back; an oversized message or padding is refused.\<close>

theorem tcp_response_layout:
  "if length (resp_message r) \<le> MAX_MESSAGE_LENGTH \<and> length padding \<le> MAX_PADDING_LENGTH
   then \<exists>fields. TcpResponse_encode r padding = Ok (status_byte (resp_status r) # fields) \<and>
     and_then (read_limited fields MAX_MESSAGE_LENGTH ''message'') (\<lambda>(m, t).
     and_then (read_limited t MAX_PADDING_LENGTH ''padding'') (\<lambda>(p, t). Ok (m, p, t))) =
     Ok (as_bytes (resp_message r), padding, resp_payload r)
   else \<exists>f n. TcpResponse_encode r padding = Err (InvalidLength f n)"
proof (cases "length (resp_message r) \<le> MAX_MESSAGE_LENGTH \<and> length padding \<le> MAX_PADDING_LENGTH")
  case True
  obtain m where m: "\<And>out. write_bytes (as_bytes (resp_message r)) out = Ok (out @ m)"
    "\<And>t f. read_limited (m @ t) MAX_MESSAGE_LENGTH f = Ok (as_bytes (resp_message r), t)"
    using write_bytes_field [of "as_bytes (resp_message r)"] True by fastforce
  obtain p where p: "\<And>out. write_bytes padding out = Ok (out @ p)"
    "\<And>t f. read_limited (p @ t) MAX_PADDING_LENGTH f = Ok (padding, t)"
    using write_bytes_field [of padding] True by fastforce
  have "TcpResponse_encode r padding =
      Ok (status_byte (resp_status r) # m @ p @ resp_payload r)"
    using True by (simp add: TcpResponse_encode_def m p)
  then show ?thesis using True m(2) p(2) by simp
next
  case False
  then show ?thesis
    by (cases "length (resp_message r) \<le> MAX_MESSAGE_LENGTH") (auto simp: TcpResponse_encode_def)
qed

end
