(* ===== verification/Hy2_Auth.thy ===== *)
theory Hy2_Auth
  imports Config Brutal Tcp_Codec "HOL-Library.Sublist"
begin

text \<open>
  HY2 authentication: the header codec of \<^verbatim>\<open>src/src/protocol/auth.rs\<close>, and of \<^verbatim>\<open>src/src/server.rs\<close> the
  table of users, the padding and the HTTP/3 exchange of \<^verbatim>\<open>authenticate_connection\<close>. A request is what
  the HTTP/3 library delivers; the masquerade handler and the random source are arguments; what is
  sent to the client is part of the result.
\<close>

section \<open>Header codec\<close>

abbreviation STATUS_AUTH_OK :: nat where "STATUS_AUTH_OK \<equiv> 233"
abbreviation REQUEST_HEADER_AUTH :: string where "REQUEST_HEADER_AUTH \<equiv> ''Hysteria-Auth''"
abbreviation RESPONSE_HEADER_UDP_ENABLED :: string where "RESPONSE_HEADER_UDP_ENABLED \<equiv> ''Hysteria-UDP''"
abbreviation HEADER_CC_RX :: string where "HEADER_CC_RX \<equiv> ''Hysteria-CC-RX''"

record AuthRequest =
  auth_password :: string
  auth_receive_bps :: u64

record AuthResponse =
  resp_udp_enabled :: bool
  resp_receive_bps :: "u64 option"

definition parse_u64_or_default :: "string option \<Rightarrow> u64" where
  "parse_u64_or_default v =
     (case v of None \<Rightarrow> 0 | Some s \<Rightarrow> (case parse_uint 64 s of None \<Rightarrow> 0 | Some n \<Rightarrow> word_of_nat n))"

definition AuthRequest_from_headers :: "(string \<rightharpoonup> string) \<Rightarrow> AuthRequest" where
  "AuthRequest_from_headers hs =
     \<lparr>auth_password = unwrap_or_default (hs REQUEST_HEADER_AUTH),
      auth_receive_bps = parse_u64_or_default (hs HEADER_CC_RX)\<rparr>"

definition show_bool :: "bool \<Rightarrow> string" where
  "show_bool b = (if b then ''true'' else ''false'')"

definition AuthResponse_headers :: "AuthResponse \<Rightarrow> string \<rightharpoonup> string" where
  "AuthResponse_headers r =
     [RESPONSE_HEADER_UDP_ENABLED \<mapsto> show_bool (resp_udp_enabled r),
      HEADER_CC_RX \<mapsto> (case resp_receive_bps r of None \<Rightarrow> ''auto'' | Some v \<Rightarrow> show_nat (unat v))]"

section \<open>Padding\<close>

definition PADDING_ALPHABET :: string where
  "PADDING_ALPHABET = ''abcdefghijklmnopqrstuvwxyzABCDEFGHIJKLMNOPQRSTUVWXYZ0123456789''"

text \<open>The two draws: two bytes for the length, then that many bytes.\<close>

record rng =
  rng_selector :: "(u8 \<times> u8) option"
  rng_fill :: "nat \<Rightarrow> bytes option"

definition random_padding :: "rng \<Rightarrow> nat \<Rightarrow> nat \<Rightarrow> bytes result" where
  "random_padding r minimum maximum =
     and_then (ok_or (rng_selector r) ''generate HY2 padding length'') (\<lambda>(lo, hi).
     let range = maximum - minimum;
         len = minimum + (unat lo + 256 * unat hi) mod range
     in and_then (ok_or (rng_fill r len) ''generate HY2 padding'') (\<lambda>padding.
        Ok (map (\<lambda>b. byte_of_char (PADDING_ALPHABET ! (unat b mod length PADDING_ALPHABET))) padding)))"

section \<open>The exchange\<close>

record http_request =
  hr_method :: string
  hr_host :: "string option"
  hr_path :: string
  hr_header :: "string \<rightharpoonup> string"
  hr_body :: "(string + bytes) list"

record http_response =
  hs_status :: nat
  hs_headers :: "(string \<times> string) list"
  hs_body :: bytes

text \<open>\<open>send_rate\<close> is the congestion controller's cell, if there is one.\<close>

record AuthenticationOptions =
  ao_users :: "string \<rightharpoonup> string"
  ao_udp_enabled :: bool
  ao_receive_bps :: u64
  ao_receive_auto :: bool
  ao_ignore_client_bandwidth :: bool
  ao_congestion :: Hy2CongestionConfig
  ao_send_rate :: "nat option"

abbreviation MAX_MASQUERADE_BODY_SIZE :: nat where "MAX_MASQUERADE_BODY_SIZE \<equiv> 8 * 1024 * 1024"

text \<open>\<^verbatim>\<open>run_until_with_traffic\<close>: the users by password (a later duplicate replaces an earlier one) and the
  options of each connection.\<close>

definition hy2_users :: "User list \<Rightarrow> string \<rightharpoonup> string" where
  "hy2_users us = map_of (rev (map (\<lambda>u. (user_password u, user_name u)) us))"

definition authentication_options :: "Config \<Rightarrow> Hy2CongestionConfig \<Rightarrow> nat \<Rightarrow> AuthenticationOptions" where
  "authentication_options c congestion send_rate =
     \<lparr>ao_users = hy2_users (users c), ao_udp_enabled = udp_enabled (udp c),
      ao_receive_bps = saturating_mul (down_mbps (bandwidth c)) 125000,
      ao_receive_auto = (ignore_client_bandwidth (bandwidth c) \<and> down_mbps (bandwidth c) = 0),
      ao_ignore_client_bandwidth = ignore_client_bandwidth (bandwidth c),
      ao_congestion = congestion, ao_send_rate = Some send_rate\<rparr>"

definition request_user :: "AuthenticationOptions \<Rightarrow> http_request \<Rightarrow> string option" where
  "request_user opts r = ao_users opts (unwrap_or_default (hr_header r REQUEST_HEADER_AUTH))"

definition authorized :: "AuthenticationOptions \<Rightarrow> http_request \<Rightarrow> bool" where
  "authorized opts r =
     (hr_method r = ''POST'' \<and> hr_host r = Some ''hysteria'' \<and> hr_path r = ''/auth'' \<and>
      request_user opts r \<noteq> None \<and>
      \<not> (ao_ignore_client_bandwidth opts \<and> ao_receive_bps opts > 0 \<and>
         parse_u64_or_default (hr_header r HEADER_CC_RX) = 0))"

fun read_body :: "(string + bytes) list \<Rightarrow> bytes \<Rightarrow> bytes result" where
  "read_body [] body = Ok body"
| "read_body (Inl e # cs) body = Err ''read masquerade request body''"
| "read_body (Inr chunk # cs) body =
     (if length body + length chunk > MAX_MASQUERADE_BODY_SIZE
      then Err ''masquerade request body exceeds 8388608 bytes''
      else read_body cs (body @ chunk))"

type_synonym masquerade_handler = "http_request \<Rightarrow> bytes \<Rightarrow> http_response result"

definition masquerade_reply :: "masquerade_handler \<Rightarrow> http_request \<Rightarrow> http_response result" where
  "masquerade_reply masq r =
     and_then (read_body (hr_body r) []) (\<lambda>body.
     Ok (case masq r body of
           Ok resp \<Rightarrow> resp
         | Err _ \<Rightarrow> \<lparr>hs_status = 502, hs_headers = [], hs_body = []\<rparr>))"

definition auth_reply :: "AuthenticationOptions \<Rightarrow> rng \<Rightarrow> http_response result" where
  "auth_reply opts r =
     and_then (random_padding r 256 2048) (\<lambda>padding.
     Ok \<lparr>hs_status = STATUS_AUTH_OK,
         hs_headers = [(''hysteria-udp'', show_bool (ao_udp_enabled opts)),
           (''hysteria-cc-rx'', if ao_receive_auto opts then ''auto'' else show_nat (unat (ao_receive_bps opts))),
           (''hysteria-padding'', str_of_bytes padding)],
         hs_body = []\<rparr>)"

text \<open>Sending a reply takes up to three calls on the request's stream: the head, the body (\<open>data\<close> says whether it is
  sent) and the end of the stream. The result and what went out; a reply whose body failed went out without it.\<close>

record reply_io =
  io_head :: "unit result"
  io_data :: "unit result"
  io_end :: "unit result"

definition send_reply :: "reply_io \<Rightarrow> bool \<Rightarrow> string \<times> string \<times> string \<Rightarrow> http_response \<Rightarrow> unit result \<times> http_response list" where
  "send_reply io data contexts resp =
     (case contexts of (head_failed, data_failed, end_failed) \<Rightarrow>
      case io_head io of
        Err _ \<Rightarrow> (Err head_failed, [])
      | Ok _ \<Rightarrow>
          (case (if data then io_data io else Ok ()) of
             Err _ \<Rightarrow> (Err data_failed, [resp\<lparr>hs_body := []\<rparr>])
           | Ok _ \<Rightarrow> (map_err (\<lambda>_. end_failed) (io_end io), [resp])))"

text \<open>What the HTTP/3 connection yields: accepting fails, reading a request's head fails, or a request with the
  outcomes of the calls that reply to it.\<close>

datatype h3_event = Accept_Failed | Resolve_Failed | Request http_request reply_io

text \<open>The loop over the requests of a connection: the user, the responses sent and the rate stored in
  the cell. The end of the list is a client that closes the connection.\<close>

fun authenticate_loop ::
  "masquerade_handler \<Rightarrow> rng \<Rightarrow> AuthenticationOptions \<Rightarrow> h3_event list \<Rightarrow>
   string result \<times> http_response list \<times> u64 option" where
  "authenticate_loop masq rand opts [] = (Err ''HY2 client closed before authentication'', [], None)"
| "authenticate_loop masq rand opts (Accept_Failed # es) = (Err ''accept HTTP/3 request'', [], None)"
| "authenticate_loop masq rand opts (Resolve_Failed # es) = (Err ''read HTTP/3 request'', [], None)"
| "authenticate_loop masq rand opts (Request r io # es) =
     (if \<not> authorized opts r then
        (case masquerade_reply masq r of
           Err e \<Rightarrow> (Err e, [], None)
         | Ok resp \<Rightarrow>
             (case send_reply io (hs_body resp \<noteq> [])
                     (''send masquerade response'', ''send masquerade response body'', ''finish masquerade response'') resp of
                (Err e, out) \<Rightarrow> (Err e, out, None)
              | (Ok _, out) \<Rightarrow>
                  (let (result, sent, rate) = authenticate_loop masq rand opts es
                   in (result, out @ sent, rate))))
      else
        let bps = negotiated_rate (ao_congestion opts) (parse_u64_or_default (hr_header r HEADER_CC_RX));
            rate = (if ao_send_rate opts = None then None else Some bps)
        in (case auth_reply opts rand of
              Err e \<Rightarrow> (Err e, [], rate)
            | Ok resp \<Rightarrow>
                (case send_reply io True (''send HY2 authentication response'', ''write HY2 authentication body'',
                        ''finish HY2 authentication response'') resp of
                   (Err e, out) \<Rightarrow> (Err e, out, rate)
                 | (Ok _, out) \<Rightarrow> (Ok (the (request_user opts r)), out, rate))))"

definition authenticate_connection ::
  "masquerade_handler \<Rightarrow> rng \<Rightarrow> AuthenticationOptions \<Rightarrow> unit result \<Rightarrow> h3_event list \<Rightarrow>
   string result \<times> http_response list \<times> u64 option" where
  "authenticate_connection masq rand opts h3 es =
     (case h3 of
        Err _ \<Rightarrow> (Err ''initialize HTTP/3 connection'', [], None)
      | Ok _ \<Rightarrow> authenticate_loop masq rand opts es)"

section \<open>Lemmas\<close>

lemma random_padding_ok:
  assumes "random_padding r minimum maximum = Ok p" "minimum < maximum"
    and "\<And>n bs. rng_fill r n = Some bs \<Longrightarrow> length bs = n"
  shows "minimum \<le> length p \<and> length p < maximum \<and>
    list_all is_ascii_alphanumeric (str_of_bytes p)"
proof -
  obtain lo hi bs where d: "rng_selector r = Some (lo, hi)"
    "rng_fill r (minimum + (unat lo + 256 * unat hi) mod (maximum - minimum)) = Some bs"
    "p = map (\<lambda>b. byte_of_char (PADDING_ALPHABET ! (unat b mod length PADDING_ALPHABET))) bs"
    using assms(1) by (auto simp: random_padding_def result_simps Let_def)
  have "list_all is_ascii_alphanumeric PADDING_ALPHABET" by code_simp
  moreover have "0 < length PADDING_ALPHABET" by (simp add: PADDING_ALPHABET_def)
  ultimately have "is_ascii_alphanumeric (PADDING_ALPHABET ! (n mod length PADDING_ALPHABET))" for n
    by (simp add: list_all_length)
  then have "list_all is_ascii_alphanumeric (str_of_bytes p)"
    by (simp add: d(3) str_of_bytes_def list_all_length)
  moreover have "(unat lo + 256 * unat hi) mod (maximum - minimum) < maximum - minimum"
    using assms(2) by simp
  moreover have "length p = minimum + (unat lo + 256 * unat hi) mod (maximum - minimum)"
    using assms(3) [OF d(2)] d(3) by simp
  ultimately show ?thesis by linarith
qed

lemma hy2_users_Some:
  "hy2_users us pw = Some name \<Longrightarrow> \<exists>u \<in> set us. user_password u = pw \<and> user_name u = name"
  by (auto simp: hy2_users_def dest!: map_of_SomeD)

text \<open>Validation does not ask for different passwords; of two users with the same one, the later is the only one who
  gets in.\<close>

lemma duplicate_password_later_user: "hy2_users (us @ [u]) (user_password u) = Some (user_name u)"
  by (simp add: hy2_users_def)

lemma send_reply_Ok: "send_reply io data ctx resp = (Ok u, out) \<Longrightarrow> out = [resp]"
  by (auto simp: send_reply_def split: sum.splits prod.splits)

lemma send_reply_sent: "send_reply io data ctx resp = (r, out) \<Longrightarrow> out \<noteq> [] \<Longrightarrow> out = [resp] \<or> out = [resp\<lparr>hs_body := []\<rparr>]"
  by (auto simp: send_reply_def split: sum.splits prod.splits)

lemma authenticate_Ok:
  assumes "authenticate_connection masq rand opts h3 es = (Ok name, sent, rate)"
  shows "\<exists>probes r io post replies final. es = map (\<lambda>(q, io). Request q io) probes @ Request r io # post \<and>
    (\<forall>q \<in> fst ` set probes. \<not> authorized opts q) \<and>
    authorized opts r \<and> request_user opts r = Some name \<and> sent = replies @ [final] \<and>
    map Ok replies = map (masquerade_reply masq \<circ> fst) probes \<and> auth_reply opts rand = Ok final \<and>
    rate = (if ao_send_rate opts = None then None
            else Some (negotiated_rate (ao_congestion opts) (parse_u64_or_default (hr_header r HEADER_CC_RX))))"
proof -
  have "authenticate_loop masq rand opts es = (Ok name, sent, rate)"
    using assms by (auto simp: authenticate_connection_def split: sum.splits)
  then show ?thesis
  proof (induction masq rand opts es arbitrary: sent rule: authenticate_loop.induct)
    case (4 masq rand opts r io es)
    show ?case
    proof (cases "authorized opts r")
      case True
      then obtain n where "request_user opts r = Some n" by (auto simp: authorized_def)
      with True 4 show ?thesis
        by (intro exI [of _ "[]"] exI [of _ r] exI [of _ io] exI [of _ es])
          (auto simp: Let_def dest: send_reply_Ok split: sum.splits prod.splits)
    next
      case False
      with 4 obtain resp sent' u where s: "masquerade_reply masq r = Ok resp" "sent = resp # sent'"
        "authenticate_loop masq rand opts es = (Ok name, sent', rate)"
        "send_reply io (hs_body resp \<noteq> [])
          (''send masquerade response'', ''send masquerade response body'', ''finish masquerade response'') resp = (Ok u, [resp])"
        by (auto split: sum.splits prod.splits dest: send_reply_Ok)
      from 4(1) [OF _ s(1) s(4) [symmetric] _ s(3)] False obtain probes q qio post replies final where
        "es = map (\<lambda>(q, io). Request q io) probes @ Request q qio # post" "\<forall>q \<in> fst ` set probes. \<not> authorized opts q"
        "authorized opts q" "request_user opts q = Some name" "sent' = replies @ [final]"
        "map Ok replies = map (masquerade_reply masq \<circ> fst) probes" "auth_reply opts rand = Ok final"
        "rate = (if ao_send_rate opts = None then None
              else Some (negotiated_rate (ao_congestion opts) (parse_u64_or_default (hr_header q HEADER_CC_RX))))"
        by auto
      with False s show ?thesis
        by (intro exI [of _ "(r, io) # probes"] exI [of _ q] exI [of _ qio] exI [of _ post] exI [of _ "resp # replies"]
            exI [of _ final]) auto
    qed
  qed auto
qed

lemma probe_loop:
  assumes "\<forall>r io. Request r io \<in> set es \<longrightarrow> \<not> authorized opts r \<and> \<not> authorized opts' r"
  shows "authenticate_loop masq rand opts es = authenticate_loop masq rand' opts' es \<and>
    (\<exists>e sent. authenticate_loop masq rand opts es = (Err e, sent, None) \<and> length sent \<le> length es \<and>
       list_all2 (\<lambda>resp event. \<exists>r io full. event = Request r io \<and> masquerade_reply masq r = Ok full \<and>
           (resp = full \<or> resp = full\<lparr>hs_body := []\<rparr>)) sent (take (length sent) es))"
  using assms
proof (induction masq rand opts es rule: authenticate_loop.induct)
  case (4 masq rand opts r io es)
  then have na: "\<not> authorized opts r" "\<not> authorized opts' r" by auto
  show ?case
  proof (cases "masquerade_reply masq r")
    case (Inr resp)
    obtain res out where s: "send_reply io (hs_body resp \<noteq> [])
      (''send masquerade response'', ''send masquerade response body'', ''finish masquerade response'') resp = (res, out)"
      by fastforce
    show ?thesis
    proof (cases res)
      case (Inl e)
      with Inr na s send_reply_sent [OF s] show ?thesis by (cases "out = []") auto
    next
      case (Inr u)
      have "\<forall>r io. Request r io \<in> set es \<longrightarrow> \<not> authorized opts r \<and> \<not> authorized opts' r" using 4(2) by auto
      note IH = 4(1) [OF na(1) \<open>masquerade_reply masq r = Ok resp\<close> s [symmetric] Inr this]
      then obtain e sent where "authenticate_loop masq rand opts es = (Err e, sent, None)" "length sent \<le> length es"
        "list_all2 (\<lambda>resp event. \<exists>r io full. event = Request r io \<and> masquerade_reply masq r = Ok full \<and>
           (resp = full \<or> resp = full\<lparr>hs_body := []\<rparr>)) sent (take (length sent) es)" by blast
      moreover have "out = [resp]" using s Inr send_reply_Ok by blast
      ultimately show ?thesis using na s Inr \<open>masquerade_reply masq r = Ok resp\<close> IH by simp
    qed
  qed (use na in simp)
qed simp_all

lemma authenticate_one:
  assumes "authorized opts r" "request_user opts r = Some name" "auth_reply opts rand = Ok final"
  shows "\<exists>rate. authenticate_connection masq rand opts (Ok ()) [Request r \<lparr>io_head = Ok (), io_data = Ok (), io_end = Ok ()\<rparr>] =
    (Ok name, [final], rate)"
  using assms by (simp add: authenticate_connection_def send_reply_def Let_def)

section \<open>Properties\<close>

text \<open>C1: who gets in. A connection is authenticated as \<open>name\<close> only by a POST to \<open>/auth\<close> of the
  authority \<open>hysteria\<close> whose auth header is the password of a configured user of that name; every
  request before it was answered by the masquerade handler, the last response is the 233 one with
  256 to 2047 bytes of alphanumeric padding, and the congestion controller's cell holds the
  negotiated rate. The configuration has passed validation, the random source fills its buffers.\<close>

theorem authentication_sound:
  assumes "validate lb c = Ok ()" "\<And>n bs. rng_fill rand n = Some bs \<Longrightarrow> length bs = n"
    and "authenticate_connection masq rand (authentication_options c congestion cell) h3 es = (Ok name, sent, rate)"
  shows "\<exists>probes r io post u replies final. es = map (\<lambda>(q, io). Request q io) probes @ Request r io # post \<and>
    u \<in> set (users c) \<and> user_name u = name \<and> hr_header r REQUEST_HEADER_AUTH = Some (user_password u) \<and>
    hr_method r = ''POST'' \<and> hr_host r = Some ''hysteria'' \<and> hr_path r = ''/auth'' \<and>
    rate = Some (negotiated_rate congestion (parse_u64_or_default (hr_header r HEADER_CC_RX))) \<and>
    sent = replies @ [final] \<and> map Ok replies = map (masquerade_reply masq \<circ> fst) probes \<and>
    hs_status final = STATUS_AUTH_OK \<and>
    (\<exists>padding. map_of (hs_headers final) ''hysteria-padding'' = Some padding \<and>
       256 \<le> length padding \<and> length padding < 2048 \<and> list_all is_ascii_alphanumeric padding)"
proof -
  let ?opts = "authentication_options c congestion cell"
  obtain probes r io post replies final where a: "es = map (\<lambda>(q, io). Request q io) probes @ Request r io # post" "authorized ?opts r"
    "request_user ?opts r = Some name" "sent = replies @ [final]"
    "map Ok replies = map (masquerade_reply masq \<circ> fst) probes" "auth_reply ?opts rand = Ok final"
    "rate = Some (negotiated_rate congestion (parse_u64_or_default (hr_header r HEADER_CC_RX)))"
    using authenticate_Ok [OF assms(3)] by (auto simp: authentication_options_def)
  obtain u where u: "u \<in> set (users c)" "user_name u = name"
    "user_password u = unwrap_or_default (hr_header r REQUEST_HEADER_AUTH)"
    using a(3) hy2_users_Some by (force simp: request_user_def authentication_options_def)
  have "user_password u \<noteq> []" using assms(1) u(1) by (auto simp: validate_def result_simps list_all_iff)
  then have "hr_header r REQUEST_HEADER_AUTH = Some (user_password u)"
    using u(3) by (auto simp: unwrap_or_default_def split: option.splits)
  moreover obtain p where p: "random_padding rand 256 2048 = Ok p" "hs_status final = STATUS_AUTH_OK"
    "map_of (hs_headers final) ''hysteria-padding'' = Some (str_of_bytes p)"
    using a(6) by (auto simp: auth_reply_def result_simps)
  moreover from random_padding_ok [OF p(1) _ assms(2)] have "256 \<le> length (str_of_bytes p)"
    "length (str_of_bytes p) < 2048" "list_all is_ascii_alphanumeric (str_of_bytes p)" by simp_all
  moreover have "hr_method r = ''POST''" "hr_host r = Some ''hysteria''" "hr_path r = ''/auth''"
    using a(2) by (simp_all add: authorized_def)
  ultimately show ?thesis using a u by blast
qed

theorem authentication_sound_witness:
  "let rand = \<lparr>rng_selector = Some (0, 0), rng_fill = (\<lambda>n. Some (replicate n 0))\<rparr>;
       r = \<lparr>hr_method = ''POST'', hr_host = Some ''hysteria'', hr_path = ''/auth'',
            hr_header = [REQUEST_HEADER_AUTH \<mapsto> ''p'', HEADER_CC_RX \<mapsto> ''7''], hr_body = []\<rparr>;
       io = \<lparr>io_head = Ok (), io_data = Ok (), io_end = Ok ()\<rparr>;
       masq = (\<lambda>_ _. Ok \<lparr>hs_status = 404, hs_headers = [], hs_body = []\<rparr>)
   in \<exists>sent rate. authenticate_connection masq rand
        (authentication_options example_config (Hy2CongestionConfig_new 0) 0) (Ok ())
        [Request (r\<lparr>hr_method := ''GET''\<rparr>) io, Request r io] = (Ok ''u'', sent, rate) \<and>
      rate = Some 7"
proof -
  let ?rand = "\<lparr>rng_selector = Some (0, 0), rng_fill = (\<lambda>n. Some (replicate n 0))\<rparr>"
  let ?r = "\<lparr>hr_method = ''POST'', hr_host = Some ''hysteria'', hr_path = ''/auth'',
            hr_header = [REQUEST_HEADER_AUTH \<mapsto> ''p'', HEADER_CC_RX \<mapsto> ''7''], hr_body = []\<rparr>"
  let ?io = "\<lparr>io_head = Ok (), io_data = Ok (), io_end = Ok ()\<rparr> :: reply_io"
  let ?masq = "(\<lambda>_ _. Ok \<lparr>hs_status = 404, hs_headers = [], hs_body = []\<rparr>) :: masquerade_handler"
  let ?opts = "authentication_options example_config (Hy2CongestionConfig_new 0) 0"
  let ?es = "[Request (?r\<lparr>hr_method := ''GET''\<rparr>) ?io, Request ?r ?io]"
  let ?res = "authenticate_connection ?masq ?rand ?opts (Ok ()) ?es"
  have "show_nat 7 = ''7''" by code_simp
  then have n: "parse_u64_or_default (Some ''7'') = 7"
    using parse_uint_show_nat [of 7 64] by (simp add: parse_u64_or_default_def)
  have "\<exists>p. random_padding ?rand 256 2048 = Ok p" by (simp add: random_padding_def Let_def)
  then obtain final where "auth_reply ?opts ?rand = Ok final" by (auto simp: auth_reply_def)
  moreover have "\<not> authorized ?opts (?r\<lparr>hr_method := ''GET''\<rparr>)" by (simp add: authorized_def)
  moreover have "request_user ?opts ?r = Some ''u''"
    by (simp add: request_user_def authentication_options_def example_config_def hy2_users_def unwrap_or_default_def)
  moreover from this have "authorized ?opts ?r"
    by (simp add: authorized_def authentication_options_def example_config_def)
  moreover have "masquerade_reply ?masq (?r\<lparr>hr_method := ''GET''\<rparr>) = Ok \<lparr>hs_status = 404, hs_headers = [], hs_body = []\<rparr>"
    by (simp add: masquerade_reply_def)
  ultimately have "fst ?res = Ok ''u''" by (simp add: authenticate_connection_def send_reply_def Let_def)
  then obtain sent rate where res: "?res = (Ok ''u'', sent, rate)" by (metis prod.collapse)
  have fill: "rng_fill ?rand n = Some bs \<Longrightarrow> length bs = n" for n bs by auto
  obtain pre r io post where p: "?es = pre @ Request r io # post" "hr_method r = ''POST''"
    "rate = Some (negotiated_rate (Hy2CongestionConfig_new 0) (parse_u64_or_default (hr_header r HEADER_CC_RX)))"
    using authentication_sound [OF example_config_valid fill res] by blast
  have "r = ?r" using p(1,2) by (auto simp: Cons_eq_append_conv)
  with p(3) n have "rate = Some 7" by (simp add: negotiated_rate_def Hy2CongestionConfig_new_def)
  with res show ?thesis unfolding Let_def by blast
qed

text \<open>C2: probes learn nothing. As long as no request is authorized, the outcome and every response
  are those of the masquerade handler, in the order of the requests (the last one possibly without its body, when sending
  fails): two servers that differ in users, bandwidth settings and randomness answer alike, and no rate is stored.\<close>

theorem probing_resistance:
  assumes "\<forall>r io. Request r io \<in> set es \<longrightarrow> \<not> authorized opts r \<and> \<not> authorized opts' r"
  shows "authenticate_connection masq rand opts h3 es = authenticate_connection masq rand' opts' h3 es \<and>
    (\<exists>e sent. authenticate_connection masq rand opts h3 es = (Err e, sent, None) \<and>
       length sent \<le> length es \<and>
       list_all2 (\<lambda>resp event. \<exists>r io full. event = Request r io \<and> masquerade_reply masq r = Ok full \<and>
           (resp = full \<or> resp = full\<lparr>hs_body := []\<rparr>)) sent (take (length sent) es))"
  using probe_loop [OF assms] by (cases h3) (simp_all add: authenticate_connection_def)

theorem probing_resistance_witness:
  "let r = \<lparr>hr_method = ''GET'', hr_host = Some ''hysteria'', hr_path = ''/auth'', hr_header = Map.empty, hr_body = []\<rparr>;
       io = \<lparr>io_head = Ok (), io_data = Ok (), io_end = Ok ()\<rparr>;
       opts = (\<lambda>c. authentication_options c (Hy2CongestionConfig_new 0) 0);
       rand = \<lparr>rng_selector = None, rng_fill = (\<lambda>_. None)\<rparr>
   in authenticate_connection (\<lambda>_ _. Err ''no handler'') rand (opts example_config) (Ok ()) [Request r io] =
      authenticate_connection (\<lambda>_ _. Err ''no handler'') rand (opts (example_config\<lparr>users := []\<rparr>)) (Ok ()) [Request r io]"
proof -
  let ?r = "\<lparr>hr_method = ''GET'', hr_host = Some ''hysteria'', hr_path = ''/auth'', hr_header = Map.empty, hr_body = []\<rparr>"
  have "\<not> authorized (authentication_options c (Hy2CongestionConfig_new 0) 0) ?r" for c
    by (simp add: authorized_def)
  then show ?thesis unfolding Let_def by (intro conjunct1 [OF probing_resistance]) auto
qed

end
