(* ===== verification/Traffic.thy ===== *)
theory Traffic
  imports Rust_Str "HOL-Library.AList" "HOL-Library.Char_ord" "HOL-Library.List_Lexorder"
    "HOL-Library.Sublist"
begin

text \<open>
  Traffic accounting and the relay loop of \<^verbatim>\<open>src/src/server.rs\<close>. The counters are shared objects
  (\<^verbatim>\<open>Arc<UserTraffic>\<close>): a store maps their addresses to the counters, the registry maps user names to
  addresses, and an open connection holds an address. Counters wrap at 64 bits.
\<close>

record UserTraffic =
  uploaded_bytes :: u64
  downloaded_bytes :: u64
  active_connections :: u64

definition UserTraffic_default :: UserTraffic where
  "UserTraffic_default = \<lparr>uploaded_bytes = 0, downloaded_bytes = 0, active_connections = 0\<rparr>"

type_synonym addr = nat

record TrafficRegistry =
  reg_users :: "(string \<times> addr) list"
  counters :: "addr \<Rightarrow> UserTraffic"
  fresh :: addr

definition TrafficRegistry_default :: TrafficRegistry where
  "TrafficRegistry_default = \<lparr>reg_users = [], counters = (\<lambda>_. UserTraffic_default), fresh = 0\<rparr>"

record UserTrafficSnapshot =
  snap_username :: string
  snap_uploaded :: u64
  snap_downloaded :: u64
  snap_active :: u64

text \<open>\<^verbatim>\<open>users.entry(username).or_default()\<close>.\<close>

definition or_default :: "string \<Rightarrow> TrafficRegistry \<Rightarrow> addr \<times> TrafficRegistry" where
  "or_default name r =
     (case map_of (reg_users r) name of
        Some a \<Rightarrow> (a, r)
      | None \<Rightarrow> (fresh r, r\<lparr>reg_users := AList.update name (fresh r) (reg_users r),
                           counters := (counters r)(fresh r := UserTraffic_default),
                           fresh := Suc (fresh r)\<rparr>))"

definition sync_users :: "string list \<Rightarrow> TrafficRegistry \<Rightarrow> TrafficRegistry" where
  "sync_users usernames r =
     (let r = r\<lparr>reg_users := filter (\<lambda>(name, _). name \<in> set usernames) (reg_users r)\<rparr> in
      foldl (\<lambda>r name. snd (or_default name r)) r (remdups usernames))"

definition snapshot_of :: "TrafficRegistry \<Rightarrow> string \<times> addr \<Rightarrow> UserTrafficSnapshot" where
  "snapshot_of r e =
     (case e of (name, a) \<Rightarrow>
      \<lparr>snap_username = name, snap_uploaded = uploaded_bytes (counters r a),
       snap_downloaded = downloaded_bytes (counters r a), snap_active = active_connections (counters r a)\<rparr>)"

definition snapshots :: "TrafficRegistry \<Rightarrow> UserTrafficSnapshot list" where
  "snapshots r = sort_key snap_username (map (snapshot_of r) (reg_users r))"

definition user :: "string \<Rightarrow> TrafficRegistry \<Rightarrow> addr \<times> TrafficRegistry" where
  "user name r =
     (case map_of (reg_users r) name of Some a \<Rightarrow> (a, r) | None \<Rightarrow> or_default name r)"

definition connection :: "addr \<Rightarrow> TrafficRegistry \<Rightarrow> TrafficRegistry" where
  "connection a r =
     r\<lparr>counters := (counters r)(a := (counters r a)\<lparr>active_connections := active_connections (counters r a) + 1\<rparr>)\<rparr>"

definition drop_connection :: "addr \<Rightarrow> TrafficRegistry \<Rightarrow> TrafficRegistry" where
  "drop_connection a r =
     r\<lparr>counters := (counters r)(a := (counters r a)\<lparr>active_connections := active_connections (counters r a) - 1\<rparr>)\<rparr>"

definition record_upload :: "addr \<Rightarrow> nat \<Rightarrow> TrafficRegistry \<Rightarrow> TrafficRegistry" where
  "record_upload a n r =
     r\<lparr>counters := (counters r)(a := (counters r a)\<lparr>uploaded_bytes := uploaded_bytes (counters r a) + word_of_nat n\<rparr>)\<rparr>"

definition record_download :: "addr \<Rightarrow> nat \<Rightarrow> TrafficRegistry \<Rightarrow> TrafficRegistry" where
  "record_download a n r =
     r\<lparr>counters := (counters r)(a := (counters r a)\<lparr>downloaded_bytes := downloaded_bytes (counters r a) + word_of_nat n\<rparr>)\<rparr>"

section \<open>The relay loop\<close>

abbreviation RELAY_BUFFER_SIZE :: nat where "RELAY_BUFFER_SIZE \<equiv> 32 * 1024"
abbreviation MAX_POOLED_RELAY_BUFFERS :: nat where "MAX_POOLED_RELAY_BUFFERS \<equiv> 16"

text \<open>The pool is a stack; its top is the end of the list.\<close>

definition RelayBuffer_take :: "bytes list \<Rightarrow> bytes \<times> bytes list" where
  "RelayBuffer_take pool =
     (if pool = [] then (replicate RELAY_BUFFER_SIZE 0, []) else (last pool, butlast pool))"

definition RelayBuffer_drop :: "bytes \<Rightarrow> bytes list \<Rightarrow> bytes list" where
  "RelayBuffer_drop buffer pool =
     (if length pool < MAX_POOLED_RELAY_BUFFERS then pool @ [buffer] else pool)"

text \<open>\<open>reads\<close> are the results of the successive reads into the buffer (the end of the list and an empty
  read are the end of the stream), \<open>writes\<close> the results of the successive \<^verbatim>\<open>write_all\<close> calls. The result
  is the value returned, the bytes written, the buffer and the counter.\<close>

fun copy_loop ::
  "('e + bytes) list \<Rightarrow> ('e + unit) list \<Rightarrow> bytes \<Rightarrow> u64 \<Rightarrow> u64 \<Rightarrow> bytes \<Rightarrow>
   ('e + u64) \<times> bytes \<times> bytes \<times> u64" where
  "copy_loop [] writes buffer copied counter out = (Ok copied, out, buffer, counter)"
| "copy_loop (Inl e # reads) writes buffer copied counter out = (Err e, out, buffer, counter)"
| "copy_loop (Inr chunk # reads) writes buffer copied counter out =
     (if chunk = [] then (Ok copied, out, buffer, counter)
      else
        let buffer = chunk @ drop (length chunk) buffer;
            data = take (length chunk) buffer
        in case writes of
             Inl e # _ \<Rightarrow> (Err e, out, buffer, counter)
           | _ \<Rightarrow> copy_loop reads (tl writes) buffer (saturating_add copied (word_of_nat (length chunk)))
                    (counter + word_of_nat (length chunk)) (out @ data))"

definition copy_with_reused_buffer ::
  "('e + bytes) list \<Rightarrow> ('e + unit) list \<Rightarrow> u64 \<Rightarrow> bytes list \<Rightarrow> ('e + u64) \<times> bytes \<times> u64 \<times> bytes list" where
  "copy_with_reused_buffer reads writes counter pool =
     (let (buffer, pool) = RelayBuffer_take pool;
          (r, out, buffer, counter) = copy_loop reads writes buffer 0 counter []
      in (r, out, counter, RelayBuffer_drop buffer pool))"

section \<open>Lemmas\<close>

subsection \<open>The registry\<close>

definition registry_ok :: "TrafficRegistry \<Rightarrow> bool" where
  "registry_ok r =
     (distinct (map fst (reg_users r)) \<and> distinct (map snd (reg_users r)) \<and>
      (\<forall>(name, a) \<in> set (reg_users r). a < fresh r))"

lemma update_new: "map_of xs k = None \<Longrightarrow> AList.update k v xs = xs @ [(k, v)]"
  by (induction xs) (auto split: if_splits)

lemma or_default_cases:
  obtains (present) a where "map_of (reg_users r) name = Some a" "or_default name r = (a, r)"
  | (absent) "map_of (reg_users r) name = None"
      "or_default name r = (fresh r, r\<lparr>reg_users := reg_users r @ [(name, fresh r)],
        counters := (counters r)(fresh r := UserTraffic_default), fresh := Suc (fresh r)\<rparr>)"
  by (cases "map_of (reg_users r) name") (auto simp: or_default_def update_new)

text \<open>The registry grows: entries and counters that exist are kept, new entries start at zero.\<close>

definition grown :: "TrafficRegistry \<Rightarrow> TrafficRegistry \<Rightarrow> bool" where
  "grown r r' =
     (registry_ok r' \<and> fresh r \<le> fresh r' \<and>
      (\<forall>n a. map_of (reg_users r) n = Some a \<longrightarrow> map_of (reg_users r') n = Some a) \<and>
      (\<forall>a < fresh r. counters r' a = counters r a) \<and>
      (\<forall>a < fresh r'. fresh r \<le> a \<longrightarrow> counters r' a = UserTraffic_default) \<and>
      (\<forall>(n, a) \<in> set (reg_users r'). (n, a) \<in> set (reg_users r) \<or> fresh r \<le> a))"

lemma grown_refl: "registry_ok r \<Longrightarrow> grown r r"
  by (auto simp: grown_def)

lemma grown_trans:
  assumes "grown r s" "grown s t"
  shows "grown r t"
proof -
  have "counters t a = UserTraffic_default" if "a < fresh t" "fresh r \<le> a" for a
    using that assms by (cases "a < fresh s") (simp_all add: grown_def)
  moreover have "\<forall>(n, a) \<in> set (reg_users t). (n, a) \<in> set (reg_users r) \<or> fresh r \<le> a"
    using assms unfolding grown_def by (fast intro: order_trans)
  ultimately show ?thesis using assms by (simp add: grown_def)
qed

lemma or_default_grown:
  assumes "registry_ok r"
  shows "grown r (snd (or_default name r))"
    "(name, fst (or_default name r)) \<in> set (reg_users (snd (or_default name r)))"
    "fst ` set (reg_users (snd (or_default name r))) = insert name (fst ` set (reg_users r))"
proof -
  show "grown r (snd (or_default name r))"
  proof (cases rule: or_default_cases [of r name])
    case absent
    have "map_of (reg_users r @ [(name, fresh r)]) n = Some a" if "map_of (reg_users r) n = Some a" for n a
      using that by (simp add: map_add_Some_iff)
    with absent assms show ?thesis
      by (force simp: grown_def registry_ok_def map_of_eq_None_iff)
  qed (use assms in \<open>simp add: grown_refl\<close>)
  show "(name, fst (or_default name r)) \<in> set (reg_users (snd (or_default name r)))"
    by (cases rule: or_default_cases [of r name]) (auto dest: map_of_SomeD)
  show "fst ` set (reg_users (snd (or_default name r))) = insert name (fst ` set (reg_users r))"
    by (cases rule: or_default_cases [of r name]) (force dest: map_of_SomeD)+
qed

lemma sync_fold:
  assumes "registry_ok r"
  shows "grown r (foldl (\<lambda>r name. snd (or_default name r)) r names) \<and>
    fst ` set (reg_users (foldl (\<lambda>r name. snd (or_default name r)) r names)) = fst ` set (reg_users r) \<union> set names"
  using assms
proof (induction names rule: rev_induct)
  case (snoc name names)
  let ?r = "foldl (\<lambda>r name. snd (or_default name r)) r names"
  have IH: "grown r ?r" "fst ` set (reg_users ?r) = fst ` set (reg_users r) \<union> set names"
    using snoc by simp_all
  then have "registry_ok ?r" by (simp add: grown_def)
  from or_default_grown [OF this, of name] IH grown_trans [OF IH(1)] show ?case by simp
qed (simp add: grown_refl)

lemma registry_ok_filter:
  assumes "registry_ok r"
  shows "registry_ok (r\<lparr>reg_users := filter P (reg_users r)\<rparr>)"
proof -
  have "distinct (map f xs) \<Longrightarrow> distinct (map f (filter P xs))" for f :: "string \<times> addr \<Rightarrow> 'a" and xs
    by (rule distinct_map_filter)
  with assms distinct_map_filter show ?thesis by (auto simp: registry_ok_def)
qed

lemma sync_users_grown:
  fixes names :: "string list"
  assumes "registry_ok r"
  defines "r0 \<equiv> r\<lparr>reg_users := filter (\<lambda>(name, _). name \<in> set names) (reg_users r)\<rparr>"
  shows "grown r0 (sync_users names r)" "fst ` set (reg_users (sync_users names r)) = set names"
proof -
  have "registry_ok r0" unfolding r0_def by (rule registry_ok_filter [OF assms(1)])
  from sync_fold [OF this, of "remdups names"]
  show "grown r0 (sync_users names r)" "fst ` set (reg_users (sync_users names r)) = set names"
    by (auto simp: sync_users_def r0_def Let_def)
qed

lemma map_of_filter_key:
  "name \<in> S \<Longrightarrow> map_of (filter (\<lambda>(name, _). name \<in> S) xs) name = map_of xs name"
  by (induction xs) auto

subsection \<open>Live connections\<close>

text \<open>The registry with the connections that are open: what the tasks of the server do to it.\<close>

inductive traffic_reach :: "TrafficRegistry \<Rightarrow> addr list \<Rightarrow> bool" where
  start: "traffic_reach TrafficRegistry_default []"
| sync: "traffic_reach r live \<Longrightarrow> traffic_reach (sync_users names r) live"
| open_: "traffic_reach r live \<Longrightarrow> user name r = (a, r') \<Longrightarrow> traffic_reach (connection a r') (a # live)"
| close: "traffic_reach r live \<Longrightarrow> a \<in> set live \<Longrightarrow> traffic_reach (drop_connection a r) (remove1 a live)"
| upload: "traffic_reach r live \<Longrightarrow> a \<in> set live \<Longrightarrow> traffic_reach (record_upload a n r) live"
| download: "traffic_reach r live \<Longrightarrow> a \<in> set live \<Longrightarrow> traffic_reach (record_download a n r) live"

definition live_ok :: "TrafficRegistry \<Rightarrow> addr list \<Rightarrow> bool" where
  "live_ok r live =
     (registry_ok r \<and> (\<forall>a \<in> set live. a < fresh r) \<and>
      (\<forall>a < fresh r. active_connections (counters r a) = word_of_nat (count_list live a)))"

lemma live_ok_grown:
  assumes "live_ok r live" "grown r r'"
  shows "live_ok r' live"
proof -
  have "count_list live a = 0" if "fresh r \<le> a" for a
    using assms(1) that by (auto simp: live_ok_def count_list_0_iff)
  then have "active_connections (counters r' a) = word_of_nat (count_list live a)" if "a < fresh r'" for a
    using assms that by (cases "a < fresh r") (auto simp: live_ok_def grown_def UserTraffic_default_def)
  with assms show ?thesis by (auto simp: live_ok_def grown_def)
qed

lemma user_grown:
  assumes "registry_ok r" "user name r = (a, r')"
  shows "grown r r'" "(name, a) \<in> set (reg_users r')"
proof -
  have "user name r = or_default name r" by (simp add: user_def or_default_def split: option.split)
  with assms or_default_grown [OF assms(1), of name] show "grown r r'" "(name, a) \<in> set (reg_users r')"
    by auto
qed

lemma count_list_remove1: "a \<in> set xs \<Longrightarrow> count_list (remove1 b xs) c = count_list xs c - (if b = c \<and> b \<in> set xs then 1 else 0)"
  by (induction xs) (auto simp: count_list_0_iff)

lemma traffic_reach_live_ok: "traffic_reach r live \<Longrightarrow> live_ok r live"
proof (induction rule: traffic_reach.induct)
  case start
  then show ?case
    by (simp add: live_ok_def registry_ok_def TrafficRegistry_default_def)
next
  case (sync r live names)
  let ?r0 = "r\<lparr>reg_users := filter (\<lambda>(name, _). name \<in> set names) (reg_users r)\<rparr>"
  have ok: "registry_ok r" using sync by (simp add: live_ok_def)
  then have "live_ok ?r0 live" using sync registry_ok_filter [OF ok] by (simp add: live_ok_def)
  then show ?case by (rule live_ok_grown [OF _ sync_users_grown(1) [OF ok]])
next
  case (open_ r live name a r')
  have ok: "registry_ok r" using open_ by (simp add: live_ok_def)
  note g = user_grown [OF ok open_(2)]
  have l: "live_ok r' live" using live_ok_grown [OF open_(3) g(1)] .
  moreover have "a < fresh r'" using g l by (auto simp: grown_def registry_ok_def)
  ultimately show ?case by (auto simp: live_ok_def connection_def registry_ok_def)
next
  case (close r live a)
  have "0 < count_list live a" using close(2) count_list_0_iff [of live a] by simp
  with close show ?case
    by (auto simp: live_ok_def drop_connection_def registry_ok_def count_list_remove1 of_nat_diff
        dest: notin_set_remove1)
qed (simp_all add: live_ok_def record_upload_def record_download_def registry_ok_def)

subsection \<open>The relay loop\<close>

text \<open>What the reader delivers before its end or first error.\<close>

fun stream_data :: "('e + bytes) list \<Rightarrow> bytes" where
  "stream_data (Inr chunk # reads) = (if chunk = [] then [] else chunk @ stream_data reads)"
| "stream_data _ = []"

lemma copy_loop_spec:
  assumes "copy_loop reads writes buffer copied counter out = (r, out', buffer', counter')"
    and "\<forall>chunk. Inr chunk \<in> set reads \<longrightarrow> length chunk \<le> length buffer" "length buffer < 2 ^ 64"
  shows "length buffer' = length buffer \<and>
    (\<exists>new. out' = out @ new \<and> prefix new (stream_data reads) \<and> counter' = counter + word_of_nat (length new) \<and>
      (\<forall>n. r = Ok n \<longrightarrow> new = stream_data reads \<and> unat n = min (unat copied + length new) (2 ^ 64 - 1)))"
  using assms
proof (induction reads arbitrary: writes buffer copied counter out)
  case Nil
  then show ?case using unsigned_less [of copied, where ?'a = nat] by auto
next
  case (Cons rd reads)
  have small: "unat copied \<le> 2 ^ 64 - 1" using unsigned_less [of copied, where ?'a = nat] by simp
  show ?case
  proof (cases "rd \<in> range Inl \<or> rd = Inr [] \<or> (\<exists>e ws. writes = Inl e # ws)")
    case True
    with Cons.prems small show ?thesis by (cases rd) (auto simp: Let_def split: if_splits)
  next
    case False
    then obtain chunk where c: "rd = Inr chunk" "chunk \<noteq> []" by (cases rd) auto
    let ?buf = "chunk @ drop (length chunk) buffer"
    let ?copied = "saturating_add copied (word_of_nat (length chunk))"
    have len: "length chunk \<le> length buffer" "length ?buf = length buffer" using Cons.prems(2) c by auto
    have "copy_loop reads (tl writes) ?buf ?copied (counter + word_of_nat (length chunk)) (out @ chunk) =
        (r, out', buffer', counter')"
      using Cons.prems(1) False c by (auto simp: Let_def split: list.splits sum.splits)
    from Cons.IH [OF this] len Cons.prems(2,3) obtain new where new: "length buffer' = length buffer"
      "out' = (out @ chunk) @ new" "prefix new (stream_data reads)"
      "counter' = counter + word_of_nat (length chunk) + word_of_nat (length new)"
      "\<forall>n. r = Ok n \<longrightarrow> new = stream_data reads \<and> unat n = min (unat ?copied + length new) (2 ^ 64 - 1)"
      by auto
    have "unat ?copied = min (unat copied + length chunk) (2 ^ 64 - 1)"
      using len(1) Cons.prems(3) by (simp add: unat_saturating_add unat_of_nat)
    then have "min (unat ?copied + length new) (2 ^ 64 - 1) = min (unat copied + length (chunk @ new)) (2 ^ 64 - 1)"
      by (simp add: min_def)
    with new c show ?thesis by (intro conjI exI [of _ "chunk @ new"]) (simp_all add: add.assoc)
  qed
qed

definition pool_ok :: "bytes list \<Rightarrow> bool" where
  "pool_ok pool = (length pool \<le> MAX_POOLED_RELAY_BUFFERS \<and> (\<forall>b \<in> set pool. length b = RELAY_BUFFER_SIZE))"

lemma pool_ok_take:
  assumes "pool_ok pool" "RelayBuffer_take pool = (buffer, pool')"
  shows "length buffer = RELAY_BUFFER_SIZE" "pool_ok pool'"
  using assms by (auto simp: pool_ok_def RelayBuffer_take_def dest: in_set_butlastD split: if_splits)

lemma pool_ok_drop: "pool_ok pool \<Longrightarrow> length buffer = RELAY_BUFFER_SIZE \<Longrightarrow> pool_ok (RelayBuffer_drop buffer pool)"
  by (auto simp: pool_ok_def RelayBuffer_drop_def)

lemma copy_with_reused_buffer_spec:
  assumes "pool_ok pool" "\<forall>chunk. Inr chunk \<in> set reads \<longrightarrow> length chunk \<le> RELAY_BUFFER_SIZE"
    and "copy_with_reused_buffer reads writes counter pool = (r, out, counter', pool')"
  shows "pool_ok pool' \<and> prefix out (stream_data reads) \<and> counter' = counter + word_of_nat (length out) \<and>
    (\<forall>n. r = Ok n \<longrightarrow> out = stream_data reads \<and> unat n = min (length out) (2 ^ 64 - 1))"
proof -
  obtain buffer pool1 where t: "RelayBuffer_take pool = (buffer, pool1)" by fastforce
  obtain buffer' where run: "copy_loop reads writes buffer 0 counter [] = (r, out, buffer', counter')"
    "pool' = RelayBuffer_drop buffer' pool1"
    using assms(3) t by (auto simp: copy_with_reused_buffer_def split: prod.splits)
  note p = pool_ok_take [OF assms(1) t]
  from copy_loop_spec [OF run(1)] p(1) assms(2) have c: "length buffer' = length buffer"
    "prefix out (stream_data reads)" "counter' = counter + word_of_nat (length out)"
    "\<forall>n. r = Ok n \<longrightarrow> out = stream_data reads \<and> unat n = min (length out) (2 ^ 64 - 1)" by auto
  with p run(2) show ?thesis by (simp add: pool_ok_drop)
qed

lemma copy_loop_succeeds:
  "\<forall>r \<in> set reads. is_ok r \<Longrightarrow> \<forall>w \<in> set writes. is_ok w \<Longrightarrow>
   is_ok (fst (copy_loop reads writes buffer copied counter out))"
proof (induction reads writes buffer copied counter out rule: copy_loop.induct)
  case (3 chunk reads writes buffer copied counter out)
  then show ?case by (cases writes) (auto simp: Let_def split: sum.splits)
qed auto

lemma copy_with_reused_buffer_succeeds:
  assumes "pool_ok pool" "\<forall>chunk. Inr chunk \<in> set reads \<longrightarrow> length chunk \<le> RELAY_BUFFER_SIZE"
    and "\<forall>r \<in> set reads. is_ok r" "\<forall>w \<in> set writes. is_ok w"
  shows "\<exists>n pool'. copy_with_reused_buffer reads writes counter pool =
    (Ok n, stream_data reads, counter + word_of_nat (length (stream_data reads)), pool') \<and> pool_ok pool'"
proof -
  obtain r out counter' pool' where c: "copy_with_reused_buffer reads writes counter pool = (r, out, counter', pool')"
    by (metis prod.collapse)
  then have "is_ok r"
    using copy_loop_succeeds [OF assms(3,4), of "fst (RelayBuffer_take pool)" 0 counter "[]"]
    by (auto simp: copy_with_reused_buffer_def split: prod.splits)
  then obtain n where "r = Ok n" by (auto simp: is_ok_iff)
  with copy_with_reused_buffer_spec [OF assms(1,2) c] c show ?thesis by auto
qed

section \<open>Properties\<close>

text \<open>C36: however logins, closings, reloads and transfers interleave, the snapshots list each
  registered user once, in name order, and the number of active connections shown is the number
  of connections that are open on that user's counters.\<close>

theorem traffic_active_connections:
  assumes "traffic_reach r live" "length live < 2 ^ 64"
  shows "sorted (map snap_username (snapshots r)) \<and> distinct (map snap_username (snapshots r)) \<and>
    set (map snap_username (snapshots r)) = fst ` set (reg_users r) \<and>
    (\<forall>(name, a) \<in> set (reg_users r). \<exists>s \<in> set (snapshots r).
       snap_username s = name \<and> unat (snap_active s) = count_list live a)"
proof -
  have ok: "live_ok r live" using assms(1) by (rule traffic_reach_live_ok)
  have names: "map snap_username (map (snapshot_of r) (reg_users r)) = map fst (reg_users r)"
    by (simp add: snapshot_of_def case_prod_unfold)
  have "\<exists>s \<in> set (snapshots r). snap_username s = name \<and> unat (snap_active s) = count_list live a"
    if "(name, a) \<in> set (reg_users r)" for name a
  proof -
    have "a < fresh r" using ok that by (auto simp: live_ok_def registry_ok_def)
    then have "active_connections (counters r a) = word_of_nat (count_list live a)" using ok by (simp add: live_ok_def)
    moreover have "count_list live a < 2 ^ 64" using assms(2) count_le_length [of live a] by simp
    ultimately have "unat (snap_active (snapshot_of r (name, a))) = count_list live a"
      by (simp add: snapshot_of_def unat_of_nat)
    moreover have "snapshot_of r (name, a) \<in> set (snapshots r)" using that by (simp add: snapshots_def)
    ultimately show ?thesis by (intro bexI [of _ "snapshot_of r (name, a)"]) (simp_all add: snapshot_of_def)
  qed
  moreover have "distinct (map snap_username (snapshots r))"
  proof -
    have "distinct (map snap_username (map (snapshot_of r) (reg_users r)))"
      unfolding names using ok by (simp add: live_ok_def registry_ok_def)
    then show ?thesis
      by (auto simp: snapshots_def distinct_map intro: inj_on_imageI inj_on_imageI2)
  qed
  moreover have "set (map snap_username (snapshots r)) = fst ` set (reg_users r)"
    using arg_cong [OF names, of set] by (simp add: snapshots_def image_image)
  moreover have "sorted (map snap_username (snapshots r))" by (simp add: snapshots_def)
  ultimately show ?thesis by blast
qed

theorem traffic_active_connections_witness:
  "\<exists>r a. traffic_reach r [a, a] \<and> (\<exists>s \<in> set (snapshots r). snap_username s = ''u'' \<and> unat (snap_active s) = 2)"
proof -
  let ?r0 = "snd (or_default ''u'' TrafficRegistry_default)"
  have u: "user ''u'' TrafficRegistry_default = (0, ?r0)"
    by (simp add: user_def or_default_def TrafficRegistry_default_def)
  have r1: "traffic_reach (connection 0 ?r0) [0]" by (rule open_ [OF start u])
  have u2: "user ''u'' (connection 0 ?r0) = (0, connection 0 ?r0)"
    by (simp add: user_def or_default_def TrafficRegistry_default_def connection_def)
  have r2: "traffic_reach (connection 0 (connection 0 ?r0)) [0, 0]" by (rule open_ [OF r1 u2])
  have "(''u'', 0) \<in> set (reg_users (connection 0 (connection 0 ?r0)))"
    by (simp add: or_default_def TrafficRegistry_default_def connection_def)
  with traffic_active_connections [OF r2] r2 show ?thesis by fastforce
qed

text \<open>A configuration reload. Afterwards exactly the configured users are registered; those that
  stay keep their counters, those that are new start at zero.\<close>

theorem sync_users_spec:
  assumes "traffic_reach r live"
  shows "fst ` set (reg_users (sync_users names r)) = set names \<and>
    (\<forall>name a. name \<in> set names \<and> map_of (reg_users r) name = Some a \<longrightarrow>
       map_of (reg_users (sync_users names r)) name = Some a \<and>
       counters (sync_users names r) a = counters r a) \<and>
    (\<forall>name a. map_of (reg_users r) name = None \<and> map_of (reg_users (sync_users names r)) name = Some a \<longrightarrow>
       counters (sync_users names r) a = UserTraffic_default)"
proof -
  let ?r0 = "r\<lparr>reg_users := filter (\<lambda>(name, _). name \<in> set names) (reg_users r)\<rparr>"
  have ok: "registry_ok r" using traffic_reach_live_ok [OF assms] by (simp add: live_ok_def)
  have g: "grown ?r0 (sync_users names r)" "registry_ok (sync_users names r)"
    using sync_users_grown [OF ok, of names] by (simp_all add: grown_def)
  have keep: "map_of (reg_users (sync_users names r)) name = Some a \<and> counters (sync_users names r) a = counters r a"
    if "name \<in> set names" "map_of (reg_users r) name = Some a" for name a
  proof -
    have "map_of (reg_users ?r0) name = Some a" using that by (simp add: map_of_filter_key)
    moreover have "a < fresh r" using ok map_of_SomeD [OF that(2)] by (auto simp: registry_ok_def)
    ultimately show ?thesis using g(1) by (simp add: grown_def)
  qed
  have new: "counters (sync_users names r) a = UserTraffic_default"
    if "map_of (reg_users r) name = None" "map_of (reg_users (sync_users names r)) name = Some a" for name a
  proof -
    have na: "(name, a) \<in> set (reg_users (sync_users names r))" using that(2) by (rule map_of_SomeD)
    moreover have "(name, a) \<notin> set (reg_users ?r0)" using that(1) by (force simp: map_of_eq_None_iff)
    ultimately have "fresh r \<le> a" "a < fresh (sync_users names r)"
      using g by (auto simp: grown_def registry_ok_def)
    with g(1) show ?thesis by (simp add: grown_def)
  qed
  show ?thesis using sync_users_grown(2) [OF ok] keep new by blast
qed

theorem sync_users_spec_witness:
  "traffic_reach TrafficRegistry_default [] \<and>
   fst ` set (reg_users (sync_users [''a'', ''b'', ''a''] TrafficRegistry_default)) = {''a'', ''b''}"
  using sync_users_spec [OF start, of "[''a'', ''b'', ''a'']"] start by auto

text \<open>Relaying. The loop writes a prefix of what the reader delivered, in order; the traffic
  counter grows by exactly the bytes written, also when a read or a write fails; and when it ends
  without an error, everything was written and the number returned is their count. The buffer goes
  back to a pool of at most 16 full-size buffers.\<close>

theorem relay_copies_stream:
  assumes "pool_ok pool" "\<forall>chunk. Inr chunk \<in> set reads \<longrightarrow> length chunk \<le> RELAY_BUFFER_SIZE"
    and "copy_with_reused_buffer reads writes counter pool = (r, out, counter', pool')"
  shows "pool_ok pool' \<and> prefix out (stream_data reads) \<and> counter' = counter + word_of_nat (length out) \<and>
    (\<forall>n. r = Ok n \<longrightarrow> out = stream_data reads \<and> unat n = min (length out) (2 ^ 64 - 1))"
  by (rule copy_with_reused_buffer_spec [OF assms])

theorem relay_copies_stream_witness:
  "let reads = [Inr [1, 2], Inr [3]] :: (string + bytes) list
   in prefix (fst (snd (copy_with_reused_buffer reads [Ok (), Err ''broken pipe''] 7 []))) [1, 2, 3]"
proof -
  let ?reads = "[Inr [1, 2], Inr [3]] :: (string + bytes) list"
  let ?r = "copy_with_reused_buffer ?reads [Ok (), Err ''broken pipe''] 7 []"
  have "pool_ok []" by (simp add: pool_ok_def)
  moreover have "\<forall>chunk. Inr chunk \<in> set ?reads \<longrightarrow> length chunk \<le> RELAY_BUFFER_SIZE" by auto
  moreover have "?r = (fst ?r, fst (snd ?r), fst (snd (snd ?r)), snd (snd (snd ?r)))" by simp
  ultimately have "prefix (fst (snd ?r)) (stream_data ?reads)" using relay_copies_stream by blast
  then show ?thesis by (simp add: Let_def)
qed

end
