(* ===== verification/Outbound.thy ===== *)
theory Outbound
  imports Config
begin

text \<open>
  The outbound connector of \<^verbatim>\<open>src/src/outbound.rs\<close>. Name resolution and the socket calls are
  arguments: \<open>lookup\<close> is \<^verbatim>\<open>tokio::net::lookup_host\<close>, \<open>connect\<close> the TCP connect of a fresh socket of the
  address's family. The addresses that were tried are part of the result.
\<close>

datatype io_error =
    AddrNotAvailable string
  | TimedOut string
  | OsError string

section \<open>Address order\<close>

text \<open>The loop: each family's vector collects its addresses once.\<close>

definition add_address :: "SocketAddr list \<times> SocketAddr list \<Rightarrow> SocketAddr \<Rightarrow> SocketAddr list \<times> SocketAddr list" where
  "add_address vs a =
     (case vs of (ipv4, ipv6) \<Rightarrow>
      if is_ipv4 a then (if a \<in> set ipv4 then ipv4 else ipv4 @ [a], ipv6)
      else (ipv4, if a \<in> set ipv6 then ipv6 else ipv6 @ [a]))"

definition order_addresses :: "SocketAddr list \<Rightarrow> OutboundMode \<Rightarrow> SocketAddr list" where
  "order_addresses addresses mode =
     (let (ipv4, ipv6) = foldl add_address ([], []) addresses in
      case mode of PreferIpv4 \<Rightarrow> ipv4 @ ipv6 | Ipv4Only \<Rightarrow> ipv4 | Ipv6Only \<Rightarrow> ipv6)"

definition resolve ::
  "(string \<Rightarrow> io_error + SocketAddr list) \<Rightarrow> OutboundMode \<Rightarrow> string \<Rightarrow> io_error + SocketAddr list" where
  "resolve lookup mode destination =
     and_then (lookup destination) (\<lambda>addresses.
     let addresses = order_addresses addresses mode in
     if addresses = []
     then Err (AddrNotAvailable (''no address matching outbound mode for '' @ destination))
     else Ok addresses)"

section \<open>TCP\<close>

definition connect_address ::
  "(bool \<Rightarrow> io_error + unit) \<Rightarrow> (SocketAddr \<Rightarrow> io_error + 'stream) \<Rightarrow> SocketAddr \<Rightarrow> io_error + 'stream" where
  "connect_address new_socket connect address =
     and_then (new_socket (is_ipv4 address)) (\<lambda>_. connect address)"

text \<open>The loop over the addresses: the first success, or the last error.\<close>

fun try_addresses ::
  "(SocketAddr \<Rightarrow> io_error + 'a) \<Rightarrow> SocketAddr list \<Rightarrow> io_error option \<Rightarrow> io_error \<Rightarrow>
   (io_error + 'a) \<times> SocketAddr list" where
  "try_addresses attempt [] last_error fallback =
     (Err (case last_error of Some e \<Rightarrow> e | None \<Rightarrow> fallback), [])"
| "try_addresses attempt (a # as) last_error fallback =
     (case attempt a of
        Ok x \<Rightarrow> (Ok x, [a])
      | Err e \<Rightarrow> (let (r, tried) = try_addresses attempt as (Some e) fallback in (r, a # tried)))"

definition connect_tcp ::
  "(string \<Rightarrow> io_error + SocketAddr list) \<Rightarrow> (bool \<Rightarrow> io_error + unit) \<Rightarrow>
   (SocketAddr \<Rightarrow> io_error + 'stream) \<Rightarrow> OutboundMode \<Rightarrow> string \<Rightarrow>
   (io_error + 'stream) \<times> SocketAddr list" where
  "connect_tcp lookup new_socket connect mode destination =
     (case resolve lookup mode destination of
        Err e \<Rightarrow> (Err e, [])
      | Ok addresses \<Rightarrow>
          try_addresses (connect_address new_socket connect) addresses None
            (AddrNotAvailable ''no usable destination address''))"

section \<open>UDP\<close>

record 'sock OutboundUdpSession =
  ipv4_socket :: "'sock option"
  ipv6_socket :: "'sock option"
  session_mode :: OutboundMode

text \<open>\<open>bind4\<close> and \<open>bind6\<close> are the results of binding the two wildcard sockets.\<close>

definition open_udp ::
  "io_error + 'sock \<Rightarrow> io_error + 'sock \<Rightarrow> OutboundMode \<Rightarrow> io_error + 'sock OutboundUdpSession" where
  "open_udp bind4 bind6 mode =
     and_then (if mode = Ipv6Only then Ok None else map_sum id Some bind4) (\<lambda>ipv4.
     let ipv6 = (if mode = Ipv4Only then None else (case bind6 of Ok s \<Rightarrow> Some s | Err _ \<Rightarrow> None)) in
     if ipv4 = None \<and> ipv6 = None
     then Err (AddrNotAvailable ''no usable UDP address family'')
     else Ok \<lparr>ipv4_socket = ipv4, ipv6_socket = ipv6, session_mode = mode\<rparr>)"

definition socket_for :: "'sock OutboundUdpSession \<Rightarrow> SocketAddr \<Rightarrow> 'sock option" where
  "socket_for session a = (if is_ipv4 a then ipv4_socket session else ipv6_socket session)"

fun try_send_to ::
  "'sock OutboundUdpSession \<Rightarrow> ('sock \<Rightarrow> bytes \<Rightarrow> SocketAddr \<Rightarrow> io_error + nat) \<Rightarrow> bytes \<Rightarrow>
   SocketAddr list \<Rightarrow> io_error option \<Rightarrow> io_error \<Rightarrow> (io_error + nat) \<times> SocketAddr list" where
  "try_send_to session send payload [] last_error fallback =
     (Err (case last_error of Some e \<Rightarrow> e | None \<Rightarrow> fallback), [])"
| "try_send_to session send payload (a # as) last_error fallback =
     (case socket_for session a of
        None \<Rightarrow> try_send_to session send payload as last_error fallback
      | Some socket \<Rightarrow>
          (case send socket payload a of
             Ok n \<Rightarrow> (Ok n, [a])
           | Err e \<Rightarrow> (let (r, tried) = try_send_to session send payload as (Some e) fallback
                       in (r, a # tried))))"

definition send_to ::
  "(string \<Rightarrow> io_error + SocketAddr list) \<Rightarrow> ('sock \<Rightarrow> bytes \<Rightarrow> SocketAddr \<Rightarrow> io_error + nat) \<Rightarrow>
   'sock OutboundUdpSession \<Rightarrow> bytes \<Rightarrow> string \<Rightarrow> (io_error + nat) \<times> SocketAddr list" where
  "send_to lookup send session payload destination =
     (case lookup destination of
        Err e \<Rightarrow> (Err e, [])
      | Ok addresses \<Rightarrow>
          try_send_to session send payload (order_addresses addresses (session_mode session)) None
            (AddrNotAvailable (''no usable UDP destination for '' @ destination)))"

text \<open>What happens while a session waits: nothing before the timeout, or the IPv4 or the IPv6 socket
  has a result first.\<close>

datatype arrival =
    Silence
  | Arrived4 "io_error + bytes \<times> SocketAddr"
  | Arrived6 "io_error + bytes \<times> SocketAddr"

definition possible :: "'sock OutboundUdpSession \<Rightarrow> arrival \<Rightarrow> bool" where
  "possible session a =
     (case a of Silence \<Rightarrow> True
      | Arrived4 _ \<Rightarrow> ipv4_socket session \<noteq> None
      | Arrived6 _ \<Rightarrow> ipv6_socket session \<noteq> None)"

definition resize :: "nat \<Rightarrow> 'a \<Rightarrow> 'a list \<Rightarrow> 'a list" where
  "resize n x xs = take n xs @ replicate (n - length xs) x"

definition recv_from :: "arrival \<Rightarrow> bytes \<Rightarrow> (io_error + nat \<times> string) \<times> bytes" where
  "recv_from arr buffer =
     (let buffer = resize 65535 0 buffer;
          received = (\<lambda>r. case r of
              Err e \<Rightarrow> (Err e, buffer)
            | Ok (payload, source) \<Rightarrow>
                (Ok (length payload, show_socket_addr source), payload @ drop (length payload) buffer))
      in case arr of
           Silence \<Rightarrow> (Err (TimedOut ''UDP session timed out''), buffer)
         | Arrived4 r \<Rightarrow> received r
         | Arrived6 r \<Rightarrow> received r)"

section \<open>Lemmas\<close>

text \<open>Deduplication that keeps first occurrences, and the order a mode stands for.\<close>

definition dedup :: "'a list \<Rightarrow> 'a list" where
  "dedup xs = rev (remdups (rev xs))"

lemma dedup_snoc: "dedup (xs @ [a]) = (if a \<in> set xs then dedup xs else dedup xs @ [a])"
  by (simp add: dedup_def)

lemma set_dedup [simp]: "set (dedup xs) = set xs" and distinct_dedup [simp]: "distinct (dedup xs)"
  by (simp_all add: dedup_def)

definition mode_order :: "OutboundMode \<Rightarrow> SocketAddr list \<Rightarrow> SocketAddr list" where
  "mode_order mode xs =
     (case mode of
        PreferIpv4 \<Rightarrow> filter is_ipv4 xs @ filter (\<lambda>a. \<not> is_ipv4 a) xs
      | Ipv4Only \<Rightarrow> filter is_ipv4 xs
      | Ipv6Only \<Rightarrow> filter (\<lambda>a. \<not> is_ipv4 a) xs)"

lemma foldl_add_address:
  "foldl add_address ([], []) xs = (dedup (filter is_ipv4 xs), dedup (filter (\<lambda>a. \<not> is_ipv4 a) xs))"
proof (induction xs rule: rev_induct)
  case (snoc a xs)
  then show ?case by (simp add: add_address_def dedup_snoc)
qed (simp add: dedup_def)

lemma dedup_append_disjoint: "set xs \<inter> set ys = {} \<Longrightarrow> dedup (xs @ ys) = dedup xs @ dedup ys"
proof (induction ys rule: rev_induct)
  case (snoc y ys)
  then have "dedup (xs @ ys) = dedup xs @ dedup ys" "y \<notin> set xs" by auto
  with dedup_snoc [of "xs @ ys" y] show ?case by (simp add: dedup_snoc)
qed (simp add: dedup_def)

lemma order_addresses_dedup: "order_addresses xs mode = dedup (mode_order mode xs)"
proof -
  have "dedup (filter is_ipv4 xs @ filter (\<lambda>a. \<not> is_ipv4 a) xs) =
      dedup (filter is_ipv4 xs) @ dedup (filter (\<lambda>a. \<not> is_ipv4 a) xs)"
    by (rule dedup_append_disjoint) auto
  then show ?thesis
    by (simp add: order_addresses_def foldl_add_address mode_order_def split: OutboundMode.split)
qed

lemma try_addresses_spec:
  assumes "try_addresses attempt as last_error fallback = (r, tried)"
  shows "tried = takeWhile (\<lambda>a. \<not> is_ok (attempt a)) as @
      (case find (\<lambda>a. is_ok (attempt a)) as of None \<Rightarrow> [] | Some a \<Rightarrow> [a])"
    and "case find (\<lambda>a. is_ok (attempt a)) as of
      Some a \<Rightarrow> r = attempt a
    | None \<Rightarrow> r = (if as = [] then Err (case last_error of Some e \<Rightarrow> e | None \<Rightarrow> fallback) else attempt (last as))"
  using assms
proof (induction as arbitrary: last_error r tried)
  case (Cons a as)
  {
    case 1
    show ?case
    proof (cases "attempt a")
      case (Inl e)
      with 1 obtain tried' where t: "try_addresses attempt as (Some e) fallback = (r, tried')" "tried = a # tried'"
        by (auto split: prod.splits)
      from Cons.IH(1) [OF t(1)] t(2) Inl show ?thesis by simp
    next
      case (Inr x)
      then have "is_ok (attempt a)" by simp
      with Inr 1 show ?thesis by simp
    qed
  next
    case 2
    show ?case
    proof (cases "attempt a")
      case (Inl e)
      with 2 obtain tried' where t: "try_addresses attempt as (Some e) fallback = (r, tried')"
        by (auto split: prod.splits)
      from Cons.IH(2) [OF this] Inl show ?thesis by (auto split: option.splits)
    next
      case (Inr x)
      then have "is_ok (attempt a)" by simp
      with Inr 2 show ?thesis by simp
    qed
  }
qed auto

section \<open>Properties\<close>

text \<open>C37: connecting to a destination. The addresses tried are those the resolver returned, each
  once, only of the families the mode allows, IPv4 before IPv6 when it is preferred and otherwise
  in the resolver's order, up to the first that connects; that connection is the result, and
  otherwise the error of the last address tried.\<close>

theorem connect_tcp_spec:
  fixes connect :: "SocketAddr \<Rightarrow> io_error + 'stream" and new_socket :: "bool \<Rightarrow> io_error + unit"
    and mode :: OutboundMode
  assumes "lookup destination = Ok found"
  defines "attempt \<equiv> connect_address new_socket connect"
  defines "order \<equiv> dedup (mode_order mode found)"
  shows "connect_tcp lookup new_socket connect mode destination =
    (case find (\<lambda>a. is_ok (attempt a)) order of
       Some a \<Rightarrow> (attempt a, takeWhile (\<lambda>a. \<not> is_ok (attempt a)) order @ [a])
     | None \<Rightarrow> (if order = [] then Err (AddrNotAvailable (''no address matching outbound mode for '' @ destination))
               else attempt (last order), order))"
proof (cases "order = []")
  case True
  then show ?thesis
    using assms(1) by (simp add: connect_tcp_def resolve_def order_addresses_dedup order_def)
next
  case False
  let ?t = "try_addresses attempt order None (AddrNotAvailable ''no usable destination address'')"
  have "connect_tcp lookup new_socket connect mode destination = ?t"
    using False assms(1)
    by (simp add: connect_tcp_def resolve_def order_addresses_dedup order_def [symmetric] attempt_def)
  moreover note try_addresses_spec [OF prod.collapse [symmetric, of ?t]]
  moreover have "takeWhile (\<lambda>a. \<not> is_ok (attempt a)) order = order"
    if "find (\<lambda>a. is_ok (attempt a)) order = None"
    using that by (simp add: find_None_iff)
  ultimately show ?thesis
    using False by (auto simp: prod_eq_iff split: option.splits)
qed

theorem connect_tcp_spec_witness:
  "let a = SocketAddrV4 1 443; b = SocketAddrV6 2 443 0 0; c = SocketAddrV4 3 443;
       lookup = (\<lambda>_. Ok [b, a, c, a]); connect = (\<lambda>x. if x = a then Err (OsError ''refused'') else Ok x)
   in connect_tcp lookup (\<lambda>_. Ok ()) connect PreferIpv4 ''h:443'' = (Ok c, [a, c])"
proof -
  let ?a = "SocketAddrV4 1 443" and ?b = "SocketAddrV6 2 443 0 0" and ?c = "SocketAddrV4 3 443"
  let ?connect = "\<lambda>x. if x = ?a then Err (OsError ''refused'') else Ok x"
  have "dedup (mode_order PreferIpv4 [?b, ?a, ?c, ?a]) = [?a, ?c, ?b]" by code_simp
  then show ?thesis
    unfolding Let_def
    using connect_tcp_spec [of "\<lambda>_. Ok [?b, ?a, ?c, ?a]" "''h:443''" _ "\<lambda>_. Ok ()" ?connect PreferIpv4]
    by (simp add: connect_address_def)
qed

text \<open>A UDP session. Whatever the two binds return, an opened session has a socket, only of
  families its mode allows, and needs the IPv4 socket unless it is IPv6-only; what it sends goes
  out only through sockets it has, to addresses of the mode's families; and an arrival that the
  session can see is returned with its length and source at the front of a 65535-byte buffer.\<close>

theorem udp_session_spec:
  assumes "open_udp bind4 bind6 mode = Ok session"
  shows "(ipv4_socket session \<noteq> None \<or> ipv6_socket session \<noteq> None) \<and> session_mode session = mode \<and>
    (mode \<noteq> Ipv6Only \<longrightarrow> (\<exists>s. bind4 = Ok s \<and> ipv4_socket session = Some s)) \<and>
    (mode = Ipv6Only \<longrightarrow> ipv4_socket session = None) \<and> (mode = Ipv4Only \<longrightarrow> ipv6_socket session = None) \<and>
    (\<forall>a \<in> set (snd (send_to lookup send session payload destination)).
       socket_for session a \<noteq> None \<and> (\<exists>found. lookup destination = Ok found \<and> a \<in> set (mode_order mode found))) \<and>
    (\<forall>arr p src buffer. possible session arr \<and> arr \<in> {Arrived4 (Ok (p, src)), Arrived6 (Ok (p, src))} \<and>
        length p \<le> 65535 \<longrightarrow>
       fst (recv_from arr buffer) = Ok (length p, show_socket_addr src) \<and>
       take (length p) (snd (recv_from arr buffer)) = p \<and> length (snd (recv_from arr buffer)) = 65535)"
proof -
  have s: "(ipv4_socket session \<noteq> None \<or> ipv6_socket session \<noteq> None)" "session_mode session = mode"
    "mode \<noteq> Ipv6Only \<longrightarrow> (\<exists>s. bind4 = Ok s \<and> ipv4_socket session = Some s)"
    "mode = Ipv6Only \<longrightarrow> ipv4_socket session = None" "mode = Ipv4Only \<longrightarrow> ipv6_socket session = None"
    using assms by (auto simp: open_udp_def Let_def result_simps map_sum_def split: if_splits sum.splits)
  have t: "\<forall>a \<in> set (snd (try_send_to session send payload as e d)). a \<in> set as \<and> socket_for session a \<noteq> None"
    for as e d
  proof (induction as arbitrary: e)
    case (Cons a as)
    then have "x \<in> set (snd (try_send_to session send payload as e' d)) \<Longrightarrow>
        x \<in> set as \<and> socket_for session x \<noteq> None" for x e' by blast
    then show ?case by (auto simp: case_prod_unfold Let_def split: option.splits sum.splits)
  qed simp
  have "\<forall>a \<in> set (snd (send_to lookup send session payload destination)).
       socket_for session a \<noteq> None \<and> (\<exists>found. lookup destination = Ok found \<and> a \<in> set (mode_order mode found))"
  proof (cases "lookup destination")
    case (Inr found)
    then show ?thesis
      using t [of "order_addresses found mode"] s(2) by (auto simp: send_to_def order_addresses_dedup)
  qed (simp add: send_to_def)
  then show ?thesis using s by (auto simp: recv_from_def Let_def resize_def)
qed

theorem udp_session_spec_witness:
  "let session = \<lparr>ipv4_socket = Some (), ipv6_socket = None, session_mode = PreferIpv4\<rparr>
   in open_udp (Ok ()) (Err (OsError ''no IPv6'')) PreferIpv4 = Ok session \<and> ipv4_socket session \<noteq> None"
proof -
  have "open_udp (Ok ()) (Err (OsError ''no IPv6'')) PreferIpv4 =
      Ok \<lparr>ipv4_socket = Some (), ipv6_socket = None, session_mode = PreferIpv4\<rparr>" by code_simp
  with udp_session_spec [OF this] show ?thesis by simp
qed

end
