(* ===== verification/Hy2_Tcp.thy ===== *)
theory Hy2_Tcp
  imports Hy2_Auth Traffic Outbound
begin

text \<open>
  HY2 TCP streams of \<^verbatim>\<open>src/src/server.rs\<close>: the incremental readers and \<^verbatim>\<open>relay_tcp_stream\<close>. The client's
  half of a QUIC stream is the list of bytes it sends before it finishes; the destination's
  connection is what it sends, and what is written to it is part of the result.
\<close>

section \<open>Readers\<close>

definition read_exact :: "nat \<Rightarrow> bytes \<Rightarrow> (bytes \<times> bytes) result" where
  "read_exact n stream =
     (if n \<le> length stream then Ok (take n stream, drop n stream) else Err ''stream finished early'')"

definition read_varint :: "bytes \<Rightarrow> (u64 \<times> bytes) result" where
  "read_varint stream =
     and_then (read_exact 1 stream) (\<lambda>(first, stream).
     let len = push_bit (unat (drop_bit 6 (hd first))) (1 :: nat) in
     and_then (if len > 1 then read_exact (len - 1) stream else Ok ([], stream)) (\<lambda>(more, stream).
     and_then (map_err show_VarIntError (decode_varint (first @ more))) (\<lambda>(v, _).
     Ok (v, stream))))"

text \<open>\<open>chunk\<close> is the size of the first chunk after the header that the transport hands out.\<close>

definition read_tcp_request :: "nat \<Rightarrow> bytes \<Rightarrow> (TcpRequest \<times> bytes) result" where
  "read_tcp_request chunk stream =
     and_then (read_varint stream) (\<lambda>(address_length, stream).
     if address_length = 0 \<or> unat address_length > MAX_ADDRESS_LENGTH
     then Err (''invalid HY2 destination address length '' @ show_nat (unat address_length))
     else
       and_then (read_exact (unat address_length) stream) (\<lambda>(address, stream).
       and_then (read_varint stream) (\<lambda>(padding_length, stream).
       if unat padding_length > MAX_PADDING_LENGTH then Err (''invalid HY2 TCP padding length '' @ show_nat (unat padding_length))
       else
         and_then (read_exact (unat padding_length) stream) (\<lambda>(_, stream).
         let payload = take chunk stream; stream = drop chunk stream in
         and_then (ok_or (from_utf8 address) ''HY2 destination is not UTF-8'') (\<lambda>dest.
         Ok (\<lparr>req_destination = dest, req_payload = payload\<rparr>, stream))))))"

section \<open>The relay\<close>

fun show_io_error :: "Outbound.io_error \<Rightarrow> string" where
  "show_io_error (AddrNotAvailable m) = m"
| "show_io_error (TimedOut m) = m"
| "show_io_error (OsError m) = m"

text \<open>The environment of one stream: the outcome of connecting, the random source, how the transport
  cuts what the client sends after the request into reads, what the destination sends, the writes in
  both directions, and closing each direction (\<^verbatim>\<open>shutdown\<close> of the destination's write half, \<^verbatim>\<open>finish\<close> of
  the client's stream).\<close>

record relay_env =
  env_connect :: "string \<Rightarrow> Outbound.io_error + unit"
  env_random :: rng
  env_chunk :: nat
  env_response_write :: "string + unit"
  env_payload_write :: "string + unit"
  env_client_reads :: "bytes \<Rightarrow> (string + bytes) list"
  env_upstream_writes :: "(string + unit) list"
  env_upstream_reads :: "(string + bytes) list"
  env_client_writes :: "(string + unit) list"
  env_shutdown :: "string + unit"
  env_finish :: "string + unit"

record relay_out =
  to_client :: bytes
  to_upstream :: bytes
  up_counter :: u64
  down_counter :: u64

definition encode_response ::
  "rng \<Rightarrow> TcpResponseStatus \<Rightarrow> string \<Rightarrow> bytes result" where
  "encode_response rand status message =
     and_then (random_padding rand 128 1024) (\<lambda>padding.
     map_err show_TcpCodecError
       (TcpResponse_encode \<lparr>resp_status = status, resp_message = message, resp_payload = []\<rparr> padding))"

text \<open>The two directions run side by side until both end or one fails; each has its own loop, buffer
  and counter, so the bytes each moved are those of its own loop. A direction that is dropped because
  the other failed is one whose list of reads ends there.\<close>

text \<open>The two directions run side by side, each with a buffer of its own, and the first error ends both. The reads of a
  direction that the other one's error cancels are those that happened before; it then has no error of its own.\<close>

definition relay_tcp_stream ::
  "relay_env \<Rightarrow> bytes \<Rightarrow> u64 \<Rightarrow> u64 \<Rightarrow> bytes list \<Rightarrow> unit result \<times> relay_out" where
  "relay_tcp_stream env stream up down pool =
     (let nothing = \<lparr>to_client = [], to_upstream = [], up_counter = up, down_counter = down\<rparr> in
      case read_varint stream of
        Err e \<Rightarrow> (Err e, nothing)
      | Ok (frame_type, stream) \<Rightarrow>
          if frame_type \<noteq> FRAME_TYPE_TCP_REQUEST then (Err (''unexpected HY2 stream frame type 0x'' @ lower_hex (unat frame_type)), nothing)
          else (case read_tcp_request (env_chunk env) stream of
            Err e \<Rightarrow> (Err e, nothing)
          | Ok (request, rest) \<Rightarrow>
              (case env_connect env (req_destination request) of
                 Err error \<Rightarrow>
                   (case and_then (encode_response (env_random env) Status_Error (show_io_error error))
                           (\<lambda>frame. and_then (env_response_write env) (\<lambda>_. Ok frame)) of
                      Err e \<Rightarrow> (Err e, nothing)
                    | Ok frame \<Rightarrow> (env_finish env, nothing\<lparr>to_client := frame\<rparr>))
               | Ok _ \<Rightarrow>
                   (case and_then (encode_response (env_random env) Status_Ok [])
                           (\<lambda>frame. and_then (env_response_write env) (\<lambda>_. Ok frame)) of
                      Err e \<Rightarrow> (Err e, nothing)
                    | Ok frame \<Rightarrow>
                        (case env_payload_write env of
                           Err e \<Rightarrow> (Err e, nothing\<lparr>to_client := frame\<rparr>)
                         | Ok _ \<Rightarrow>
                             let up = up + word_of_nat (length (req_payload request));
                                 (r1, sent_up, up, _) = copy_with_reused_buffer (env_client_reads env rest)
                                    (env_upstream_writes env) up pool;
                                 (r2, sent_down, down, _) = copy_with_reused_buffer (env_upstream_reads env)
                                    (env_client_writes env) down (snd (RelayBuffer_take pool))
                             in (and_then (map_err (\<lambda>_. ''relay client data to destination'') r1) (\<lambda>_.
                                 and_then (map_err (\<lambda>_. ''finish destination write half'') (env_shutdown env)) (\<lambda>_.
                                 and_then (map_err (\<lambda>_. ''relay destination data to client'') r2) (\<lambda>_.
                                 map_err (\<lambda>_. ''finish HY2 response stream'') (env_finish env)))),
                                 \<lparr>to_client = frame @ sent_down, to_upstream = req_payload request @ sent_up,
                                  up_counter = up, down_counter = down\<rparr>))))))"

section \<open>Lemmas\<close>

lemma width_pos: "0 < push_bit n (1 :: nat)"
  by (simp add: push_bit_eq_mult)

lemma read_varint_decode:
  "decode_varint stream = Ok (v, rest) \<Longrightarrow> read_varint stream = Ok (v, rest)"
proof -
  assume d: "decode_varint stream = Ok (v, rest)"
  then obtain b tl where s: "stream = b # tl" by (cases stream) (simp_all add: decode_varint_def)
  define w where "w = push_bit (unat (drop_bit 6 b)) (1 :: nat)"
  have "0 < w" unfolding w_def by (rule width_pos)
  then obtain w' where w': "w = Suc w'" using gr0_implies_Suc by blast
  then have wp: "2 ^ unat (drop_bit 6 b) = Suc w'" by (simp add: w_def push_bit_eq_mult)
  have len: "w' \<le> length tl" and rest: "rest = drop w' tl"
    and v: "v = foldl be_push (ucast (b AND 0x3f)) (take w' tl)"
    using d by (auto simp: decode_varint_def s Let_def wp split: if_splits)
  moreover have "decode_varint (b # take w' tl) = Ok (v, [])"
    using len by (simp add: decode_varint_def Let_def wp v)
  ultimately show ?thesis
    using rest len by (auto simp: read_varint_def read_exact_def s Let_def wp)
qed

lemma read_exact_append [simp]: "read_exact (length xs) (xs @ ys) = Ok (xs, ys)"
  by (simp add: read_exact_def)

text \<open>A request as a client encodes it, read incrementally.\<close>

lemma encoded_request_fields:
  assumes "TcpRequest_encode dest padding payload = Ok out"
  shows "\<exists>ft la lp. out = ft @ la @ as_bytes dest @ lp @ padding @ payload \<and>
    (\<forall>t. decode_varint (ft @ t) = Ok (FRAME_TYPE_TCP_REQUEST, t)) \<and>
    (\<forall>t. decode_varint (la @ t) = Ok (word_of_nat (length dest), t)) \<and>
    (\<forall>t. decode_varint (lp @ t) = Ok (word_of_nat (length padding), t)) \<and>
    dest \<noteq> [] \<and> length dest \<le> MAX_ADDRESS_LENGTH \<and> length padding \<le> MAX_PADDING_LENGTH"
proof -
  obtain o1 o2 o3 where e: "encode_varint FRAME_TYPE_TCP_REQUEST [] = Ok o1"
    "encode_varint (word_of_nat (length dest)) o1 = Ok o2"
    "encode_varint (word_of_nat (length padding)) (o2 @ as_bytes dest) = Ok o3"
    "out = o3 @ padding @ payload"
    and l: "dest \<noteq> []" "length dest \<le> MAX_ADDRESS_LENGTH" "length padding \<le> MAX_PADDING_LENGTH"
    using assms by (auto simp: TcpRequest_encode_def write_bytes_def result_simps split: if_splits)
  obtain ft la lp where
    "o1 = ft" "\<forall>t. decode_varint (ft @ t) = Ok (FRAME_TYPE_TCP_REQUEST, t)"
    "o2 = o1 @ la" "\<forall>t. decode_varint (la @ t) = Ok (word_of_nat (length dest), t)"
    "o3 = (o2 @ as_bytes dest) @ lp" "\<forall>t. decode_varint (lp @ t) = Ok (word_of_nat (length padding), t)"
    using varint.enc_frame [OF e(1)] varint.enc_frame [OF e(2)] varint.enc_frame [OF e(3)] by auto
  with e(4) l show ?thesis
    by (intro exI [of _ ft] exI [of _ la] exI [of _ lp]) simp
qed

lemma read_encoded_request:
  assumes "TcpRequest_encode dest padding payload = Ok out" "valid_str dest"
  shows "\<exists>stream. read_varint out = Ok (FRAME_TYPE_TCP_REQUEST, stream) \<and>
    read_tcp_request chunk stream =
      Ok (\<lparr>req_destination = dest, req_payload = take chunk payload\<rparr>, drop chunk payload)"
proof -
  obtain ft la lp where f: "out = ft @ la @ as_bytes dest @ lp @ padding @ payload"
    "\<forall>t. decode_varint (ft @ t) = Ok (FRAME_TYPE_TCP_REQUEST, t)"
    "\<forall>t. decode_varint (la @ t) = Ok (word_of_nat (length dest), t)"
    "\<forall>t. decode_varint (lp @ t) = Ok (word_of_nat (length padding), t)"
    and l: "dest \<noteq> []" "length dest \<le> MAX_ADDRESS_LENGTH" "length padding \<le> MAX_PADDING_LENGTH"
    using encoded_request_fields [OF assms(1)] by blast
  have n: "unat (word_of_nat (length dest) :: u64) = length dest"
    "unat (word_of_nat (length padding) :: u64) = length padding"
    using l by (simp_all add: unat_of_nat)
  then have ne: "(word_of_nat (length dest) :: u64) \<noteq> 0" using l(1) by (metis length_0_conv unsigned_0)
  have "read_exact (length dest) (as_bytes dest @ t) = Ok (as_bytes dest, t)" for t
    using read_exact_append [of "as_bytes dest" t] by simp
  then have "read_tcp_request chunk (la @ as_bytes dest @ lp @ padding @ payload) =
      Ok (\<lparr>req_destination = dest, req_payload = take chunk payload\<rparr>, drop chunk payload)"
    using f(3,4) n ne l assms(2)
    by (simp add: read_tcp_request_def read_varint_decode Let_def)
  then show ?thesis using f(1,2) read_varint_decode by blast
qed

lemma encode_response_Ok:
  assumes "encode_response rand status message = Ok frame"
  shows "\<exists>padding. random_padding rand 128 1024 = Ok padding \<and>
    TcpResponse_encode \<lparr>resp_status = status, resp_message = message, resp_payload = []\<rparr> padding = Ok frame"
  using assms by (auto simp: encode_response_def result_simps)

lemma encode_response_total:
  assumes "random_padding rand 128 1024 = Ok padding" "length message \<le> MAX_MESSAGE_LENGTH"
    and "\<And>n bs. rng_fill rand n = Some bs \<Longrightarrow> length bs = n"
  shows "\<exists>frame. encode_response rand status message = Ok (status_byte status # frame)"
proof -
  have "length padding < 1024" using random_padding_ok [OF assms(1) _ assms(3)] by simp
  then have p: "length padding \<le> MAX_PADDING_LENGTH" by simp
  obtain m where m: "\<And>out. write_bytes (as_bytes message) out = Ok (out @ m)"
    using write_bytes_field [of "as_bytes message"] assms(2) by fastforce
  obtain q where "\<And>out. write_bytes padding out = Ok (out @ q)"
    using write_bytes_field [of padding] p by fastforce
  with m show ?thesis
    using p assms(1,2) by (simp add: encode_response_def TcpResponse_encode_def)
qed

section \<open>Properties\<close>


definition example_env :: "(string \<Rightarrow> Outbound.io_error + unit) \<Rightarrow> relay_env" where
  "example_env connect = \<lparr>env_connect = connect,
     env_random = \<lparr>rng_selector = Some (0, 0), rng_fill = (\<lambda>n. Some (replicate n 0))\<rparr>,
     env_chunk = 2, env_response_write = Ok (), env_payload_write = Ok (), env_client_reads = (\<lambda>rest. [Inr rest]),
     env_upstream_writes = [], env_upstream_reads = [Inr [9]], env_client_writes = [],
     env_shutdown = Ok (), env_finish = Ok ()\<rparr>"

lemma example_env_padding: "\<exists>pad. random_padding (env_random (example_env c)) 128 1024 = Ok pad"
  by (simp add: example_env_def random_padding_def Let_def)


text \<open>A refused connection. If the destination cannot be reached, nothing is sent to it, no traffic is
  counted, and the client reads back a response frame with the error status and the error's
  message.\<close>

theorem tcp_relay_refused:
  assumes "TcpRequest_encode dest padding payload = Ok out" "valid_str dest"
    and "random_padding (env_random env) 128 1024 = Ok pad" "\<And>n bs. rng_fill (env_random env) n = Some bs \<Longrightarrow> length bs = n"
    and "env_connect env dest = Err error" "length (show_io_error error) \<le> MAX_MESSAGE_LENGTH"
    and "env_response_write env = Ok ()" "env_finish env = Ok ()"
  shows "\<exists>frame t. relay_tcp_stream env out up down pool =
      (Ok (), \<lparr>to_client = 1 # frame, to_upstream = [], up_counter = up, down_counter = down\<rparr>) \<and>
    read_limited frame MAX_MESSAGE_LENGTH ''message'' = Ok (as_bytes (show_io_error error), t)"
proof -
  obtain stream where s: "read_varint out = Ok (FRAME_TYPE_TCP_REQUEST, stream)"
    "read_tcp_request (env_chunk env) stream =
       Ok (\<lparr>req_destination = dest, req_payload = take (env_chunk env) payload\<rparr>, drop (env_chunk env) payload)"
    using read_encoded_request [OF assms(1,2)] by blast
  have "length pad < 1024" using random_padding_ok [OF assms(3) _ assms(4)] by simp
  then have pad: "length pad \<le> MAX_PADDING_LENGTH" by simp
  obtain m where m: "\<And>out. write_bytes (as_bytes (show_io_error error)) out = Ok (out @ m)"
    "\<And>t mx f. length (show_io_error error) \<le> mx \<Longrightarrow> read_limited (m @ t) mx f = Ok (as_bytes (show_io_error error), t)"
    using write_bytes_field [of "as_bytes (show_io_error error)"] assms(6) by fastforce
  obtain q where "\<And>out. write_bytes pad out = Ok (out @ q)"
    using write_bytes_field [of pad] pad by fastforce
  then have "encode_response (env_random env) Status_Error (show_io_error error) = Ok (1 # m @ q)"
    using m(1) pad assms(3,6) by (simp add: encode_response_def TcpResponse_encode_def status_byte_def)
  then show ?thesis
    unfolding relay_tcp_stream_def Let_def using s assms(5,7,8) m(2) [OF assms(6)] by auto
qed

theorem tcp_relay_refused_witness:
  "\<exists>out frame. TcpRequest_encode ''a:1'' [] [1, 2, 3] = Ok out \<and>
     relay_tcp_stream (example_env (\<lambda>_. Err (OsError ''refused''))) out 0 0 [] =
       (Ok (), \<lparr>to_client = 1 # frame, to_upstream = [], up_counter = 0, down_counter = 0\<rparr>)"
proof -
  let ?env = "example_env (\<lambda>_. Err (OsError ''refused''))"
  have e: "TcpRequest_encode ''a:1'' [] [1, 2, 3] = Ok [0x44, 1, 3, 97, 58, 49, 0, 1, 2, 3]" by code_simp
  have v: "valid_str ''a:1''" by code_simp
  obtain pad where pad: "random_padding (env_random ?env) 128 1024 = Ok pad" using example_env_padding by blast
  have fill: "rng_fill (env_random ?env) n = Some bs \<Longrightarrow> length bs = n" for n bs by (auto simp: example_env_def)
  have c: "env_connect ?env ''a:1'' = Err (OsError ''refused'')" "env_response_write ?env = Ok ()" "env_finish ?env = Ok ()"
    by (simp_all add: example_env_def)
  from tcp_relay_refused [OF e v pad fill c(1) _ c(2,3)] e show ?thesis by fastforce
qed

end
