(* ===== verification/Udp_Codec.thy ===== *)
theory Udp_Codec
  imports Tcp_Codec
begin

text \<open>
  HY2 UDP datagrams, \<^verbatim>\<open>src/src/protocol/udp.rs\<close> up to the reassembler: the fixed header, the
  destination field, the payload, and the two fragmenting encoders.
\<close>

datatype UdpCodecError =
    Udp_Truncated
  | InvalidDestination nat
  | PayloadTooLarge
  | InvalidFragment
  | DatagramLimitTooSmall
  | Udp_VarInt VarIntError

record UdpMessage =
  session_id :: u32
  packet_id :: u16
  fragment_id :: u8
  fragment_count :: u8
  udp_destination :: string
  udp_payload :: bytes

definition UdpMessage_decode :: "bytes \<Rightarrow> UdpCodecError + UdpMessage" where
  "UdpMessage_decode input =
     (if length input < 9 then Err Udp_Truncated
      else
        let session = from_be_bytes (take 4 input);
            packet = from_be_bytes (take 2 (drop 4 input));
            frag = input ! 6;
            count = input ! 7;
            tail = drop 8 input
        in and_then (map_err Udp_VarInt (decode_varint tail)) (\<lambda>(v, tail).
           let destination_length = unat v in
           if destination_length = 0 \<or> destination_length > MAX_ADDRESS_LENGTH
           then Err (InvalidDestination destination_length)
           else if length tail < destination_length then Err Udp_Truncated
           else
             let dest = from_utf8_lossy (take destination_length tail);
                 payload = drop destination_length tail
             in if length payload > MAX_UDP_SIZE then Err PayloadTooLarge
                else Ok \<lparr>session_id = session, packet_id = packet, fragment_id = frag,
                         fragment_count = count, udp_destination = dest,
                         udp_payload = payload\<rparr>))"

definition validate_message :: "string \<Rightarrow> bytes \<Rightarrow> UdpCodecError + unit" where
  "validate_message dest payload =
     (if dest = [] \<or> length dest > MAX_ADDRESS_LENGTH then Err (InvalidDestination (length dest))
      else if length payload > MAX_UDP_SIZE then Err PayloadTooLarge
      else Ok ())"

definition encode_fragment ::
  "u32 \<Rightarrow> u16 \<Rightarrow> u8 \<Rightarrow> u8 \<Rightarrow> string \<Rightarrow> bytes \<Rightarrow> UdpCodecError + bytes" where
  "encode_fragment session packet frag count dest payload =
     and_then (validate_message dest payload) (\<lambda>_.
     let out = be_bytes 4 session @ be_bytes 2 packet @ [frag] @ [count] in
     and_then (map_err Udp_VarInt (encode_varint (word_of_nat (length dest)) out)) (\<lambda>out.
     Ok (out @ as_bytes dest @ payload)))"

definition UdpMessage_encode :: "UdpMessage \<Rightarrow> UdpCodecError + bytes" where
  "UdpMessage_encode m =
     encode_fragment (session_id m) (packet_id m) (fragment_id m) (fragment_count m)
       (udp_destination m) (udp_payload m)"

definition header_size :: "string \<Rightarrow> nat" where
  "header_size dest = 8 + varint_size (word_of_nat (length dest)) + length dest"

text \<open>\<^verbatim>\<open>maximum_datagram_size.checked_sub(header_size).filter(|size| *size > 0)\<close>.\<close>

definition payload_per_fragment :: "nat \<Rightarrow> string \<Rightarrow> nat option" where
  "payload_per_fragment maximum dest =
     (case checked_sub maximum (header_size dest) of
        None \<Rightarrow> None | Some per \<Rightarrow> if per > 0 then Some per else None)"

definition encode_fragments ::
  "u32 \<Rightarrow> u16 \<Rightarrow> string \<Rightarrow> bytes \<Rightarrow> nat \<Rightarrow> UdpCodecError + bytes list" where
  "encode_fragments session packet dest payload maximum =
     and_then (validate_message dest payload) (\<lambda>_.
     and_then (ok_or (payload_per_fragment maximum dest) DatagramLimitTooSmall) (\<lambda>per.
     let count = max (div_ceil (length payload) per) 1 in
     if count > 255 then Err InvalidFragment
     else if payload = [] then
       and_then (encode_fragment session packet 0 1 dest payload) (\<lambda>f. Ok [f])
     else
       collect_results
         (map (\<lambda>(i, fragment).
                 encode_fragment session packet (word_of_nat i) (word_of_nat count) dest fragment)
            (enumerate 0 (chunks per payload)))))"

text \<open>\<^verbatim>\<open>UdpMessage::fragment\<close>.\<close>

definition UdpMessage_fragment :: "UdpMessage \<Rightarrow> nat \<Rightarrow> UdpCodecError + UdpMessage list" where
  "UdpMessage_fragment m maximum =
     and_then (ok_or (payload_per_fragment maximum (udp_destination m)) DatagramLimitTooSmall)
       (\<lambda>per.
     if length (udp_payload m) \<le> per then Ok [m]
     else
       let count = div_ceil (length (udp_payload m)) per in
       if count > 255 then Err InvalidFragment
       else Ok (map (\<lambda>(i, payload).
                   \<lparr>session_id = session_id m, packet_id = packet_id m,
                    fragment_id = word_of_nat i, fragment_count = word_of_nat count,
                    udp_destination = udp_destination m, udp_payload = payload\<rparr>)
               (enumerate 0 (chunks per (udp_payload m)))))"

section \<open>Lemmas\<close>

text \<open>What \<open>validate_message\<close> accepts.\<close>

definition message_ok :: "string \<Rightarrow> bytes \<Rightarrow> bool" where
  "message_ok dest payload =
     (dest \<noteq> [] \<and> length dest \<le> MAX_ADDRESS_LENGTH \<and> length payload \<le> MAX_UDP_SIZE)"

lemma validate_message_ok [simp]: "message_ok dest payload \<Longrightarrow> validate_message dest payload = Ok ()"
  by (simp add: message_ok_def validate_message_def)

lemma validate_message_eq_Ok [result_simps]:
  "validate_message dest payload = Ok u \<longleftrightarrow> message_ok dest payload"
  by (auto simp: message_ok_def validate_message_def)

lemma message_ok_shorter:
  "message_ok dest payload \<Longrightarrow> length fragment \<le> length payload \<Longrightarrow> message_ok dest fragment"
  by (simp add: message_ok_def)

lemma encode_fragment_layout:
  assumes "message_ok dest payload"
  shows "\<exists>l. length l = varint_size (word_of_nat (length dest)) \<and>
    encode_fragment session packet frag count dest payload =
      Ok (be_bytes 4 session @ be_bytes 2 packet @ [frag, count] @ l @ as_bytes dest @ payload) \<and>
    (\<forall>t. decode_varint (l @ t) = Ok (word_of_nat (length dest), t))"
proof -
  have "varint_valid (word_of_nat (length dest))"
    using assms by (simp add: varint_valid_def message_ok_def unat_word_of_length)
  then obtain l where l: "length l = varint_size (word_of_nat (length dest))"
    "\<And>out. encode_varint (word_of_nat (length dest)) out = Ok (out @ l)"
    "\<And>t. decode_varint (l @ t) = Ok (word_of_nat (length dest), t)"
    using varint.enc_dec by blast
  then show ?thesis
    using assms by (intro exI [of _ l]) (simp add: encode_fragment_def)
qed

lemma encode_fragment_length:
  assumes "encode_fragment session packet frag count dest payload = Ok out"
  shows "length out = header_size dest + length payload"
proof -
  have "message_ok dest payload"
    using assms by (simp add: encode_fragment_def result_simps)
  then obtain l where "length l = varint_size (word_of_nat (length dest))"
    "encode_fragment session packet frag count dest payload =
      Ok (be_bytes 4 session @ be_bytes 2 packet @ [frag, count] @ l @ as_bytes dest @ payload)"
    using encode_fragment_layout by metis
  with assms show ?thesis by (auto simp: header_size_def)
qed

lemma decode_encode_fragment:
  assumes "message_ok dest payload" "valid_str dest"
  shows "\<exists>out. encode_fragment session packet frag count dest payload = Ok out \<and>
    length out = header_size dest + length payload \<and>
    UdpMessage_decode out =
      Ok \<lparr>session_id = session, packet_id = packet, fragment_id = frag, fragment_count = count,
          udp_destination = dest, udp_payload = payload\<rparr>"
proof -
  obtain l where l: "length l = varint_size (word_of_nat (length dest))"
    "encode_fragment session packet frag count dest payload =
      Ok (be_bytes 4 session @ be_bytes 2 packet @ [frag, count] @ l @ as_bytes dest @ payload)"
    "\<And>t. decode_varint (l @ t) = Ok (word_of_nat (length dest), t)"
    using encode_fragment_layout [OF assms(1)] by metis
  let ?out = "be_bytes 4 session @ be_bytes 2 packet @ [frag, count] @ l @ as_bytes dest @ payload"
  have d: "0 < length dest" "length dest \<le> MAX_ADDRESS_LENGTH" "length payload \<le> MAX_UDP_SIZE"
    using assms(1) by (auto simp: message_ok_def)
  have len: "unat (word_of_nat (length dest) :: u64) = length dest"
    using d by (simp add: unat_word_of_length)
  have parts: "take 4 ?out = be_bytes 4 session" "take 2 (drop 4 ?out) = be_bytes 2 packet"
    "?out ! 6 = frag" "?out ! 7 = count" "drop 8 ?out = l @ as_bytes dest @ payload"
    by (simp_all add: nth_append)
  have "length ?out = 8 + length l + length dest + length payload" by simp
  then have "9 \<le> length ?out" using d(1) by linarith
  then have "UdpMessage_decode ?out =
      Ok \<lparr>session_id = session, packet_id = packet, fragment_id = frag, fragment_count = count,
          udp_destination = dest, udp_payload = payload\<rparr>"
    unfolding UdpMessage_decode_def parts
    using d assms(2) by (simp add: l(3) len from_be_bytes_be_bytes Let_def)
  then show ?thesis using l(1,2) by (auto simp: header_size_def)
qed

lemma payload_per_fragment_simps [simp]:
  "header_size dest < maximum \<Longrightarrow>
     payload_per_fragment maximum dest = Some (maximum - header_size dest)"
  "maximum \<le> header_size dest \<Longrightarrow> payload_per_fragment maximum dest = None"
  by (auto simp: payload_per_fragment_def checked_sub_def)

lemma payload_per_fragment_eq_Some [result_simps]:
  "payload_per_fragment maximum dest = Some per \<longleftrightarrow>
     header_size dest < maximum \<and> per = maximum - header_size dest"
  by (cases "header_size dest < maximum") auto

text \<open>The messages a list of payload pieces stands for, numbered from zero.\<close>

definition fragments_of :: "u32 \<Rightarrow> u16 \<Rightarrow> string \<Rightarrow> bytes list \<Rightarrow> UdpMessage list" where
  "fragments_of session packet dest pieces =
     map (\<lambda>(i, piece).
            \<lparr>session_id = session, packet_id = packet, fragment_id = word_of_nat i,
             fragment_count = word_of_nat (length pieces), udp_destination = dest,
             udp_payload = piece\<rparr>) (enumerate 0 pieces)"

lemma length_fragments_of [simp]: "length (fragments_of s p d pieces) = length pieces"
  by (simp add: fragments_of_def)

lemma nth_fragments_of [simp]:
  "i < length pieces \<Longrightarrow> fragments_of s p d pieces ! i =
     \<lparr>session_id = s, packet_id = p, fragment_id = word_of_nat i,
      fragment_count = word_of_nat (length pieces), udp_destination = d, udp_payload = pieces ! i\<rparr>"
  by (simp add: fragments_of_def nth_enumerate_eq)

lemma payloads_fragments_of [simp]: "map udp_payload (fragments_of s p d pieces) = pieces"
  by (rule nth_equalityI) simp_all

text \<open>The payload pieces of \<open>encode_fragments\<close>: an empty payload is one empty piece.\<close>

definition fragment_pieces :: "nat \<Rightarrow> bytes \<Rightarrow> bytes list" where
  "fragment_pieces per payload = (if payload = [] then [[]] else chunks per payload)"

lemma fragment_pieces:
  assumes "0 < per"
  shows "fragment_pieces per payload \<noteq> []" "concat (fragment_pieces per payload) = payload"
    "length (fragment_pieces per payload) = max (div_ceil (length payload) per) 1"
    "x \<in> set (fragment_pieces per payload) \<Longrightarrow> length x \<le> per \<and> length x \<le> length payload"
proof -
  show ne: "fragment_pieces per payload \<noteq> []" and cc: "concat (fragment_pieces per payload) = payload"
    using assms by (simp_all add: fragment_pieces_def concat_chunks)
  show "length (fragment_pieces per payload) = max (div_ceil (length payload) per) 1"
  proof (cases "payload = []")
    case True
    then show ?thesis by (simp add: fragment_pieces_def div_ceil_def)
  next
    case False
    moreover have "1 \<le> length (fragment_pieces per payload)"
      using ne by (cases "fragment_pieces per payload") simp_all
    ultimately show ?thesis using assms by (simp add: fragment_pieces_def length_chunks)
  qed
  assume x: "x \<in> set (fragment_pieces per payload)"
  then have "length x \<le> length payload" using length_le_concat [OF x] cc by simp
  moreover have "length x \<le> per"
    using x in_chunks [OF assms, of x payload] by (auto simp: fragment_pieces_def split: if_splits)
  ultimately show "length x \<le> per \<and> length x \<le> length payload" by simp
qed

lemma encode_fragments_collect:
  assumes "message_ok dest payload" "header_size dest < maximum"
  shows "encode_fragments session packet dest payload maximum =
    (let pieces = fragment_pieces (maximum - header_size dest) payload in
     if length pieces > 255 then Err InvalidFragment
     else collect_results (map (\<lambda>(i, x).
       encode_fragment session packet (word_of_nat i) (word_of_nat (length pieces)) dest x)
       (enumerate 0 pieces)))"
proof -
  have per: "0 < maximum - header_size dest" using assms(2) by simp
  have cnt: "max (div_ceil (length payload) (maximum - header_size dest)) 1 =
      length (fragment_pieces (maximum - header_size dest) payload)"
    by (rule fragment_pieces(3) [OF per, symmetric])
  show ?thesis
  proof (cases "payload = []")
    case True
    with assms cnt show ?thesis
      by (simp add: encode_fragments_def Let_def fragment_pieces_def)
  next
    case False
    then have "fragment_pieces (maximum - header_size dest) payload =
        chunks (maximum - header_size dest) payload"
      by (simp add: fragment_pieces_def)
    with False assms show ?thesis
      by (simp add: encode_fragments_def Let_def cnt del: One_nat_def)
  qed
qed

lemma encode_fragments_Ok:
  assumes "encode_fragments session packet dest payload maximum = Ok frames"
  shows "message_ok dest payload" "header_size dest < maximum"
  using assms by (auto simp: encode_fragments_def result_simps Let_def split: if_splits)

lemma encode_fragments_total:
  assumes ok: "message_ok dest payload" and big: "header_size dest < maximum"
    and n: "length (fragment_pieces (maximum - header_size dest) payload) \<le> 255"
  shows "\<exists>frames. encode_fragments session packet dest payload maximum = Ok frames"
proof -
  let ?ps = "fragment_pieces (maximum - header_size dest) payload"
  let ?enc = "\<lambda>(i, x). encode_fragment session packet (word_of_nat i) (word_of_nat (length ?ps)) dest x"
  have "\<exists>out. r = Ok out" if r: "r \<in> set (map ?enc (enumerate 0 ?ps))" for r
  proof -
    obtain q where q: "q \<in> set (enumerate 0 ?ps)" "r = ?enc q" using r unfolding set_map by blast
    obtain i x where ix: "q = (i, x)" by fastforce
    have x: "x \<in> set ?ps"
      "r = encode_fragment session packet (word_of_nat i) (word_of_nat (length ?ps)) dest x"
      using q unfolding ix by (auto simp: in_set_enumerate_eq)
    have "message_ok dest x" using fragment_pieces(4) [OF _ x(1)] big ok message_ok_shorter by fastforce
    then show ?thesis using encode_fragment_layout x(2) by metis
  qed
  then have "collect_results (map ?enc (enumerate 0 ?ps)) = Ok (map projr (map ?enc (enumerate 0 ?ps)))"
    by (intro collect_results_all_Ok) blast
  then show ?thesis unfolding encode_fragments_collect [OF ok big] using n by (simp add: Let_def)
qed

lemma encode_fragments_pieces:
  assumes v: "valid_str dest"
    and enc: "encode_fragments session packet dest payload maximum = Ok frames"
  defines "pieces \<equiv> fragment_pieces (maximum - header_size dest) payload"
  shows "length pieces \<le> 255" "\<forall>f \<in> set frames. length f \<le> maximum"
    "map UdpMessage_decode frames = map Ok (fragments_of session packet dest pieces)"
proof -
  note ok = encode_fragments_Ok [OF enc]
  have per: "0 < maximum - header_size dest" using ok(2) by simp
  let ?enc = "\<lambda>(i, x). encode_fragment session packet (word_of_nat i) (word_of_nat (length pieces)) dest x"
  show "length pieces \<le> 255"
    using enc unfolding encode_fragments_collect [OF ok] pieces_def by (auto simp: Let_def split: if_splits)
  then have frames: "collect_results (map ?enc (enumerate 0 pieces)) = Ok frames"
    using enc unfolding encode_fragments_collect [OF ok] pieces_def by (simp add: Let_def)
  have each: "\<exists>out. ?enc (i, x) = Ok out \<and> length out \<le> maximum \<and>
      UdpMessage_decode out = Ok \<lparr>session_id = session, packet_id = packet,
        fragment_id = word_of_nat i, fragment_count = word_of_nat (length pieces),
        udp_destination = dest, udp_payload = x\<rparr>" if "x \<in> set pieces" for i x
  proof -
    have "length x \<le> maximum - header_size dest" "message_ok dest x"
      using fragment_pieces(4) [OF per] that ok(1) message_ok_shorter
      unfolding pieces_def by blast+
    then show ?thesis
      using decode_encode_fragment [OF _ v, of x session packet "word_of_nat i"
          "word_of_nat (length pieces)"] ok(2) by fastforce
  qed
  have all: "\<forall>r \<in> set (map ?enc (enumerate 0 pieces)). \<exists>out. r = Ok out"
  proof
    fix r
    assume "r \<in> set (map ?enc (enumerate 0 pieces))"
    then obtain q where q: "q \<in> set (enumerate 0 pieces)" "r = ?enc q"
      unfolding set_map by blast
    obtain i x where "q = (i, x)" by fastforce
    with q each [of x i] show "\<exists>out. r = Ok out"
      by (auto simp: in_set_enumerate_eq)
  qed
  from frames have fr: "frames = map projr (map ?enc (enumerate 0 pieces))"
    by (simp only: collect_results_all_Ok [OF all] sum.inject)
  then have len: "length frames = length pieces" by simp
  have nth: "length (frames ! i) \<le> maximum \<and>
      UdpMessage_decode (frames ! i) = Ok (fragments_of session packet dest pieces ! i)"
    if "i < length pieces" for i
    using each [OF nth_mem [OF that], of i] that
    by (auto simp: fr nth_enumerate_eq simp del: map_map)
  show "\<forall>f \<in> set frames. length f \<le> maximum"
    using nth len by (metis in_set_conv_nth)
  show "map UdpMessage_decode frames = map Ok (fragments_of session packet dest pieces)"
    using nth len by (intro nth_equalityI) simp_all
qed

section \<open>Properties\<close>

text \<open>A datagram encoded by \<open>UdpMessage::encode\<close> decodes to the same message, header fields
  included; a message with an empty or oversized destination, or a payload of more than 4096
  bytes, is refused.\<close>

theorem udp_message_roundtrip:
  assumes "valid_str (udp_destination m)"
  shows "if message_ok (udp_destination m) (udp_payload m)
    then \<exists>out. UdpMessage_encode m = Ok out \<and> UdpMessage_decode out = Ok m
    else UdpMessage_encode m \<in> {Err (InvalidDestination (length (udp_destination m))), Err PayloadTooLarge}"
proof (cases "message_ok (udp_destination m) (udp_payload m)")
  case True
  with decode_encode_fragment [OF True assms] show ?thesis
    by (force simp: UdpMessage_encode_def)
next
  case False
  then show ?thesis
    by (auto simp: UdpMessage_encode_def encode_fragment_def validate_message_def message_ok_def)
qed

theorem udp_message_roundtrip_witness:
  "let m = \<lparr>session_id = 7, packet_id = 42, fragment_id = 0, fragment_count = 1,
            udp_destination = ''1.1.1.1:53'', udp_payload = [1, 2, 3]\<rparr>
   in valid_str (udp_destination m) \<and> (\<exists>out. UdpMessage_encode m = Ok out \<and> UdpMessage_decode out = Ok m)"
proof -
  let ?m = "\<lparr>session_id = 7, packet_id = 42, fragment_id = 0, fragment_count = 1,
            udp_destination = ''1.1.1.1:53'', udp_payload = [1, 2, 3]\<rparr>"
  have v: "valid_str (udp_destination ?m)" by code_simp
  have "message_ok (udp_destination ?m) (udp_payload ?m)" by (simp add: message_ok_def)
  with v udp_message_roundtrip [OF v] show ?thesis by (simp add: Let_def)
qed

text \<open>C5: every frame of \<open>encode_fragments\<close> fits the datagram limit and decodes; there are between 1
  and 255 of them, they carry the ids \<open>0, 1, \<dots>\<close> and their number, and their payloads
  concatenate to the original payload.\<close>

theorem encode_fragments_correct:
  assumes "valid_str dest" "encode_fragments session packet dest payload maximum = Ok frames"
  shows "\<exists>ms. map UdpMessage_decode frames = map Ok ms \<and>
    1 \<le> length ms \<and> length ms \<le> 255 \<and> concat (map udp_payload ms) = payload \<and>
    (\<forall>f \<in> set frames. length f \<le> maximum) \<and>
    (\<forall>i < length ms. session_id (ms ! i) = session \<and> packet_id (ms ! i) = packet \<and>
       unat (fragment_id (ms ! i)) = i \<and> unat (fragment_count (ms ! i)) = length ms \<and>
       udp_destination (ms ! i) = dest)"
proof -
  let ?ps = "fragment_pieces (maximum - header_size dest) payload"
  have per: "0 < maximum - header_size dest" using encode_fragments_Ok(2) [OF assms(2)] by simp
  note p = encode_fragments_pieces [OF assms]
  have "1 \<le> length ?ps" using fragment_pieces(1) [OF per, of payload] by (cases ?ps) simp_all
  moreover have "unat (word_of_nat i :: u8) = i" if "i \<le> 255" for i
    using that by (simp add: unat_of_nat)
  ultimately show ?thesis
    using p fragment_pieces(2) [OF per, of payload]
    by (intro exI [of _ "fragments_of session packet dest ?ps"]) auto
qed

theorem encode_fragments_correct_witness:
  "valid_str ''a'' \<and> encode_fragments 3 4 ''a'' [1, 2, 3, 4, 5] 12 =
     Ok [[0, 0, 0, 3, 0, 4, 0, 3, 1, 97, 1, 2], [0, 0, 0, 3, 0, 4, 1, 3, 1, 97, 3, 4],
         [0, 0, 0, 3, 0, 4, 2, 3, 1, 97, 5]] \<and>
   (\<exists>ms :: UdpMessage list. length ms = 3 \<and> concat (map udp_payload ms) = [1, 2, 3, 4, 5])"
proof -
  have v: "valid_str ''a''" by code_simp
  have e: "encode_fragments 3 4 ''a'' [1, 2, 3, 4, 5] 12 =
     Ok [[0, 0, 0, 3, 0, 4, 0, 3, 1, 97, 1, 2], [0, 0, 0, 3, 0, 4, 1, 3, 1, 97, 3, 4],
         [0, 0, 0, 3, 0, 4, 2, 3, 1, 97, 5]]"
    by code_simp
  obtain ms :: "UdpMessage list" where ms: "map UdpMessage_decode [[0, 0, 0, 3, 0, 4, 0, 3, 1, 97, 1, 2],
      [0, 0, 0, 3, 0, 4, 1, 3, 1, 97, 3, 4], [0, 0, 0, 3, 0, 4, 2, 3, 1, 97, 5]] = map Ok ms"
    "concat (map udp_payload ms) = [1, 2, 3, 4, 5]"
    using encode_fragments_correct [OF v e] by blast
  have "length ms = 3" using arg_cong [OF ms(1), of length] by simp
  with v e ms show ?thesis by blast
qed



end
