(* ===== verification/Udp_Reassembler.thy ===== *)
theory Udp_Reassembler
  imports Udp_Codec "HOL-Library.AList"
begin

text \<open>
  The reassembler of \<^verbatim>\<open>src/src/protocol/udp.rs\<close>: incomplete packets by session and packet id,
  expiry after ten seconds, eviction of the oldest packet when 1024 are incomplete. An
  \<^verbatim>\<open>Instant\<close> is a natural number of nanoseconds, so truncated subtraction is
  \<^verbatim>\<open>duration_since\<close>. The \<^verbatim>\<open>HashMap\<close> is an association list; which of several equally old
  packets \<^verbatim>\<open>iter().min_by_key(..)\<close> returns depends on the iteration order, so the choice is an
  argument (\<open>oldest\<close>) whose law is the locale \<open>eviction_policy\<close>.
\<close>

record PartialPacket =
  updated_at :: nat
  pp_destination :: string
  fragments :: "bytes option list"

type_synonym packet_key = "u32 \<times> u16"
type_synonym packets = "(packet_key \<times> PartialPacket) list"

abbreviation REASSEMBLY_TIMEOUT :: nat where "REASSEMBLY_TIMEOUT \<equiv> 10 * 10 ^ 9"
abbreviation MAX_INCOMPLETE_PACKETS :: nat where "MAX_INCOMPLETE_PACKETS \<equiv> 1024"

definition retain_fresh :: "nat \<Rightarrow> packets \<Rightarrow> packets" where
  "retain_fresh now ps = filter (\<lambda>(_, p). now - updated_at p < REASSEMBLY_TIMEOUT) ps"

definition flatten_options :: "'a option list \<Rightarrow> 'a list" where
  "flatten_options os = concat (map (\<lambda>x. case x of None \<Rightarrow> [] | Some y \<Rightarrow> [y]) os)"

text \<open>\<^verbatim>\<open>try_fold(0, checked_add).filter(|size| *size <= MAX_UDP_SIZE)\<close>.\<close>

definition payload_size :: "bytes list \<Rightarrow> nat option" where
  "payload_size fs =
     (case foldl (\<lambda>acc f. case acc of None \<Rightarrow> None
                   | Some acc_len \<Rightarrow> if acc_len + length f < 2 ^ 64 then Some (acc_len + length f) else None)
             (Some 0) fs of
        None \<Rightarrow> None
      | Some acc_len \<Rightarrow> if acc_len \<le> MAX_UDP_SIZE then Some acc_len else None)"

definition make_room :: "(packets \<Rightarrow> packet_key option) \<Rightarrow> packet_key \<Rightarrow> packets \<Rightarrow> packets" where
  "make_room oldest key ps =
     (if map_of ps key = None \<and> length ps \<ge> MAX_INCOMPLETE_PACKETS
      then (case oldest ps of None \<Rightarrow> ps | Some k \<Rightarrow> AList.delete k ps)
      else ps)"

definition push_at ::
  "(packets \<Rightarrow> packet_key option) \<Rightarrow> packets \<Rightarrow> UdpMessage \<Rightarrow> nat \<Rightarrow>
   (UdpCodecError + UdpMessage option) \<times> packets" where
  "push_at oldest packets message now =
     (let packets = retain_fresh now packets in
      if fragment_count message \<le> 1 then (Ok (Some message), packets)
      else if fragment_id message \<ge> fragment_count message then (Err InvalidFragment, packets)
      else
        let key = (session_id message, packet_id message);
            packets = make_room oldest key packets;
            partial = (case map_of packets key of
                Some p \<Rightarrow> p
              | None \<Rightarrow> \<lparr>updated_at = now, pp_destination = udp_destination message,
                         fragments = replicate (unat (fragment_count message)) None\<rparr>);
            packets = AList.update key partial packets
        in if pp_destination partial \<noteq> udp_destination message \<or>
              length (fragments partial) \<noteq> unat (fragment_count message)
           then (Err InvalidFragment, AList.delete key packets)
           else
             let partial = partial\<lparr>updated_at := now,
                   fragments := (fragments partial)[unat (fragment_id message) :=
                                  Some (udp_payload message)]\<rparr>;
                 packets = AList.update key partial packets
             in if None \<in> set (fragments partial) then (Ok None, packets)
                else
                  let packets = AList.delete key packets;
                      fs = flatten_options (fragments partial)
                  in case payload_size fs of
                       None \<Rightarrow> (Err PayloadTooLarge, packets)
                     | Some _ \<Rightarrow>
                         (Ok (Some \<lparr>session_id = fst key, packet_id = snd key, fragment_id = 0,
                            fragment_count = 1, udp_destination = pp_destination partial,
                            udp_payload = concat fs\<rparr>), packets))"

text \<open>\<^verbatim>\<open>min_by_key(|(_, partial)| partial.updated_at)\<close> over a given iteration order: the first minimum.\<close>

fun first_oldest :: "packets \<Rightarrow> packet_key option" where
  "first_oldest [] = None"
| "first_oldest ((k, p) # ps) =
     (case first_oldest ps of
        None \<Rightarrow> Some k
      | Some k' \<Rightarrow> (case map_of ps k' of
            None \<Rightarrow> Some k
          | Some p' \<Rightarrow> if updated_at p \<le> updated_at p' then Some k else Some k'))"

text \<open>A sequence of arrivals, with the result of each.\<close>

fun push_all ::
  "(packets \<Rightarrow> packet_key option) \<Rightarrow> packets \<Rightarrow> (UdpMessage \<times> nat) list \<Rightarrow>
   (UdpCodecError + UdpMessage option) list \<times> packets" where
  "push_all oldest ps [] = ([], ps)"
| "push_all oldest ps ((m, t) # xs) =
     (let (r, ps') = push_at oldest ps m t; (rs, ps'') = push_all oldest ps' xs
      in (r # rs, ps''))"

section \<open>Invariant\<close>

definition partial_ok :: "PartialPacket \<Rightarrow> bool" where
  "partial_ok p =
     (2 \<le> length (fragments p) \<and> length (fragments p) \<le> 255 \<and> None \<in> set (fragments p) \<and>
      (\<exists>x. Some x \<in> set (fragments p)) \<and>
      (\<forall>x. Some x \<in> set (fragments p) \<longrightarrow> length x \<le> MAX_UDP_SIZE))"

definition reassembler_inv :: "packets \<Rightarrow> bool" where
  "reassembler_inv ps =
     (distinct (map fst ps) \<and> length ps \<le> MAX_INCOMPLETE_PACKETS \<and>
      (\<forall>(k, p) \<in> set ps. partial_ok p))"

section \<open>Lemmas\<close>

lemma distinct_retain_fresh: "distinct (map fst ps) \<Longrightarrow> distinct (map fst (retain_fresh now ps))"
  by (simp add: retain_fresh_def distinct_map_filter)

lemma set_retain_fresh: "set (retain_fresh now ps) \<subseteq> set ps"
  by (auto simp: retain_fresh_def)

lemma length_retain_fresh: "length (retain_fresh now ps) \<le> length ps"
  by (simp add: retain_fresh_def)

lemma map_of_retain_fresh:
  assumes "distinct (map fst ps)"
  shows "map_of (retain_fresh now ps) k =
    (case map_of ps k of None \<Rightarrow> None
     | Some p \<Rightarrow> if now - updated_at p < REASSEMBLY_TIMEOUT then Some p else None)"
  using assms
proof (induction ps)
  case Nil
  then show ?case by (simp add: retain_fresh_def)
next
  case (Cons a ps)
  obtain k' p where a: "a = (k', p)" by fastforce
  have "k' \<notin> fst ` set ps" using Cons.prems a by simp
  then have "map_of ps k' = None" by (simp add: map_of_eq_None_iff)
  with Cons a show ?case by (auto simp: retain_fresh_def split: option.splits)
qed

lemma make_room_not_full [simp]:
  "length ps < MAX_INCOMPLETE_PACKETS \<Longrightarrow> make_room oldest k ps = ps"
  "map_of ps k \<noteq> None \<Longrightarrow> make_room oldest k ps = ps"
  by (auto simp: make_room_def)

lemma distinct_make_room: "distinct (map fst ps) \<Longrightarrow> distinct (map fst (make_room oldest k ps))"
  by (simp add: make_room_def distinct_delete split: option.split)

lemma set_make_room: "set (make_room oldest k ps) \<subseteq> set ps"
  by (auto simp: make_room_def AList.delete_eq split: option.split)

lemma length_update_le: "length (AList.update k v ps) \<le> Suc (length ps)"
  by (induction ps) auto

lemma length_update_present: "map_of ps k \<noteq> None \<Longrightarrow> length (AList.update k v ps) = length ps"
  by (induction ps) auto

lemma length_delete_present:
  assumes "map_of ps k \<noteq> None"
  shows "length (AList.delete k ps) < length ps"
proof -
  obtain v where "(k, v) \<in> set ps" using assms map_of_SomeD by fastforce
  then show ?thesis
    by (auto simp: AList.delete_eq intro: length_filter_less)
qed

lemma set_update_subset: "set (AList.update k v ps) \<subseteq> insert (k, v) (set ps)"
  by (induction ps) auto

lemma flatten_options_Some [simp]: "flatten_options (map (\<lambda>x. Some (f x)) xs) = map f xs"
  by (induction xs) (simp_all add: flatten_options_def)

lemma payload_size_small:
  assumes "length (concat fs) \<le> MAX_UDP_SIZE"
  shows "payload_size fs = Some (length (concat fs))"
proof -
  let ?step = "\<lambda>acc f. case acc of None \<Rightarrow> None
     | Some acc_len \<Rightarrow> if acc_len + length f < 2 ^ 64 then Some (acc_len + length f) else None"
  have "foldl ?step (Some a) fs = Some (a + length (concat fs))"
    if "a + length (concat fs) \<le> MAX_UDP_SIZE" for a
    using that by (induction fs arbitrary: a) (simp_all add: add.assoc)
  from this [of 0] assms show ?thesis by (simp add: payload_size_def)
qed

text \<open>\<open>push_at\<close> with the intermediate map updates contracted.\<close>

definition entry_of :: "packets \<Rightarrow> UdpMessage \<Rightarrow> nat \<Rightarrow> PartialPacket" where
  "entry_of ps m now =
     (case map_of ps (session_id m, packet_id m) of
        Some p \<Rightarrow> p
      | None \<Rightarrow> \<lparr>updated_at = now, pp_destination = udp_destination m,
                 fragments = replicate (unat (fragment_count m)) None\<rparr>)"

definition complete :: "UdpMessage \<Rightarrow> bytes option list \<Rightarrow> UdpCodecError + UdpMessage option" where
  "complete m fs =
     (case payload_size (flatten_options fs) of
        None \<Rightarrow> Err PayloadTooLarge
      | Some _ \<Rightarrow> Ok (Some \<lparr>session_id = session_id m, packet_id = packet_id m, fragment_id = 0,
           fragment_count = 1, udp_destination = udp_destination m,
           udp_payload = concat (flatten_options fs)\<rparr>))"

lemma push_at_fragment:
  fixes m :: UdpMessage and oldest :: "packets \<Rightarrow> packet_key option" and ps :: packets and now :: nat
  assumes "1 < fragment_count m" "fragment_id m < fragment_count m"
  defines "key \<equiv> (session_id m, packet_id m)"
  defines "ps2 \<equiv> make_room oldest key (retain_fresh now ps)"
  defines "fs \<equiv> (fragments (entry_of ps2 m now))[unat (fragment_id m) := Some (udp_payload m)]"
  shows "push_at oldest ps m now =
    (if pp_destination (entry_of ps2 m now) \<noteq> udp_destination m \<or>
        length (fragments (entry_of ps2 m now)) \<noteq> unat (fragment_count m)
     then (Err InvalidFragment, AList.delete key ps2)
     else if None \<in> set fs
     then (Ok None, AList.update key
            \<lparr>updated_at = now, pp_destination = udp_destination m, fragments = fs\<rparr> ps2)
     else (complete m fs, AList.delete key ps2))"
proof -
  have e: "(entry_of ps2 m now)\<lparr>updated_at := now, fragments := fs\<rparr> =
      \<lparr>updated_at = now, pp_destination = pp_destination (entry_of ps2 m now), fragments = fs\<rparr>"
    by simp
  have "\<not> fragment_count m \<le> 1" "\<not> fragment_id m \<ge> fragment_count m"
    using assms(1,2) by simp_all
  then show ?thesis
    unfolding push_at_def Let_def key_def [symmetric] ps2_def [symmetric]
      entry_of_def [of ps2 m now, folded key_def, symmetric] fs_def [symmetric]
    by (auto simp: e complete_def key_def AList.delete_update_same split: option.splits)
qed

lemma push_at_whole:
  "fragment_count m \<le> 1 \<Longrightarrow> push_at oldest ps m now = (Ok (Some m), retain_fresh now ps)"
  by (simp add: push_at_def)

lemma push_at_bad_id:
  "1 < fragment_count m \<Longrightarrow> fragment_count m \<le> fragment_id m \<Longrightarrow>
   push_at oldest ps m now = (Err InvalidFragment, retain_fresh now ps)"
  by (simp add: push_at_def Let_def not_le)

subsection \<open>The invariant\<close>

text \<open>The law of the eviction choice: a packet that was updated least recently.\<close>

locale eviction_policy =
  fixes oldest :: "packets \<Rightarrow> packet_key option"
  assumes oldest_min: "ps \<noteq> [] \<Longrightarrow> distinct (map fst ps) \<Longrightarrow>
    \<exists>k p. oldest ps = Some k \<and> map_of ps k = Some p \<and>
      (\<forall>(k', q) \<in> set ps. updated_at p \<le> updated_at q)"
begin

lemma make_room_length:
  assumes "distinct (map fst ps)" "length ps \<le> MAX_INCOMPLETE_PACKETS" "map_of ps key = None"
  shows "length (make_room oldest key ps) < MAX_INCOMPLETE_PACKETS"
proof (cases "length ps < MAX_INCOMPLETE_PACKETS")
  case True
  then show ?thesis by simp
next
  case False
  then have "ps \<noteq> []" by auto
  then obtain k p where "oldest ps = Some k" "map_of ps k = Some p"
    using oldest_min assms(1) by blast
  then have "make_room oldest key ps = AList.delete k ps" "length (AList.delete k ps) < length ps"
    using False assms(3) length_delete_present [of ps k] by (auto simp: make_room_def)
  with assms(2) show ?thesis by simp
qed

lemma make_room_evicts_oldest:
  assumes "distinct (map fst ps)" "(k, p) \<in> set ps" "(k, p) \<notin> set (make_room oldest key ps)"
  shows "\<forall>(k', q) \<in> set ps. updated_at p \<le> updated_at q"
proof -
  have "ps \<noteq> []" using assms(2) by auto
  then obtain k0 p0 where o: "oldest ps = Some k0" "map_of ps k0 = Some p0"
    "\<forall>(k', q) \<in> set ps. updated_at p0 \<le> updated_at q"
    using oldest_min assms(1) by blast
  with assms(2,3) have "k = k0"
    by (auto simp: make_room_def AList.delete_eq split: if_splits)
  with o(2) assms(1,2) have "p = p0" by (metis map_of_eq_Some_iff option.inject)
  with o(3) show ?thesis by simp
qed

end

lemma partial_fill_ok:
  assumes "2 \<le> length fs" "length fs \<le> 255" "i < length fs" "length x \<le> MAX_UDP_SIZE"
    and "\<forall>y. Some y \<in> set fs \<longrightarrow> length y \<le> MAX_UDP_SIZE" "None \<in> set (fs[i := Some x])"
  shows "partial_ok \<lparr>updated_at = t, pp_destination = d, fragments = fs[i := Some x]\<rparr>"
proof -
  have "Some x \<in> set (fs[i := Some x])" using assms(3) by (simp add: set_update_memI)
  moreover have "length y \<le> MAX_UDP_SIZE" if "Some y \<in> set (fs[i := Some x])" for y
    using set_update_subset_insert [of fs i "Some x"] that assms(4,5) by auto
  ultimately show ?thesis using assms by (auto simp: partial_ok_def)
qed

lemma reassembler_inv_delete: "reassembler_inv ps \<Longrightarrow> reassembler_inv (AList.delete k ps)"
  by (auto simp: reassembler_inv_def AList.delete_eq distinct_map_filter case_prod_unfold
      intro: le_trans [OF length_filter_le])

lemma reassembler_inv_retain: "reassembler_inv ps \<Longrightarrow> reassembler_inv (retain_fresh now ps)"
  using distinct_retain_fresh [of ps now] length_retain_fresh [of now ps] set_retain_fresh [of now ps]
  by (fastforce simp: reassembler_inv_def)

lemma reassembler_inv_update:
  assumes "distinct (map fst ps)" "\<forall>(k, p) \<in> set ps. partial_ok p" "partial_ok p"
    and "length ps \<le> MAX_INCOMPLETE_PACKETS"
    and "map_of ps key = None \<longrightarrow> length ps < MAX_INCOMPLETE_PACKETS"
  shows "reassembler_inv (AList.update key p ps)"
proof -
  have "length (AList.update key p ps) \<le> MAX_INCOMPLETE_PACKETS"
    using assms(4,5) length_update_le [of key p ps] length_update_present [of ps key p]
    by (cases "map_of ps key") auto
  moreover have "\<forall>(k, q) \<in> set (AList.update key p ps). partial_ok q"
    using set_update_subset [of key p ps] assms(2,3) by auto
  ultimately show ?thesis
    using assms(1) by (simp add: reassembler_inv_def distinct_update)
qed

text \<open>The entry \<open>push_at\<close> works on, when the map satisfies the invariant.\<close>

lemma entry_of_fragments:
  assumes "\<forall>(k, p) \<in> set ps. partial_ok p" "1 < fragment_count m"
    and "length (fragments (entry_of ps m now)) = unat (fragment_count m)"
  shows "2 \<le> length (fragments (entry_of ps m now))" "length (fragments (entry_of ps m now)) \<le> 255"
    "\<forall>y. Some y \<in> set (fragments (entry_of ps m now)) \<longrightarrow> length y \<le> MAX_UDP_SIZE"
proof -
  have "1 < unat (fragment_count m)" "unat (fragment_count m) < 256"
    using assms(2) unat_u8_less [of "fragment_count m"] by (simp_all add: word_less_nat_alt)
  with assms(3) show "2 \<le> length (fragments (entry_of ps m now))"
    "length (fragments (entry_of ps m now)) \<le> 255" by simp_all
  show "\<forall>y. Some y \<in> set (fragments (entry_of ps m now)) \<longrightarrow> length y \<le> MAX_UDP_SIZE"
    using assms(1) by (auto simp: entry_of_def partial_ok_def dest!: map_of_SomeD split: option.split)
qed

context eviction_policy
begin

lemma make_room_inv:
  assumes "reassembler_inv ps"
  shows "reassembler_inv (make_room oldest key ps)"
    "map_of (make_room oldest key ps) key = None \<Longrightarrow> length (make_room oldest key ps) < MAX_INCOMPLETE_PACKETS"
proof -
  show "reassembler_inv (make_room oldest key ps)"
    using assms reassembler_inv_delete by (auto simp: make_room_def split: option.split)
  assume "map_of (make_room oldest key ps) key = None"
  then show "length (make_room oldest key ps) < MAX_INCOMPLETE_PACKETS"
    using assms make_room_length [of ps key]
    by (cases "map_of ps key") (simp_all add: reassembler_inv_def)
qed

lemma push_at_inv:
  assumes inv: "reassembler_inv ps" and len: "length (udp_payload m) \<le> MAX_UDP_SIZE"
  shows "reassembler_inv (snd (push_at oldest ps m now))"
proof -
  consider "fragment_count m \<le> 1" | "1 < fragment_count m" "fragment_count m \<le> fragment_id m"
    | "1 < fragment_count m" "fragment_id m < fragment_count m" by fastforce
  then show ?thesis
  proof cases
    case 3
    define key where "key = (session_id m, packet_id m)"
    define ps2 where "ps2 = make_room oldest key (retain_fresh now ps)"
    have inv2: "reassembler_inv ps2" "map_of ps2 key = None \<Longrightarrow> length ps2 < MAX_INCOMPLETE_PACKETS"
      using make_room_inv [OF reassembler_inv_retain [OF inv]] by (simp_all add: ps2_def)
    let ?fs = "fragments (entry_of ps2 m now)"
    let ?p = "\<lparr>updated_at = now, pp_destination = udp_destination m,
               fragments = ?fs[unat (fragment_id m) := Some (udp_payload m)]\<rparr>"
    have "reassembler_inv (AList.update key ?p ps2)"
      if l: "length ?fs = unat (fragment_count m)"
        and n: "None \<in> set (?fs[unat (fragment_id m) := Some (udp_payload m)])"
    proof -
      have all: "\<forall>(k, p) \<in> set ps2. partial_ok p" using inv2(1) by (simp add: reassembler_inv_def)
      have "unat (fragment_id m) < length ?fs" using 3(2) l by (simp add: word_less_nat_alt)
      then have "partial_ok ?p"
        using partial_fill_ok entry_of_fragments [OF all 3(1) l] len n by blast
      with all inv2 show ?thesis
        by (intro reassembler_inv_update) (simp_all add: reassembler_inv_def)
    qed
    with inv2(1) show ?thesis
      unfolding push_at_fragment [OF 3] key_def [symmetric] ps2_def [symmetric]
      by (simp add: reassembler_inv_delete)
  qed (simp_all add: push_at_whole push_at_bad_id reassembler_inv_retain inv)
qed

end

lemma oldest_exists:
  assumes "ps \<noteq> []" "distinct (map fst ps)"
  shows "\<exists>k p. first_oldest ps = Some k \<and> map_of ps k = Some p \<and>
      (\<forall>(k', q) \<in> set ps. updated_at p \<le> updated_at q)"
  using assms
proof (induction ps rule: first_oldest.induct)
  case (2 k p ps)
  show ?case
  proof (cases "ps = []")
    case False
    with 2 obtain k' p' where "first_oldest ps = Some k'" "map_of ps k' = Some p'"
      "\<forall>(k', q) \<in> set ps. updated_at p' \<le> updated_at q" by auto
    moreover have "k \<noteq> k'" using 2(3) calculation(2) by (force dest: map_of_SomeD)
    ultimately show ?thesis by (cases "updated_at p \<le> updated_at p'") (auto dest: order_trans)
  qed simp
qed simp

interpretation first: eviction_policy first_oldest
  by unfold_locales (rule oldest_exists)

subsection \<open>Reassembly\<close>

text \<open>The fragment table of a packet cut into \<open>pieces\<close> of which those in \<open>I\<close> have arrived.\<close>

definition slots :: "bytes list \<Rightarrow> nat set \<Rightarrow> bytes option list" where
  "slots pieces I = map (\<lambda>i. if i \<in> I then Some (pieces ! i) else None) [0..<length pieces]"

lemma slots_insert:
  "i < length pieces \<Longrightarrow> (slots pieces I)[i := Some (pieces ! i)] = slots pieces (insert i I)"
  by (rule nth_equalityI) (auto simp: slots_def nth_list_update)

lemma length_slots [simp]: "length (slots pieces I) = length pieces"
  by (simp add: slots_def)

lemma slots_empty: "slots pieces {} = replicate (length pieces) None"
  by (simp add: slots_def map_replicate_const)

lemma None_in_slots: "None \<in> set (slots pieces I) \<longleftrightarrow> \<not> {..<length pieces} \<subseteq> I"
  by (auto simp: slots_def)

lemma flatten_slots: "{..<length pieces} \<subseteq> I \<Longrightarrow> flatten_options (slots pieces I) = pieces"
proof -
  assume "{..<length pieces} \<subseteq> I"
  then have "slots pieces I = map (\<lambda>i. Some (pieces ! i)) [0..<length pieces]"
    by (auto simp: slots_def)
  then show ?thesis by (simp add: map_nth)
qed

text \<open>The map while the packet \<open>key\<close> is being collected since time \<open>t0\<close>.\<close>

definition collecting ::
  "packets \<Rightarrow> packet_key \<Rightarrow> string \<Rightarrow> bytes list \<Rightarrow> nat \<Rightarrow> nat set \<Rightarrow> bool" where
  "collecting ps key dest pieces t0 I =
     (distinct (map fst ps) \<and>
      (if I = {} then map_of ps key = None
       else \<exists>u \<ge> t0. map_of ps key =
              Some \<lparr>updated_at = u, pp_destination = dest, fragments = slots pieces I\<rparr>))"

lemma collecting_retain:
  assumes "collecting ps key dest pieces t0 I" "now < t0 + REASSEMBLY_TIMEOUT"
  shows "collecting (retain_fresh now ps) key dest pieces t0 I"
  using assms by (auto simp: collecting_def distinct_retain_fresh map_of_retain_fresh split: if_splits)

lemma collecting_same_entry:
  "collecting ps key dest pieces t0 I \<Longrightarrow> distinct (map fst ps') \<Longrightarrow> map_of ps' key = map_of ps key \<Longrightarrow>
   collecting ps' key dest pieces t0 I"
  unfolding collecting_def by (elim conjE, intro conjI) (assumption, simp only:)

lemma collecting_push_other:
  assumes c: "collecting ps key dest pieces t0 I" and t: "now < t0 + REASSEMBLY_TIMEOUT"
    and k: "(session_id m, packet_id m) \<noteq> key" and l: "length ps < MAX_INCOMPLETE_PACKETS"
  shows "collecting (snd (push_at oldest ps m now)) key dest pieces t0 I \<and>
    length (snd (push_at oldest ps m now)) \<le> Suc (length ps)"
proof -
  let ?ps = "retain_fresh now ps"
  have c': "collecting ?ps key dest pieces t0 I" using collecting_retain c t by blast
  have l': "length ?ps \<le> length ps" by (rule length_retain_fresh)
  then have r: "make_room oldest key' ?ps = ?ps" for key' using l by simp
  have d: "distinct (map fst ?ps)" using c' by (simp add: collecting_def)
  consider "fragment_count m \<le> 1" | "1 < fragment_count m" "fragment_count m \<le> fragment_id m"
    | "1 < fragment_count m" "fragment_id m < fragment_count m" by fastforce
  then show ?thesis
  proof cases
    case 3
    have "collecting (AList.update (session_id m, packet_id m) p ?ps) key dest pieces t0 I" for p
      using collecting_same_entry [OF c'] k d by (simp add: distinct_update update_conv')
    moreover have "collecting (AList.delete (session_id m, packet_id m) ?ps) key dest pieces t0 I"
      using collecting_same_entry [OF c'] k d by (simp add: distinct_delete delete_conv')
    moreover have "length (AList.update (session_id m, packet_id m) p ?ps) \<le> Suc (length ps)" for p
      using length_update_le [of "(session_id m, packet_id m)" p ?ps] l' by simp
    moreover have "length (AList.delete (session_id m, packet_id m) ?ps) \<le> Suc (length ps)"
      using l' length_delete_le [of "(session_id m, packet_id m)" ?ps] by simp
    ultimately show ?thesis unfolding push_at_fragment [OF 3] r by simp
  qed (use c' l' in \<open>simp_all add: push_at_whole push_at_bad_id\<close>)
qed

lemma collecting_push_own:
  assumes c: "collecting ps (s, p) dest pieces t0 I" and t: "t0 \<le> now" "now < t0 + REASSEMBLY_TIMEOUT"
    and l: "length ps < MAX_INCOMPLETE_PACKETS"
    and n: "2 \<le> length pieces" "length pieces \<le> 255" and i: "i < length pieces"
    and sz: "length (concat pieces) \<le> MAX_UDP_SIZE"
  shows "\<exists>ps'. push_at oldest ps (fragments_of s p dest pieces ! i) now =
      (if {..<length pieces} \<subseteq> insert i I
       then (Ok (Some \<lparr>session_id = s, packet_id = p, fragment_id = 0, fragment_count = 1,
                       udp_destination = dest, udp_payload = concat pieces\<rparr>), ps')
       else (Ok None, ps')) \<and>
    length ps' \<le> Suc (length ps) \<and>
    (\<not> {..<length pieces} \<subseteq> insert i I \<longrightarrow> collecting ps' (s, p) dest pieces t0 (insert i I))"
proof -
  let ?m = "fragments_of s p dest pieces ! i" and ?ps = "retain_fresh now ps"
  have m: "session_id ?m = s" "packet_id ?m = p" "udp_destination ?m = dest" "udp_payload ?m = pieces ! i"
    "unat (fragment_id ?m) = i" "unat (fragment_count ?m) = length pieces"
    using i n by (simp_all add: unat_of_nat)
  then have f: "1 < fragment_count ?m" "fragment_id ?m < fragment_count ?m"
    using i n by (simp_all add: word_less_nat_alt)
  have c': "collecting ?ps (s, p) dest pieces t0 I" using collecting_retain c t by blast
  have l': "length ?ps \<le> length ps" by (rule length_retain_fresh)
  then have r: "make_room oldest key' ?ps = ?ps" for key' using l by simp
  have e: "fragments (entry_of ?ps ?m now) = slots pieces I"
    "pp_destination (entry_of ?ps ?m now) = dest"
    using c' by (auto simp: entry_of_def m collecting_def slots_empty split: if_splits)
  have fs: "(slots pieces I)[i := Some (pieces ! i)] = slots pieces (insert i I)"
    using slots_insert i by simp
  have fin: "complete ?m (slots pieces J) =
      Ok (Some \<lparr>session_id = s, packet_id = p, fragment_id = 0, fragment_count = 1,
                udp_destination = dest, udp_payload = concat pieces\<rparr>)"
    if "{..<length pieces} \<subseteq> J" for J
    using that sz by (simp add: complete_def flatten_slots payload_size_small m)
  have up: "collecting (AList.update (s, p) \<lparr>updated_at = now, pp_destination = dest,
      fragments = slots pieces (insert i I)\<rparr> ?ps) (s, p) dest pieces t0 (insert i I)"
    using c' t(1) by (simp add: collecting_def distinct_update update_conv')
  show ?thesis
    unfolding push_at_fragment [OF f] m r e fs length_slots None_in_slots
    using up fin l' length_update_le [of "(s, p)" _ ?ps] length_delete_le [of "(s, p)" ?ps]
    by (auto intro: order_trans)
qed

definition own :: "packet_key \<Rightarrow> UdpMessage \<Rightarrow> bool" where
  "own key m = ((session_id m, packet_id m) = key)"

definition arrived :: "packet_key \<Rightarrow> (UdpMessage \<times> nat) list \<Rightarrow> nat set" where
  "arrived key xs = (\<lambda>m. unat (fragment_id m)) ` {m \<in> fst ` set xs. own key m}"

lemma arrived_simps [simp]:
  "arrived key [] = {}"
  "arrived key ((m, t) # xs) =
     (if own key m then insert (unat (fragment_id m)) (arrived key xs) else arrived key xs)"
  by (auto simp: arrived_def)

lemma collecting_push_all:
  assumes "collecting ps (s, p) dest pieces t0 I"
    and "2 \<le> length pieces" "length pieces \<le> 255" "length (concat pieces) \<le> MAX_UDP_SIZE"
    and "\<forall>(m, t) \<in> set xs. t0 \<le> t \<and> t < t0 + REASSEMBLY_TIMEOUT"
    and "\<forall>m \<in> fst ` set xs. own (s, p) m \<longrightarrow> m \<in> set (fragments_of s p dest pieces)"
    and "length ps + length xs < MAX_INCOMPLETE_PACKETS"
    and "\<not> {..<length pieces} \<subseteq> I \<union> arrived (s, p) xs"
  shows "collecting (snd (push_all oldest ps xs)) (s, p) dest pieces t0 (I \<union> arrived (s, p) xs) \<and>
    length (snd (push_all oldest ps xs)) \<le> length ps + length xs \<and>
    (\<forall>k < length xs. own (s, p) (fst (xs ! k)) \<longrightarrow> fst (push_all oldest ps xs) ! k = Ok None)"
  using assms
proof (induction xs arbitrary: ps I)
  case (Cons a xs)
  obtain m t where a: "a = (m, t)" by fastforce
  obtain r ps' where push: "push_at oldest ps m t = (r, ps')" by fastforce
  define I' where "I' = (if own (s, p) m then insert (unat (fragment_id m)) I else I)"
  have u: "I' \<union> arrived (s, p) xs = I \<union> arrived (s, p) (a # xs)" by (auto simp: a I'_def)
  have t: "t0 \<le> t" "t < t0 + REASSEMBLY_TIMEOUT" and l: "length ps < MAX_INCOMPLETE_PACKETS"
    using Cons.prems by (auto simp: a)
  have step: "collecting ps' (s, p) dest pieces t0 I' \<and> length ps' \<le> Suc (length ps) \<and>
    (own (s, p) m \<longrightarrow> r = Ok None)"
  proof (cases "own (s, p) m")
    case True
    then obtain i where i: "i < length pieces" "m = fragments_of s p dest pieces ! i"
      using Cons.prems(6) by (auto simp: a in_set_conv_nth)
    then have id: "unat (fragment_id m) = i" using Cons.prems(3) by (simp add: unat_of_nat)
    have "\<not> {..<length pieces} \<subseteq> insert i I" using Cons.prems(8) True id by (auto simp: a)
    then show ?thesis
      using collecting_push_own [OF Cons.prems(1) t l Cons.prems(2,3) i(1) Cons.prems(4), of oldest]
        i(2) push True id by (auto simp: I'_def)
  next
    case False
    then show ?thesis
      using collecting_push_other [OF Cons.prems(1) t(2) _ l, of m oldest] push
      by (auto simp: own_def I'_def)
  qed
  have "length ps' + length xs < MAX_INCOMPLETE_PACKETS" using Cons.prems(7) step by simp
  then have "collecting (snd (push_all oldest ps' xs)) (s, p) dest pieces t0 (I' \<union> arrived (s, p) xs) \<and>
    length (snd (push_all oldest ps' xs)) \<le> length ps' + length xs \<and>
    (\<forall>k < length xs. own (s, p) (fst (xs ! k)) \<longrightarrow> fst (push_all oldest ps' xs) ! k = Ok None)"
    using Cons.IH [of ps' I'] Cons.prems step u by auto
  with step u push show ?case
    by (auto simp: a nth_Cons' split: prod.split)
qed simp

section \<open>Properties\<close>

text \<open>The states a reassembler passes through, with the clock of each push: messages come from the
  decoder, which bounds the payload.\<close>

inductive reassembler_reach :: "(packets \<Rightarrow> packet_key option) \<Rightarrow> packets \<Rightarrow> nat \<Rightarrow> bool"
  for oldest :: "packets \<Rightarrow> packet_key option" where
  start: "reassembler_reach oldest [] now"
| push: "reassembler_reach oldest ps now \<Longrightarrow> now \<le> now' \<Longrightarrow> UdpMessage_decode input = Ok m \<Longrightarrow>
    reassembler_reach oldest (snd (push_at oldest ps m now')) now'"

lemma UdpMessage_decode_payload:
  "UdpMessage_decode input = Ok m \<Longrightarrow> length (udp_payload m) \<le> MAX_UDP_SIZE"
  by (auto simp: UdpMessage_decode_def result_simps Let_def split: if_splits)

lemma set_push_at:
  "set (snd (push_at oldest ps m now)) \<subseteq> set (retain_fresh now ps) \<union> {(k, p). updated_at p = now}"
proof -
  have d: "set (AList.delete k' qs) \<subseteq> set qs" for k' :: packet_key and qs :: packets
    by (auto simp: AList.delete_eq)
  consider "fragment_count m \<le> 1" | "1 < fragment_count m" "fragment_count m \<le> fragment_id m"
    | "1 < fragment_count m" "fragment_id m < fragment_count m" by fastforce
  then show ?thesis
  proof cases
    case 3
    let ?key = "(session_id m, packet_id m)"
    let ?ps = "make_room oldest ?key (retain_fresh now ps)"
    have r: "set ?ps \<subseteq> set (retain_fresh now ps)" by (rule set_make_room)
    have "set (AList.delete ?key ?ps) \<subseteq> set (retain_fresh now ps)" using d r by blast
    moreover have "set (AList.update ?key \<lparr>updated_at = now, pp_destination = e, fragments = fs\<rparr> ?ps) \<subseteq>
        set (retain_fresh now ps) \<union> {(k, p). updated_at p = now}" for e fs
      using set_update_subset [of ?key "\<lparr>updated_at = now, pp_destination = e, fragments = fs\<rparr>" ?ps] r
      by auto
    ultimately show ?thesis
      unfolding push_at_fragment [OF 3] by (simp add: le_supI1)
  qed (simp_all add: push_at_whole push_at_bad_id)
qed

lemma fresh_after_push:
  "(k, p) \<in> set (snd (push_at oldest ps m now)) \<Longrightarrow> now - updated_at p < REASSEMBLY_TIMEOUT"
  using set_push_at [of oldest ps m now] by (auto simp: retain_fresh_def)

text \<open>C4: whatever datagrams arrive, the reassembler keeps at most 1024 incomplete packets, under
  distinct keys; each has between 2 and 255 fragment slots, at least one of them filled and one
  missing, no fragment longer than the UDP limit, and was updated less than ten seconds before
  the last push. The eviction choice may be any that returns a least recently updated packet.\<close>

theorem reassembler_invariant:
  assumes "eviction_policy oldest" "reassembler_reach oldest ps now"
  shows "reassembler_inv ps \<and> (\<forall>(k, p) \<in> set ps. now - updated_at p < REASSEMBLY_TIMEOUT)"
  using assms(2)
proof induction
  case (push ps now now' input m)
  then show ?case
    using eviction_policy.push_at_inv [OF assms(1)] UdpMessage_decode_payload fresh_after_push
    by fastforce
qed (simp add: reassembler_inv_def)

theorem reassembler_invariant_witness:
  "let ps = [((1, 2), \<lparr>updated_at = 5, pp_destination = ''a'', fragments = [None, Some [8]]\<rparr>)]
   in eviction_policy first_oldest \<and> reassembler_reach first_oldest ps 5 \<and> reassembler_inv ps"
proof -
  let ?ps = "[((1, 2), \<lparr>updated_at = 5, pp_destination = ''a'', fragments = [None, Some [8]]\<rparr>)] :: packets"
  let ?m = "\<lparr>session_id = 1, packet_id = 2, fragment_id = 1, fragment_count = 2,
             udp_destination = ''a'', udp_payload = [8]\<rparr> :: UdpMessage"
  have replicate_2: "replicate 2 x = [x, x]" for x :: "bytes option" by (simp add: numeral_2_eq_2)
  have "UdpMessage_decode [0, 0, 0, 1, 0, 2, 1, 2, 1, 97, 8] = Ok ?m" by code_simp
  from reassembler_reach.push [OF reassembler_reach.start [of first_oldest 3] _ this, of 5]
  have "reassembler_reach first_oldest (snd (push_at first_oldest [] ?m 5)) 5" by simp
  moreover have "snd (push_at first_oldest [] ?m 5) = ?ps"
    by (simp add: push_at_def retain_fresh_def make_room_def Let_def replicate_2 word_le_nat_alt)
  ultimately have "reassembler_reach first_oldest ?ps 5" by simp
  with reassembler_invariant [OF first.eviction_policy_axioms this] show ?thesis
    using first.eviction_policy_axioms by (simp add: Let_def)
qed

text \<open>C3: reassembly. The frames of one \<open>encode_fragments\<close> call may arrive in any order, with
  repetitions and mixed with messages of other packets; if all arrive within the timeout and the
  map does not fill up, every fragment before the last missing one yields nothing and that one
  yields the original message.\<close>

theorem reassembly_any_order:
  assumes "valid_str dest" "encode_fragments s p dest payload maximum = Ok frames"
    and "map UdpMessage_decode frames = map Ok ms"
    and "distinct (map fst ps)" "map_of ps (s, p) = None"
    and "length ps + length pre < MAX_INCOMPLETE_PACKETS"
    and "\<forall>(x, u) \<in> set (pre @ [(m, t)]). t0 \<le> u \<and> u < t0 + REASSEMBLY_TIMEOUT"
    and "m \<in> set ms" "{x \<in> fst ` set pre. own (s, p) x} = set ms - {m}"
  shows "(\<forall>k < length pre. own (s, p) (fst (pre ! k)) \<longrightarrow> fst (push_all oldest ps pre) ! k = Ok None) \<and>
    fst (push_at oldest (snd (push_all oldest ps pre)) m t) =
      Ok (Some \<lparr>session_id = s, packet_id = p, fragment_id = 0, fragment_count = 1,
                udp_destination = dest, udp_payload = payload\<rparr>)"
proof -
  define pieces where "pieces = fragment_pieces (maximum - header_size dest) payload"
  have ok: "message_ok dest payload" "0 < maximum - header_size dest"
    using encode_fragments_Ok [OF assms(2)] by simp_all
  have pc: "pieces \<noteq> []" "concat pieces = payload"
    using fragment_pieces(1,2) [OF ok(2), of payload] by (simp_all add: pieces_def)
  have n: "length pieces \<le> 255" and "map Ok ms = map Ok (fragments_of s p dest pieces)"
    using encode_fragments_pieces [OF assms(1,2)] assms(3) by (simp_all add: pieces_def)
  then have ms: "ms = fragments_of s p dest pieces" by (simp add: inj_def inj_map_eq_map)
  obtain i where i: "i < length pieces" "m = fragments_of s p dest pieces ! i"
    using assms(8) by (auto simp: ms in_set_conv_nth)
  show ?thesis
  proof (cases "length pieces = 1")
    case True
    then have m: "m = \<lparr>session_id = s, packet_id = p, fragment_id = 0, fragment_count = 1,
        udp_destination = dest, udp_payload = payload\<rparr>" "set ms = {m}"
      using pc(2) i by (auto simp: ms length_Suc_conv in_set_conv_nth)
    then have "{x \<in> fst ` set pre. own (s, p) x} = {}" using assms(9) by simp
    then have "\<not> own (s, p) (fst (pre ! k))" if "k < length pre" for k using that by auto
    with m(1) show ?thesis by (simp add: push_at_whole)
  next
    case False
    with pc(1) have two: "2 \<le> length pieces" by (cases pieces; cases "tl pieces") auto
    have ids: "unat (fragment_id (ms ! j)) = j" if "j < length pieces" for j
      using that n by (simp add: ms unat_of_nat)
    have arr: "arrived (s, p) pre = {..<length pieces} - {i}"
    proof -
      have "arrived (s, p) pre = (\<lambda>m. unat (fragment_id m)) ` (set ms - {m})"
        by (simp only: arrived_def assms(9))
      also have "set ms = (!) ms ` {..<length ms}" by (auto simp: in_set_conv_nth)
      also have "length ms = length pieces" by (simp add: ms)
      finally have "arrived (s, p) pre =
          (\<lambda>m. unat (fragment_id m)) ` ((!) ms ` {..<length pieces} - {ms ! i})" using i(2) ms by simp
      also have "(!) ms ` {..<length pieces} - {ms ! i} = (!) ms ` ({..<length pieces} - {i})"
        using ids i(1) by (auto simp: image_iff) metis
      finally show ?thesis using ids by (simp add: image_image)
    qed
    have "collecting ps (s, p) dest pieces t0 {}" using assms(4,5) by (simp add: collecting_def)
    moreover have "length (concat pieces) \<le> MAX_UDP_SIZE"
      using ok(1) pc(2) by (simp add: message_ok_def)
    moreover have "\<forall>x \<in> fst ` set pre. own (s, p) x \<longrightarrow> x \<in> set (fragments_of s p dest pieces)"
      using assms(9) ms by auto
    moreover have "\<not> {..<length pieces} \<subseteq> {} \<union> arrived (s, p) pre" using arr i(1) by auto
    ultimately have all: "collecting (snd (push_all oldest ps pre)) (s, p) dest pieces t0 (arrived (s, p) pre)"
      "length (snd (push_all oldest ps pre)) < MAX_INCOMPLETE_PACKETS"
      "\<forall>k < length pre. own (s, p) (fst (pre ! k)) \<longrightarrow> fst (push_all oldest ps pre) ! k = Ok None"
      using collecting_push_all [of ps s p dest pieces t0 "{}" pre oldest] two n assms(6,7) by auto
    have "t0 \<le> t" "t < t0 + REASSEMBLY_TIMEOUT" using assms(7) by auto
    moreover have "{..<length pieces} \<subseteq> insert i (arrived (s, p) pre)" using arr by auto
    ultimately show ?thesis
      using collecting_push_own [OF all(1) _ _ all(2) two n i(1) \<open>length (concat pieces) \<le> _\<close>, of t oldest]
        all(3) i(2) pc(2) by auto
  qed
qed

theorem reassembly_any_order_witness:
  "let f = (\<lambda>i x. \<lparr>session_id = 3, packet_id = 4, fragment_id = i, fragment_count = 3,
             udp_destination = ''a'', udp_payload = x\<rparr> :: UdpMessage);
       pre = [(f 2 [5], 10), (f 0 [1, 2], 11), ((f 0 [9])\<lparr>packet_id := 5\<rparr>, 12), (f 2 [5], 13)]
   in fst (push_at first_oldest (snd (push_all first_oldest [] pre)) (f 1 [3, 4]) 20) =
     Ok (Some \<lparr>session_id = 3, packet_id = 4, fragment_id = 0, fragment_count = 1,
               udp_destination = ''a'', udp_payload = [1, 2, 3, 4, 5]\<rparr>)"
proof -
  let ?f = "\<lambda>i x. \<lparr>session_id = 3, packet_id = 4, fragment_id = i, fragment_count = 3,
             udp_destination = ''a'', udp_payload = x\<rparr> :: UdpMessage"
  let ?pre = "[(?f 2 [5], 10), (?f 0 [1, 2], 11), ((?f 0 [9])\<lparr>packet_id := 5\<rparr>, 12), (?f 2 [5], 13)]"
  let ?ms = "[?f 0 [1, 2], ?f 1 [3, 4], ?f 2 [5]]"
  let ?frames = "[[0, 0, 0, 3, 0, 4, 0, 3, 1, 97, 1, 2], [0, 0, 0, 3, 0, 4, 1, 3, 1, 97, 3, 4],
     [0, 0, 0, 3, 0, 4, 2, 3, 1, 97, 5]] :: bytes list"
  have "valid_str ''a''" "encode_fragments 3 4 ''a'' [1, 2, 3, 4, 5] 12 = Ok ?frames"
    "map UdpMessage_decode ?frames = map Ok ?ms" by code_simp+
  moreover have "{x \<in> fst ` set ?pre. own (3, 4) x} = set ?ms - {?f 1 [3, 4]}"
    by (auto simp: own_def)
  ultimately show ?thesis
    unfolding Let_def
    using reassembly_any_order [of "''a''" 3 4 "[1, 2, 3, 4, 5]" 12 ?frames ?ms "[]" ?pre "?f 1 [3, 4]" 20 10 first_oldest]
    by simp
qed

text \<open>Isolation. A push for one packet leaves the entry of another unchanged, unless that one
  has expired, or the map was full and it was a least recently updated one: then exactly it is
  evicted.\<close>

theorem push_at_other_packets:
  assumes "eviction_policy oldest" "reassembler_inv ps" "(k, p) \<in> set ps" "k \<noteq> (session_id m, packet_id m)"
    and "(k, p) \<notin> set (snd (push_at oldest ps m now))"
  shows "now - updated_at p \<ge> REASSEMBLY_TIMEOUT \<or>
    length (retain_fresh now ps) = MAX_INCOMPLETE_PACKETS \<and>
    (\<forall>(k', q) \<in> set (retain_fresh now ps). updated_at p \<le> updated_at q)"
proof (cases "now - updated_at p < REASSEMBLY_TIMEOUT")
  case True
  let ?ps = "retain_fresh now ps" and ?key = "(session_id m, packet_id m)"
  have inv: "reassembler_inv ?ps" using assms(2) by (rule reassembler_inv_retain)
  then have d: "distinct (map fst ?ps)" "length ?ps \<le> MAX_INCOMPLETE_PACKETS"
    by (simp_all add: reassembler_inv_def)
  have kp: "(k, p) \<in> set ?ps" using True assms(3) by (auto simp: retain_fresh_def)
  then have frag: "1 < fragment_count m" "fragment_id m < fragment_count m"
    using assms(5) push_at_whole [of m oldest ps now] push_at_bad_id [of m oldest ps now]
    by (fastforce simp: not_le [symmetric])+
  have "(k, p) \<in> set qs \<Longrightarrow> (k, p) \<in> set (AList.delete ?key qs)"
    "(k, p) \<in> set qs \<Longrightarrow> (k, p) \<in> set (AList.update ?key v qs)" for qs :: packets and v
    using assms(4) by (auto simp: AList.delete_eq) (induction qs, auto)
  then have gone: "(k, p) \<notin> set (make_room oldest ?key ?ps)"
    using assms(5) unfolding push_at_fragment [OF frag] by (auto split: if_splits)
  then have "length ?ps \<ge> MAX_INCOMPLETE_PACKETS" using kp by (auto simp: make_room_def split: if_splits)
  with d eviction_policy.make_room_evicts_oldest [OF assms(1) d(1) kp gone] show ?thesis by simp
qed simp

theorem push_at_other_packets_witness:
  "let p = \<lparr>updated_at = 0, pp_destination = ''a'', fragments = [None, Some [8]]\<rparr>;
       m = \<lparr>session_id = 9, packet_id = 9, fragment_id = 0, fragment_count = 1,
            udp_destination = ''b'', udp_payload = []\<rparr>
   in ((1, 2), p) \<notin> set (snd (push_at first_oldest [((1, 2), p)] m (10 ^ 10))) \<and>
      10 ^ 10 - updated_at p \<ge> REASSEMBLY_TIMEOUT"
proof -
  let ?p = "\<lparr>updated_at = 0, pp_destination = ''a'', fragments = [None, Some [8]]\<rparr>"
  let ?m = "\<lparr>session_id = 9, packet_id = 9, fragment_id = 0, fragment_count = 1,
            udp_destination = ''b'', udp_payload = []\<rparr> :: UdpMessage"
  have "reassembler_inv [((1, 2), ?p)]" by (auto simp: reassembler_inv_def partial_ok_def)
  moreover have gone: "((1, 2), ?p) \<notin> set (snd (push_at first_oldest [((1, 2), ?p)] ?m (10 ^ 10)))"
    by (simp add: push_at_whole retain_fresh_def)
  ultimately show ?thesis
    unfolding Let_def
    using push_at_other_packets [OF first.eviction_policy_axioms, of "[((1, 2), ?p)]" "(1, 2)" ?p ?m "10 ^ 10"]
    by (simp add: retain_fresh_def)
qed

end
