(* ===== verification/Hy2_Udp.thy ===== *)
theory Hy2_Udp
  imports Udp_Reassembler Outbound
begin

text \<open>
  HY2 UDP sessions of \<^verbatim>\<open>src/src/server.rs\<close>: the datagram loop \<^verbatim>\<open>serve_udp_datagrams\<close>, the session table
  of \<^verbatim>\<open>get_udp_session\<close>, the receive task each session spawns, and the channel on which a task that
  ends reports its session. A session object (\<^verbatim>\<open>Arc<UdpSession>\<close>) is an address; the events of the
  three kinds of task may come in any order.
\<close>

record udp_state =
  sessions :: "u32 \<rightharpoonup> nat"
  session_of :: "nat \<Rightarrow> u32"
  next_packet_id :: "nat \<Rightarrow> u16"
  receiving :: "nat \<Rightarrow> bool"
  expirations :: "(u32 \<times> nat) list"
  next_session :: nat
  reassembly :: packets
  uploaded :: u64
  downloaded :: u64

definition udp_start :: "u64 \<Rightarrow> u64 \<Rightarrow> udp_state" where
  "udp_start up down = \<lparr>sessions = Map.empty, session_of = (\<lambda>_. 0), next_packet_id = (\<lambda>_. 0),
     receiving = (\<lambda>_. False), expirations = [], next_session = 0, reassembly = [],
     uploaded = up, downloaded = down\<rparr>"

section \<open>The datagram loop\<close>

text \<open>\<open>opened\<close> is the result of \<^verbatim>\<open>open_udp\<close> should a new session be needed; a new session's receive task
  starts at once.\<close>

definition get_udp_session ::
  "Outbound.io_error + unit \<Rightarrow> u32 \<Rightarrow> udp_state \<Rightarrow> string + nat \<times> udp_state" where
  "get_udp_session opened sid st =
     (case sessions st sid of
        Some a \<Rightarrow> Ok (a, st)
      | None \<Rightarrow>
          and_then (map_err (\<lambda>_. ''bind UDP session socket'') opened) (\<lambda>_.
          let a = next_session st in
          Ok (a, st\<lparr>sessions := (sessions st)(sid \<mapsto> a), session_of := (session_of st)(a := sid),
                    next_packet_id := (next_packet_id st)(a := 0), receiving := (receiving st)(a := True),
                    next_session := Suc a\<rparr>)))"

text \<open>What the loop does with one datagram: nothing yet, or one packet sent through a session.\<close>

datatype udp_action = Nothing | Sent nat bytes string

definition handle_datagram ::
  "(packets \<Rightarrow> packet_key option) \<Rightarrow> Outbound.io_error + unit \<Rightarrow> (bytes \<Rightarrow> string \<Rightarrow> Outbound.io_error + nat) \<Rightarrow>
   bytes \<Rightarrow> nat \<Rightarrow> udp_state \<Rightarrow> string + udp_action \<times> udp_state" where
  "handle_datagram oldest opened send datagram now st =
     and_then (map_err (\<lambda>_. ''decode HY2 UDP datagram'') (UdpMessage_decode datagram)) (\<lambda>fragment.
     let (r, ps) = push_at oldest (reassembly st) fragment now;
         st = st\<lparr>reassembly := ps\<rparr>
     in and_then (map_err (\<lambda>_. ''reassemble HY2 UDP datagram'') r) (\<lambda>m.
        case m of
          None \<Rightarrow> Ok (Nothing, st)
        | Some message \<Rightarrow>
            and_then (get_udp_session opened (session_id message) st) (\<lambda>(a, st).
            and_then (map_err (\<lambda>_. ''send UDP packet to '' @ udp_destination message)
                        (send (udp_payload message) (udp_destination message))) (\<lambda>_.
            Ok (Sent a (udp_payload message) (udp_destination message),
                st\<lparr>uploaded := uploaded st + word_of_nat (length (udp_payload message))\<rparr>)))))"

text \<open>One message of the expiration channel. The weak reference upgrades as long as the table or the
  task holds the session, in particular if the table still maps the identifier to it.\<close>

definition handle_expiration :: "udp_state \<Rightarrow> udp_state" where
  "handle_expiration st =
     (case expirations st of
        [] \<Rightarrow> st
      | (sid, a) # rest \<Rightarrow>
          let st = st\<lparr>expirations := rest\<rparr> in
          if sessions st sid = Some a then st\<lparr>sessions := (sessions st)(sid := None)\<rparr> else st)"

section \<open>The receive task\<close>

definition end_task :: "nat \<Rightarrow> udp_state \<Rightarrow> udp_state" where
  "end_task a st =
     st\<lparr>receiving := (receiving st)(a := False), expirations := expirations st @ [(session_of st a, a)]\<rparr>"

text \<open>The datagrams handed to the connection, up to the first that is refused.\<close>

fun send_fragments :: "(bytes \<Rightarrow> bool) \<Rightarrow> bytes list \<Rightarrow> bytes list \<times> bool" where
  "send_fragments accept [] = ([], True)"
| "send_fragments accept (f # fs) =
     (if accept f then let (sent, ok) = send_fragments accept fs in (f # sent, ok) else ([], False))"

definition receive_response ::
  "nat \<Rightarrow> (bytes \<Rightarrow> bool) \<Rightarrow> nat \<Rightarrow> Outbound.io_error + bytes \<times> SocketAddr \<Rightarrow> udp_state \<Rightarrow> bytes list \<times> udp_state" where
  "receive_response maximum accept a received st =
     (case received of
        Err _ \<Rightarrow> ([], end_task a st)
      | Ok (payload, source) \<Rightarrow>
          let packet = next_packet_id st a;
              st = st\<lparr>next_packet_id := (next_packet_id st)(a := packet + 1)\<rparr>
          in (case encode_fragments (session_of st a) packet (show_socket_addr source) payload maximum of
                Err _ \<Rightarrow> ([], st)
              | Ok frames \<Rightarrow>
                  let (sent, ok) = send_fragments accept frames in
                  if ok then (sent, st\<lparr>downloaded := downloaded st + word_of_nat (length payload)\<rparr>)
                  else (sent, end_task a st)))"

text \<open>The loop of \<^verbatim>\<open>serve_udp_datagrams\<close> beside the receive tasks of its sessions, as one sequence of events: a
  datagram of the connection or the error that ends it (with what the reassembler evicts, the socket that a new session
  opens, what sending does, and the time), an expiry message, or a result of a session's socket. The loop ends with the
  connection or with the first datagram it cannot handle; the result, what was sent, and the state.\<close>

datatype quic_error = ApplicationClosed | ConnectionClosed | LocallyClosed | OtherError string

datatype udp_event =
    Datagram "quic_error + bytes" "packets \<Rightarrow> packet_key option" "Outbound.io_error + unit"
      "bytes \<Rightarrow> string \<Rightarrow> Outbound.io_error + nat" nat
  | Expiration
  | Response nat "bytes \<Rightarrow> bool" nat "Outbound.io_error + bytes \<times> SocketAddr"

fun serve_udp_datagrams :: "udp_event list \<Rightarrow> udp_state \<Rightarrow> unit result option \<times> udp_action list \<times> udp_state" where
  "serve_udp_datagrams [] st = (None, [], st)"
| "serve_udp_datagrams (Datagram (Inl e) _ _ _ _ # es) st =
     (Some (case e of OtherError _ \<Rightarrow> Err ''receive QUIC datagram'' | _ \<Rightarrow> Ok ()), [], st)"
| "serve_udp_datagrams (Datagram (Inr d) oldest opened send now # es) st =
     (case handle_datagram oldest opened send d now st of
        Err e \<Rightarrow> (Some (Err e), [], st)
      | Ok (act, st) \<Rightarrow> let (r, acts, st) = serve_udp_datagrams es st in (r, act # acts, st))"
| "serve_udp_datagrams (Expiration # es) st = serve_udp_datagrams es (handle_expiration st)"
| "serve_udp_datagrams (Response maximum accept a received # es) st =
     serve_udp_datagrams es (if receiving st a then snd (receive_response maximum accept a received st) else st)"

section \<open>Reachable states\<close>

inductive udp_reach :: "udp_state \<Rightarrow> bool" where
  start: "udp_reach (udp_start up down)"
| datagram: "udp_reach st \<Longrightarrow> handle_datagram oldest opened send d now st = Ok (act, st') \<Longrightarrow> udp_reach st'"
| expire: "udp_reach st \<Longrightarrow> udp_reach (handle_expiration st)"
| response: "udp_reach st \<Longrightarrow> receiving st a \<Longrightarrow> receive_response maximum accept a r st = (sent, st') \<Longrightarrow> udp_reach st'"

definition udp_inv :: "udp_state \<Rightarrow> bool" where
  "udp_inv st =
     ((\<forall>sid a. sessions st sid = Some a \<longrightarrow>
         a < next_session st \<and> session_of st a = sid \<and> (receiving st a \<or> (sid, a) \<in> set (expirations st))) \<and>
      (\<forall>a. receiving st a \<longrightarrow> a < next_session st \<and> sessions st (session_of st a) = Some a) \<and>
      (\<forall>(sid, a) \<in> set (expirations st). a < next_session st \<and> \<not> receiving st a \<and> session_of st a = sid))"

section \<open>Lemmas\<close>

lemma udp_inv_start: "udp_inv (udp_start up down)"
  by (simp add: udp_inv_def udp_start_def)

lemma udp_inv_same:
  "udp_inv st \<Longrightarrow> udp_inv (st\<lparr>reassembly := ps\<rparr>)" "udp_inv st \<Longrightarrow> udp_inv (st\<lparr>uploaded := u\<rparr>)"
  "udp_inv st \<Longrightarrow> udp_inv (st\<lparr>downloaded := d\<rparr>)" "udp_inv st \<Longrightarrow> udp_inv (st\<lparr>next_packet_id := n\<rparr>)"
  by (simp_all add: udp_inv_def)

lemma get_udp_session_inv:
  assumes "udp_inv st" "get_udp_session opened sid st = Ok (a, st')"
  shows "udp_inv st' \<and> sessions st' sid = Some a"
proof (cases "sessions st sid")
  case None
  then have st': "st' = st\<lparr>sessions := (sessions st)(sid \<mapsto> a), session_of := (session_of st)(a := sid),
      next_packet_id := (next_packet_id st)(a := 0), receiving := (receiving st)(a := True),
      next_session := Suc a\<rparr>" "a = next_session st"
    using assms(2) by (auto simp: get_udp_session_def result_simps Let_def)
  then show ?thesis using assms(1) None by (fastforce simp: udp_inv_def)
qed (use assms in \<open>auto simp: get_udp_session_def\<close>)

lemma handle_datagram_cases:
  assumes "handle_datagram oldest opened send d now st = Ok (act, st')"
  obtains (held) fragment ps where "UdpMessage_decode d = Ok fragment"
      "push_at oldest (reassembly st) fragment now = (Ok None, ps)" "act = Nothing" "st' = st\<lparr>reassembly := ps\<rparr>"
  | (forwarded) fragment message ps a st2 where "UdpMessage_decode d = Ok fragment"
      "push_at oldest (reassembly st) fragment now = (Ok (Some message), ps)"
      "get_udp_session opened (session_id message) (st\<lparr>reassembly := ps\<rparr>) = Ok (a, st2)"
      "act = Sent a (udp_payload message) (udp_destination message)"
      "st' = st2\<lparr>uploaded := uploaded st2 + word_of_nat (length (udp_payload message))\<rparr>"
proof -
  from assms obtain fragment where f: "UdpMessage_decode d = Ok fragment"
    by (auto simp: handle_datagram_def result_simps)
  obtain r ps where p: "push_at oldest (reassembly st) fragment now = (r, ps)" by fastforce
  from assms f p obtain m where r: "r = Ok m" by (auto simp: handle_datagram_def result_simps Let_def)
  show thesis
  proof (cases m)
    case None
    with assms f p r have "act = Nothing" "st' = st\<lparr>reassembly := ps\<rparr>"
      by (simp_all add: handle_datagram_def Let_def)
    with None f p r held show thesis by blast
  next
    case (Some message)
    with assms f p r obtain a st2 where
      "get_udp_session opened (session_id message) (st\<lparr>reassembly := ps\<rparr>) = Ok (a, st2)"
      "act = Sent a (udp_payload message) (udp_destination message)"
      "st' = st2\<lparr>uploaded := uploaded st2 + word_of_nat (length (udp_payload message))\<rparr>"
      by (auto simp: handle_datagram_def result_simps Let_def)
    with Some f p r forwarded show thesis by blast
  qed
qed

lemma handle_datagram_inv:
  assumes "udp_inv st" "handle_datagram oldest opened send d now st = Ok (act, st')"
  shows "udp_inv st'"
  using assms(2)
proof (cases rule: handle_datagram_cases)
  case (forwarded fragment message ps a st2)
  then show ?thesis
    using get_udp_session_inv [OF udp_inv_same(1) [OF assms(1)] forwarded(3)] by (simp add: udp_inv_same)
qed (simp add: assms(1) udp_inv_same)

lemma handle_expiration_Cons:
  assumes "expirations st = (sid, a) # rest"
  shows "handle_expiration st = st\<lparr>expirations := rest,
    sessions := (if sessions st sid = Some a then (sessions st)(sid := None) else sessions st)\<rparr>"
  using assms by (simp add: handle_expiration_def Let_def)

lemma handle_expiration_inv:
  assumes inv: "udp_inv st"
  shows "udp_inv (handle_expiration st)"
proof (cases "expirations st")
  case (Cons e rest)
  obtain sid a where e: "e = (sid, a)" by fastforce
  have x: "\<not> receiving st a" "session_of st a = sid" using inv Cons e by (auto simp: udp_inv_def)
  let ?st = "st\<lparr>expirations := rest,
    sessions := (if sessions st sid = Some a then (sessions st)(sid := None) else sessions st)\<rparr>"
  show ?thesis
    unfolding handle_expiration_Cons [OF Cons [unfolded e]] udp_inv_def
  proof (intro conjI)
    show "\<forall>b c. sessions ?st b = Some c \<longrightarrow> c < next_session ?st \<and> session_of ?st c = b \<and>
        (receiving ?st c \<or> (b, c) \<in> set (expirations ?st))"
      using inv Cons e by (auto simp: udp_inv_def)
    show "\<forall>b. receiving ?st b \<longrightarrow> b < next_session ?st \<and> sessions ?st (session_of ?st b) = Some b"
    proof (intro allI impI)
      fix b
      assume "receiving ?st b"
      then have "b < next_session st \<and> sessions st (session_of st b) = Some b" "b \<noteq> a"
        using inv x(1) by (auto simp: udp_inv_def)
      then show "b < next_session ?st \<and> sessions ?st (session_of ?st b) = Some b" by auto
    qed
    show "\<forall>(b, c) \<in> set (expirations ?st). c < next_session ?st \<and> \<not> receiving ?st c \<and> session_of ?st c = b"
      using inv Cons by (auto simp: udp_inv_def)
  qed
qed (use inv in \<open>simp add: handle_expiration_def\<close>)

lemma end_task_inv:
  assumes "udp_inv st" "receiving st a"
  shows "udp_inv (end_task a st)"
  unfolding udp_inv_def
proof (intro conjI)
  show "\<forall>b c. sessions (end_task a st) b = Some c \<longrightarrow> c < next_session (end_task a st) \<and>
      session_of (end_task a st) c = b \<and> (receiving (end_task a st) c \<or> (b, c) \<in> set (expirations (end_task a st)))"
    using assms by (auto simp: udp_inv_def end_task_def)
  show "\<forall>b. receiving (end_task a st) b \<longrightarrow> b < next_session (end_task a st) \<and>
      sessions (end_task a st) (session_of (end_task a st) b) = Some b"
    using assms by (simp add: udp_inv_def end_task_def)
  show "\<forall>(b, c) \<in> set (expirations (end_task a st)). c < next_session (end_task a st) \<and>
      \<not> receiving (end_task a st) c \<and> session_of (end_task a st) c = b"
    using assms by (auto simp: udp_inv_def end_task_def)
qed

lemma receive_response_inv:
  assumes "udp_inv st" "receiving st a" "receive_response maximum accept a r st = (sent, st')"
  shows "udp_inv st'"
  using assms end_task_inv [of "st\<lparr>next_packet_id := n\<rparr>" a for n] end_task_inv [OF assms(1,2)] udp_inv_same(4) [OF assms(1)]
  by (auto simp: receive_response_def Let_def udp_inv_same split: sum.splits prod.splits if_splits)

lemma udp_reach_inv: "udp_reach st \<Longrightarrow> udp_inv st"
  by (induction rule: udp_reach.induct)
    (auto intro: udp_inv_start handle_datagram_inv handle_expiration_inv receive_response_inv)

lemma serve_udp_reach: "udp_reach st \<Longrightarrow> serve_udp_datagrams es st = (r, acts, st') \<Longrightarrow> udp_reach st'"
proof (induction es st arbitrary: acts rule: serve_udp_datagrams.induct)
  case (3 d oldest opened send now es st)
  then consider act st1 acts' where "handle_datagram oldest opened send d now st = Ok (act, st1)"
      "serve_udp_datagrams es st1 = (r, acts', st')" | "st' = st"
    by (auto split: sum.splits prod.splits)
  then show ?case
  proof cases
    case 1
    with 3 udp_reach.datagram [OF 3(2) 1(1)] show ?thesis by blast
  qed (use 3 in simp)
next
  case (5 maximum accept a received es st)
  obtain sent st1 where r: "receive_response maximum accept a received st = (sent, st1)" by fastforce
  have "udp_reach (if receiving st a then snd (receive_response maximum accept a received st) else st)"
    using 5(2) udp_reach.response [OF 5(2) _ r] r by simp
  from 5(1) [OF this] 5(3) show ?case by simp
qed (auto intro: udp_reach.expire)

text \<open>The loop ends well only with the connection. A datagram that cannot be decoded, reassembled or sent to its
  destination ends it with an error.\<close>

lemma serve_udp_Ok:
  "serve_udp_datagrams es st = (Some (Ok u), acts, st') \<Longrightarrow>
    \<exists>e oldest opened send now. Datagram (Inl e) oldest opened send now \<in> set es \<and> (\<forall>m. e \<noteq> OtherError m)"
  by (induction es st arbitrary: acts rule: serve_udp_datagrams.induct)
    (auto split: sum.splits prod.splits quic_error.splits, fastforce+)

lemma serve_udp_failure:
  "handle_datagram oldest opened send d now st = Err e \<Longrightarrow>
    serve_udp_datagrams (Datagram (Inr d) oldest opened send now # es) st = (Some (Err e), [], st)"
  by simp

lemma drain_expirations:
  assumes "udp_inv st"
  shows "udp_inv ((handle_expiration ^^ n) st) \<and> expirations ((handle_expiration ^^ n) st) = drop n (expirations st)"
proof (induction n)
  case (Suc n)
  have "expirations (handle_expiration st) = tl (expirations st)" for st
    by (cases "expirations st") (auto simp: handle_expiration_def Let_def split: prod.splits)
  with Suc show ?case by (simp add: handle_expiration_inv drop_Suc tl_drop)
qed (simp add: assms)

lemma send_fragments_all: "\<forall>f \<in> set fs. accept f \<Longrightarrow> send_fragments accept fs = (fs, True)"
  by (induction fs) simp_all

text \<open>A session the first datagram opens, and what happens to it. Between the end of a receive task and
  the handling of its message, the table still names the dead session: a datagram that arrives then
  is sent, but nobody reads the replies.\<close>

abbreviation example_datagram :: bytes where
  "example_datagram \<equiv> [0, 0, 0, 1, 0, 2, 0, 1, 1, 97, 8]"

lemma example_decode: "UdpMessage_decode example_datagram = Ok \<lparr>session_id = 1, packet_id = 2, fragment_id = 0,
    fragment_count = 1, udp_destination = ''a'', udp_payload = [8]\<rparr>"
  by code_simp

definition example_state :: udp_state where
  "example_state = (udp_start 0 0)\<lparr>sessions := [1 \<mapsto> 0], session_of := (\<lambda>_. 0)(0 := 1),
     receiving := (\<lambda>_. False)(0 := True), next_packet_id := (\<lambda>_. 0)(0 := 0), next_session := 1, uploaded := 1\<rparr>"

lemma example_step: "handle_datagram first_oldest (Ok ()) (\<lambda>_ _. Ok 1) example_datagram 0 (udp_start 0 0) =
    Ok (Sent 0 [8] ''a'', example_state)"
  by (simp add: handle_datagram_def example_decode push_at_whole retain_fresh_def get_udp_session_def
      udp_start_def example_state_def)

lemma example_state_reach: "udp_reach example_state"
  using example_step udp_reach.start udp_reach.datagram by blast

lemma stale_session_forwarding:
  "\<exists>st a d st'. udp_reach st \<and>
     handle_datagram first_oldest (Ok ()) (\<lambda>_ _. Ok 1) d 0 st = Ok (Sent a [8] ''a'', st') \<and> \<not> receiving st' a"
proof -
  have "receiving example_state 0" by (simp add: example_state_def)
  moreover have "receive_response 1200 (\<lambda>_. True) 0 (Err (TimedOut ''UDP session timed out'')) example_state =
      ([], end_task 0 example_state)"
    by (simp add: receive_response_def)
  ultimately have "udp_reach (end_task 0 example_state)"
    using example_state_reach udp_reach.response by blast
  moreover have "\<exists>st'. handle_datagram first_oldest (Ok ()) (\<lambda>_ _. Ok 1) example_datagram 0 (end_task 0 example_state) =
      Ok (Sent 0 [8] ''a'', st') \<and> \<not> receiving st' 0"
    by (simp add: handle_datagram_def example_decode push_at_whole retain_fresh_def get_udp_session_def
        udp_start_def example_state_def end_task_def)
  ultimately show ?thesis by blast
qed

section \<open>Properties\<close>

text \<open>C19: the session table. Whatever the order of datagrams, replies, timeouts and expiry messages in the loop of a
  connection,
  each session identifier has at most one receiving task and it is the one of the table's session;
  an expiry message never removes a younger session; and once the pending expiry messages are
  handled, every session in the table is live.\<close>

theorem udp_sessions_consistent:
  assumes "serve_udp_datagrams es (udp_start up down) = (result, actions, st)"
  defines "drained \<equiv> (handle_expiration ^^ length (expirations st)) st"
  shows "(\<forall>a. receiving st a \<longrightarrow> sessions st (session_of st a) = Some a) \<and>
    (\<forall>a b. receiving st a \<and> receiving st b \<and> session_of st a = session_of st b \<longrightarrow> a = b) \<and>
    (\<forall>a. receiving st a \<longrightarrow> sessions (handle_expiration st) (session_of st a) = Some a) \<and>
    expirations drained = [] \<and> (\<forall>sid a. sessions drained sid = Some a \<longrightarrow> receiving drained a)"
proof -
  have inv: "udp_inv st" using serve_udp_reach [OF udp_reach.start assms(1)] by (rule udp_reach_inv)
  have r: "\<forall>a. receiving st a \<longrightarrow> sessions st (session_of st a) = Some a" using inv by (simp add: udp_inv_def)
  moreover have "\<forall>a b. receiving st a \<and> receiving st b \<and> session_of st a = session_of st b \<longrightarrow> a = b"
    using r by (metis option.inject)
  moreover have "receiving (handle_expiration st) = receiving st" "session_of (handle_expiration st) = session_of st"
    by (auto simp: handle_expiration_def Let_def split: list.split prod.split)
  then have "\<forall>a. receiving st a \<longrightarrow> sessions (handle_expiration st) (session_of st a) = Some a"
    using handle_expiration_inv [OF inv] by (simp add: udp_inv_def)
  moreover have "udp_inv drained" "expirations drained = []"
    using drain_expirations [OF inv, of "length (expirations st)"] by (simp_all add: drained_def)
  moreover from this have "\<forall>sid a. sessions drained sid = Some a \<longrightarrow> receiving drained a"
    by (simp add: udp_inv_def)
  ultimately show ?thesis by blast
qed

theorem udp_sessions_consistent_witness:
  "serve_udp_datagrams [Datagram (Inr example_datagram) first_oldest (Ok ()) (\<lambda>_ _. Ok 1) 0] (udp_start 0 0) =
     (None, [Sent 0 [8] ''a''], example_state) \<and> receiving example_state 0 \<and>
   sessions (handle_expiration example_state) (session_of example_state 0) = Some 0"
proof -
  have run: "serve_udp_datagrams [Datagram (Inr example_datagram) first_oldest (Ok ()) (\<lambda>_ _. Ok 1) 0] (udp_start 0 0) =
     (None, [Sent 0 [8] ''a''], example_state)" using example_step by simp
  have "receiving example_state 0" by (simp add: example_state_def)
  with udp_sessions_consistent [OF run] run show ?thesis by blast
qed

text \<open>Replies. A datagram that a session's socket receives, of at most 4096 bytes and at most 255
  fragments at the connection's datagram limit, reaches the client as frames within that limit
  which decode to fragments of the session under one packet number, numbered in order, naming the
  sender's address, and whose payloads concatenate to the datagram; the next reply gets the next
  packet number.\<close>

theorem udp_reply_fragments:
  assumes "length payload \<le> MAX_UDP_SIZE" "header_size (show_socket_addr source) < maximum"
    and "div_ceil (length payload) (maximum - header_size (show_socket_addr source)) \<le> 255"
    and "\<forall>f. accept f"
  shows "\<exists>frames st' ms. receive_response maximum accept a (Ok (payload, source)) st = (frames, st') \<and>
    map UdpMessage_decode frames = map Ok ms \<and> (\<forall>f \<in> set frames. length f \<le> maximum) \<and>
    concat (map udp_payload ms) = payload \<and>
    (\<forall>i < length ms. session_id (ms ! i) = session_of st a \<and> packet_id (ms ! i) = next_packet_id st a \<and>
       unat (fragment_id (ms ! i)) = i \<and> unat (fragment_count (ms ! i)) = length ms \<and>
       udp_destination (ms ! i) = show_socket_addr source) \<and>
    next_packet_id st' a = next_packet_id st a + 1 \<and>
    downloaded st' = downloaded st + word_of_nat (length payload) \<and> receiving st' = receiving st"
proof -
  let ?dest = "show_socket_addr source"
  let ?pieces = "fragment_pieces (maximum - header_size ?dest) payload"
  have ok: "message_ok ?dest payload"
    using assms(1) show_socket_addr_length [of source] by (simp add: message_ok_def)
  have v: "valid_str ?dest" using show_socket_addr_ascii by (rule valid_str_ascii)
  have per: "0 < maximum - header_size ?dest" using assms(2) by simp
  have n: "length ?pieces \<le> 255" using fragment_pieces(3) [OF per, of payload] assms(3) by simp
  obtain frames where f: "encode_fragments (session_of st a) (next_packet_id st a) ?dest payload maximum = Ok frames"
    using encode_fragments_total [OF ok assms(2) n] by blast
  note p = encode_fragments_pieces [OF v f]
  have "receive_response maximum accept a (Ok (payload, source)) st =
      (frames, st\<lparr>next_packet_id := (next_packet_id st)(a := next_packet_id st a + 1),
                  downloaded := downloaded st + word_of_nat (length payload)\<rparr>)"
    using f assms(4) send_fragments_all [of frames accept] by (simp add: receive_response_def Let_def)
  moreover have "\<forall>i < length ?pieces. unat (word_of_nat i :: u8) = i \<and> unat (word_of_nat (length ?pieces) :: u8) = length ?pieces"
    using n by (simp add: unat_of_nat)
  ultimately show ?thesis
    using p fragment_pieces(2) [OF per, of payload]
    by (intro exI [of _ frames] exI exI [of _ "fragments_of (session_of st a) (next_packet_id st a) ?dest ?pieces"]) auto
qed

theorem udp_reply_fragments_witness:
  "let source = SocketAddrV4 16843009 53; dest = show_socket_addr source in
   header_size dest < 40 \<and> div_ceil (length [9 :: u8, 8]) (40 - header_size dest) \<le> 255 \<and>
   (\<exists>frames st' ms. receive_response 40 (\<lambda>_. True) 0 (Ok ([9, 8], source)) (udp_start 0 0) = (frames, st') \<and>
      map UdpMessage_decode frames = map Ok ms \<and> concat (map udp_payload ms) = [9, 8])"
proof -
  let ?source = "SocketAddrV4 16843009 53"
  have h: "header_size (show_socket_addr ?source) < 40"
    "div_ceil (length [9 :: u8, 8]) (40 - header_size (show_socket_addr ?source)) \<le> 255" by code_simp+
  have "length [9 :: u8, 8] \<le> MAX_UDP_SIZE" by simp
  from udp_reply_fragments [OF this h, of "\<lambda>_. True" 0 "udp_start 0 0"] h show ?thesis
    unfolding Let_def by blast
qed

end
