(* ===== verification/Vless_Server.thy ===== *)
theory Vless_Server
  imports Hy2_Tcp
begin

text \<open>
  The TCP side of the server: VLESS over TLS (\<^verbatim>\<open>src/src/vless_server.rs\<close>) and the listener in front of it
  that shares the port with SSH (\<^verbatim>\<open>src/src/tcp_server.rs\<close>). SHA-256, the TLS library and the kernel's
  sockets are arguments; the decrypted client half of a connection is the list of bytes it carries
  before it is closed.
\<close>

section \<open>Users\<close>

abbreviation VERSION :: u8 where "VERSION \<equiv> 0"
abbreviation COMMAND_TCP :: u8 where "COMMAND_TCP \<equiv> 1"
abbreviation COMMAND_UDP :: u8 where "COMMAND_UDP \<equiv> 2"
abbreviation MAX_UDP_PACKET_SIZE :: nat where "MAX_UDP_PACKET_SIZE \<equiv> 65535"

type_synonym VlessUsers = "bytes \<rightharpoonup> string"

definition user_id :: "(bytes \<Rightarrow> bytes) \<Rightarrow> string \<Rightarrow> string \<Rightarrow> bytes" where
  "user_id sha256 name pass =
     (let digest = sha256 (as_bytes name @ [0] @ as_bytes pass);
          id = take 16 digest;
          id = id[6 := (id ! 6 AND 0x0f) OR 0x40]
      in id[8 := (id ! 8 AND 0x3f) OR 0x80])"

definition user_id_string :: "(bytes \<Rightarrow> bytes) \<Rightarrow> string \<Rightarrow> string \<Rightarrow> string" where
  "user_id_string sha256 name pass =
     (let id = user_id sha256 name pass in
      hex_string (take 4 id) @ ''-'' @ hex_string (take 2 (drop 4 id)) @ ''-'' @
      hex_string (take 2 (drop 6 id)) @ ''-'' @ hex_string (take 2 (drop 8 id)) @ ''-'' @
      hex_string (drop 10 id))"

definition vless_users :: "(bytes \<Rightarrow> bytes) \<Rightarrow> User list \<Rightarrow> VlessUsers" where
  "vless_users sha256 us =
     foldl (\<lambda>m u. m(user_id sha256 (user_name u) (user_password u) \<mapsto> user_name u)) Map.empty us"

section \<open>Requests\<close>

definition read_u8 :: "bytes \<Rightarrow> (u8 \<times> bytes) result" where
  "read_u8 stream = and_then (read_exact 1 stream) (\<lambda>(b, stream). Ok (hd b, stream))"

definition read_u16 :: "bytes \<Rightarrow> (u16 \<times> bytes) result" where
  "read_u16 stream = and_then (read_exact 2 stream) (\<lambda>(b, stream). Ok (from_be_bytes b, stream))"

definition read_destination :: "bytes \<Rightarrow> (string \<times> bytes) result" where
  "read_destination stream =
     and_then (map_err (\<lambda>_. ''read VLESS destination port'') (read_u16 stream)) (\<lambda>(port, stream).
     and_then (map_err (\<lambda>_. ''read VLESS address type'') (read_u8 stream)) (\<lambda>(atyp, stream).
     and_then
       (if atyp = 1 then
          and_then (read_exact 4 stream) (\<lambda>(octets, stream). Ok (show_ipv4 (from_be_bytes octets), stream))
        else if atyp = 2 then
          and_then (read_u8 stream) (\<lambda>(len, stream).
          if len = 0 then Err ''empty VLESS destination domain''
          else
            and_then (read_exact (unat len) stream) (\<lambda>(domain, stream).
            and_then (ok_or (from_utf8 domain) ''VLESS destination domain is not UTF-8'') (\<lambda>domain.
            Ok (domain, stream))))
        else if atyp = 3 then
          and_then (read_exact 16 stream) (\<lambda>(octets, stream).
          Ok (''['' @ show_ipv6 (from_be_bytes octets) @ '']'', stream))
        else Err (''unsupported VLESS address type 0x'' @ lower_hex (unat atyp) @ '' after port '' @ show_nat (unat port)))
       (\<lambda>(host, stream). Ok (host @ '':'' @ show_nat (unat port), stream))))"

section \<open>Relays\<close>

text \<open>The environment of one connection: connecting, the socket calls of the UDP session, how the
  transport cuts the client's bytes into reads, what the destination sends, the outcomes of the
  writes, and which of the two directions of a \<^verbatim>\<open>try_join!\<close> ends first when one fails.\<close>

record vless_env =
  ve_connect :: "string \<Rightarrow> Outbound.io_error + unit"
  ve_head_write :: "string + unit"
  ve_client_reads :: "bytes \<Rightarrow> (string + bytes) list"
  ve_upstream_writes :: "(string + unit) list"
  ve_upstream_shutdown :: "string + unit"
  ve_upstream_reads :: "(string + bytes) list"
  ve_client_writes :: "(string + unit) list"
  ve_client_shutdown :: "string + unit"
  ve_open_udp :: "Outbound.io_error + unit OutboundUdpSession"
  ve_lookup :: "string \<Rightarrow> Outbound.io_error + SocketAddr list"
  ve_send :: "unit \<Rightarrow> bytes \<Rightarrow> SocketAddr \<Rightarrow> Outbound.io_error + nat"
  ve_arrivals :: "arrival list"
  ve_frame_writes :: "(string + unit) list"
  ve_upload_first :: bool

record vless_out =
  vo_client :: bytes
  vo_upstream :: bytes
  vo_packets :: "bytes list"

definition nothing_sent :: vless_out where
  "nothing_sent = \<lparr>vo_client = [], vo_upstream = [], vo_packets = []\<rparr>"

definition try_join :: "bool \<Rightarrow> unit result \<Rightarrow> unit result \<Rightarrow> unit result" where
  "try_join first r1 r2 = (if first then and_then r1 (\<lambda>_. r2) else and_then r2 (\<lambda>_. r1))"

text \<open>One direction of \<^verbatim>\<open>serve_tcp\<close>: read into the buffer, write, record, until the end of the reads,
  then shut the writer down.\<close>

fun relay_loop ::
  "(nat \<Rightarrow> TrafficRegistry \<Rightarrow> TrafficRegistry) \<Rightarrow> unit result \<Rightarrow> (string + bytes) list \<Rightarrow> (string + unit) list \<Rightarrow>
   bytes \<Rightarrow> TrafficRegistry \<Rightarrow> bytes \<Rightarrow> unit result \<times> bytes \<times> TrafficRegistry" where
  "relay_loop rec shutdown [] writes buffer r out = (shutdown, out, r)"
| "relay_loop rec shutdown (Inl e # reads) writes buffer r out = (Err e, out, r)"
| "relay_loop rec shutdown (Inr chunk # reads) writes buffer r out =
     (if chunk = [] then (shutdown, out, r)
      else
        let buffer = chunk @ drop (length chunk) buffer;
            data = take (length chunk) buffer
        in case writes of
             Inl e # _ \<Rightarrow> (Err e, out, r)
           | _ \<Rightarrow> relay_loop rec shutdown reads (tl writes) buffer (rec (length chunk) r) (out @ data))"

definition serve_tcp ::
  "vless_env \<Rightarrow> string \<Rightarrow> addr \<Rightarrow> bytes \<Rightarrow> TrafficRegistry \<Rightarrow> unit result \<times> vless_out \<times> TrafficRegistry" where
  "serve_tcp env dest a stream r =
     (case ve_connect env dest of
        Err _ \<Rightarrow> (Err (''connect VLESS destination '' @ dest), nothing_sent, r)
      | Ok _ \<Rightarrow>
          (case ve_head_write env of
             Err e \<Rightarrow> (Err e, nothing_sent, r)
           | Ok _ \<Rightarrow>
               let buffer = replicate RELAY_BUFFER_SIZE 0;
                   (r1, sent_up, r) = relay_loop (record_upload a) (ve_upstream_shutdown env)
                      (ve_client_reads env stream) (ve_upstream_writes env) buffer r [];
                   (r2, sent_down, r) = relay_loop (record_download a) (ve_client_shutdown env)
                      (ve_upstream_reads env) (ve_client_writes env) buffer r []
               in (try_join (ve_upload_first env) r1 r2,
                   nothing_sent\<lparr>vo_client := [VERSION, 0] @ sent_down, vo_upstream := sent_up\<rparr>, r)))"

text \<open>The packets of a client, each with its length in front. The loop ends only with an error; at
  the end of the client's bytes that is the failed read of the next length.\<close>

lemma read_u16_shorter:
  "read_u16 stream = Ok (len, rest) \<Longrightarrow> length rest < length stream"
  by (auto simp: read_u16_def read_exact_def split: if_splits)

function udp_upload ::
  "vless_env \<Rightarrow> unit OutboundUdpSession \<Rightarrow> string \<Rightarrow> addr \<Rightarrow> bytes \<Rightarrow> TrafficRegistry \<Rightarrow> bytes list \<Rightarrow>
   string \<times> bytes list \<times> TrafficRegistry" where
  "udp_upload env session dest a stream r out =
     (case read_u16 stream of
        Err e \<Rightarrow> (e, out, r)
      | Ok (len, rest) \<Rightarrow>
          if len = 0 \<or> unat len > MAX_UDP_PACKET_SIZE
          then (''invalid VLESS UDP packet length'', out, r)
          else
            (case read_exact (unat len) rest of
               Err e \<Rightarrow> (e, out, r)
             | Ok (payload, rest') \<Rightarrow>
                 (case fst (send_to (ve_lookup env) (ve_send env) session payload dest) of
                    Err e \<Rightarrow> (show_io_error e, out, r)
                  | Ok _ \<Rightarrow>
                      udp_upload env session dest a rest' (record_upload a (unat len) r) (out @ [payload]))))"
  by pat_completeness auto
termination
  by (relation "measure (\<lambda>(_, _, _, _, stream, _, _). length stream)")
    (auto dest!: read_u16_shorter simp: read_exact_def split: if_splits)

declare udp_upload.simps [simp del]

text \<open>The answers, until the receive or a write fails; the end of the arrivals is the moment the other
  direction ended and this one was dropped.\<close>

definition udp_frame :: "nat \<Rightarrow> bytes \<Rightarrow> bytes" where
  "udp_frame len buffer = be_bytes 2 (word_of_nat len :: u16) @ take len buffer"

fun udp_download ::
  "addr \<Rightarrow> arrival list \<Rightarrow> (string + unit) list \<Rightarrow> bytes \<Rightarrow> TrafficRegistry \<Rightarrow> bytes \<Rightarrow>
   string option \<times> bytes \<times> TrafficRegistry" where
  "udp_download a [] writes buffer r out = (None, out, r)"
| "udp_download a (arr # arrivals) writes buffer r out =
     (case recv_from arr buffer of
        (Err e, buffer) \<Rightarrow> (Some (show_io_error e), out, r)
      | (Ok (len, _), buffer) \<Rightarrow>
          (case writes of
             Inl e # _ \<Rightarrow> (Some e, out, r)
           | _ \<Rightarrow> udp_download a arrivals (tl writes) buffer (record_download a len r)
                    (out @ udp_frame len buffer)))"

definition serve_udp ::
  "vless_env \<Rightarrow> string \<Rightarrow> addr \<Rightarrow> bytes \<Rightarrow> TrafficRegistry \<Rightarrow> unit result \<times> vless_out \<times> TrafficRegistry" where
  "serve_udp env dest a stream r =
     (case ve_open_udp env of
        Err e \<Rightarrow> (Err (show_io_error e), nothing_sent, r)
      | Ok session \<Rightarrow>
          (case ve_head_write env of
             Err e \<Rightarrow> (Err e, nothing_sent, r)
           | Ok _ \<Rightarrow>
               let (e1, packets, r) = udp_upload env session dest a stream r [];
                   (e2, sent_down, r) = udp_download a (ve_arrivals env) (ve_frame_writes env) [] r []
               in (try_join (ve_upload_first env) (Err e1) (case e2 of None \<Rightarrow> Ok () | Some e \<Rightarrow> Err e),
                   nothing_sent\<lparr>vo_client := [VERSION, 0] @ sent_down, vo_packets := packets\<rparr>, r)))"

definition vless_serve ::
  "vless_env \<Rightarrow> string \<Rightarrow> bytes \<Rightarrow> TrafficRegistry \<Rightarrow> unit result \<times> vless_out \<times> TrafficRegistry" where
  "vless_serve env name stream r =
     (case map_err (\<lambda>_. ''read VLESS addons length'') (read_u8 stream) of
        Err e \<Rightarrow> (Err e, nothing_sent, r)
      | Ok (addons_length, stream) \<Rightarrow>
          if addons_length \<noteq> 0 then
            (and_then (map_err (\<lambda>_. ''read VLESS addons'') (read_exact (unat addons_length) stream)) (\<lambda>_.
             Err ''VLESS flow addons are not supported''), nothing_sent, r)
          else
            (case and_then (map_err (\<lambda>_. ''read VLESS command'') (read_u8 stream)) (\<lambda>(command, stream).
                  and_then (read_destination stream) (\<lambda>(dest, stream). Ok (command, dest, stream))) of
               Err e \<Rightarrow> (Err e, nothing_sent, r)
             | Ok (command, dest, stream) \<Rightarrow>
                 let (a, r) = user name r;
                     r = connection a r;
                     (res, out, r) =
                       (if command = COMMAND_TCP then serve_tcp env dest a stream r
                        else if command = COMMAND_UDP then serve_udp env dest a stream r
                        else (Err (''unsupported VLESS command 0x'' @ lower_hex (unat command)), nothing_sent, r))
                 in (res, out, drop_connection a r)))"

section \<open>Lemmas\<close>

subsection \<open>Users\<close>

lemma vless_users_lookup:
  "vless_users sha us key =
     map_option user_name (find (\<lambda>u. user_id sha (user_name u) (user_password u) = key) (rev us))"
  by (induction us rule: rev_induct) (simp_all add: vless_users_def)

lemma vless_users_Some:
  assumes "vless_users sha us key = Some name"
  shows "\<exists>u \<in> set us. user_name u = name \<and> key = user_id sha (user_name u) (user_password u)"
  using assms by (auto simp: vless_users_lookup find_Some_iff) (metis nth_mem length_rev set_rev)

lemma vless_users_configured:
  assumes "u \<in> set us"
    and "\<forall>v \<in> set us. user_id sha (user_name v) (user_password v) = user_id sha (user_name u) (user_password u) \<longrightarrow>
           user_name v = user_name u"
  shows "vless_users sha us (user_id sha (user_name u) (user_password u)) = Some (user_name u)"
proof -
  let ?id = "user_id sha (user_name u) (user_password u)"
  have "find (\<lambda>v. user_id sha (user_name v) (user_password v) = ?id) (rev us) \<noteq> None"
    using assms(1) by (auto simp: find_None_iff)
  then obtain v where "find (\<lambda>v. user_id sha (user_name v) (user_password v) = ?id) (rev us) = Some v" by blast
  moreover from this have "v \<in> set us" "user_id sha (user_name v) (user_password v) = ?id"
    by (auto simp: find_Some_iff) (metis nth_mem length_rev set_rev)
  ultimately show ?thesis using assms(2) by (simp add: vless_users_lookup)
qed

lemma length_user_id: "16 \<le> length (sha (as_bytes name @ [0] @ as_bytes pass)) \<Longrightarrow> length (user_id sha name pass) = 16"
  by (simp add: user_id_def Let_def)

subsection \<open>Requests\<close>

datatype vless_address =
    Vless_V4 u32
  | Vless_Domain string
  | Vless_V6 "128 word"

text \<open>What a client sends for a destination, and the destination string the server makes of it.\<close>

fun address_bytes :: "vless_address \<Rightarrow> bytes" where
  "address_bytes (Vless_V4 w) = 1 # be_bytes 4 w"
| "address_bytes (Vless_Domain d) = 2 # word_of_nat (length d) # as_bytes d"
| "address_bytes (Vless_V6 w) = 3 # be_bytes 16 w"

fun address_host :: "vless_address \<Rightarrow> string" where
  "address_host (Vless_V4 w) = show_ipv4 w"
| "address_host (Vless_Domain d) = d"
| "address_host (Vless_V6 w) = ''['' @ show_ipv6 w @ '']''"

fun address_ok :: "vless_address \<Rightarrow> bool" where
  "address_ok (Vless_Domain d) = (d \<noteq> [] \<and> length d < 256 \<and> valid_str d)"
| "address_ok _ = True"

definition destination_of :: "vless_address \<Rightarrow> u16 \<Rightarrow> string" where
  "destination_of address port = address_host address @ '':'' @ show_nat (unat port)"

lemma read_u8_Cons [simp]: "read_u8 (b # stream) = Ok (b, stream)"
  by (simp add: read_u8_def read_exact_def)

lemma read_u16_be [simp]: "read_u16 (be_bytes 2 w @ stream) = Ok (w, stream)"
  using read_exact_append [of "be_bytes 2 w" stream] from_be_bytes_be_bytes [of 2 w] by (simp add: read_u16_def)

lemma read_destination_encoded:
  assumes "address_ok address"
  shows "read_destination (be_bytes 2 port @ address_bytes address @ rest) = Ok (destination_of address port, rest)"
proof (cases address)
  case (Vless_V4 w)
  then show ?thesis
    using read_exact_append [of "be_bytes 4 w" rest] from_be_bytes_be_bytes [of 4 w]
    by (simp add: read_destination_def destination_of_def)
next
  case (Vless_Domain d)
  then have d: "unat (word_of_nat (length d) :: u8) = length d" "d \<noteq> []" "valid_str d"
    using assms by (simp_all add: unat_of_nat)
  then have "(word_of_nat (length d) :: u8) \<noteq> 0" by (metis length_0_conv unsigned_0)
  with d Vless_Domain show ?thesis
    using read_exact_append [of "as_bytes d" rest]
    by (simp add: read_destination_def destination_of_def)
next
  case (Vless_V6 w)
  then show ?thesis
    using read_exact_append [of "be_bytes 16 w" rest] from_be_bytes_be_bytes [of 16 w]
    by (simp add: read_destination_def destination_of_def)
qed

subsection \<open>Relays\<close>

text \<open>The transfer counters: recording in pieces is recording the sum.\<close>

locale byte_counter =
  fixes rec :: "nat \<Rightarrow> TrafficRegistry \<Rightarrow> TrafficRegistry"
  assumes rec_zero: "rec 0 r = r"
    and rec_add: "rec m (rec n r) = rec (n + m) r"
begin

lemma relay_loop_spec:
  assumes "\<forall>x \<in> set reads. is_ok x" "\<forall>w \<in> set writes. is_ok w"
    and "\<forall>chunk. Inr chunk \<in> set reads \<longrightarrow> length chunk \<le> length buffer"
  shows "relay_loop rec shutdown reads writes buffer r out =
    (shutdown, out @ stream_data reads, rec (length (stream_data reads)) r)"
  using assms
proof (induction reads arbitrary: writes buffer r out)
  case Nil
  then show ?case by (simp add: rec_zero)
next
  case (Cons x reads)
  then obtain chunk where x: "x = Inr chunk" by (auto simp: is_ok_iff)
  show ?case
  proof (cases "chunk = []")
    case False
    let ?buf = "chunk @ drop (length chunk) buffer"
    have "length ?buf = length buffer" using Cons.prems(3) x by auto
    moreover have "\<forall>w \<in> set (tl writes). is_ok w" using Cons.prems(2) by (cases writes) auto
    ultimately have "relay_loop rec shutdown reads (tl writes) ?buf (rec (length chunk) r) (out @ chunk) =
        (shutdown, (out @ chunk) @ stream_data reads, rec (length (stream_data reads)) (rec (length chunk) r))"
      using Cons by simp
    moreover have "relay_loop rec shutdown (x # reads) writes buffer r out =
        relay_loop rec shutdown reads (tl writes) ?buf (rec (length chunk) r) (out @ chunk)"
      using False x Cons.prems(2) by (auto simp: Let_def is_ok_iff split: list.splits)
    ultimately show ?thesis using False x by (simp add: rec_add)
  qed (simp add: x rec_zero)
qed

end

lemma registry_update_cong:
  "counters r a = t \<Longrightarrow> r\<lparr>counters := (counters r)(a := t)\<rparr> = r"
  by auto

interpretation up: byte_counter "record_upload a" for a
  by unfold_locales (simp_all add: record_upload_def registry_update_cong add.assoc)

interpretation down: byte_counter "record_download a" for a
  by unfold_locales (simp_all add: record_download_def registry_update_cong add.assoc)

lemma udp_upload_packet:
  assumes "p \<noteq> []" "length p \<le> MAX_UDP_PACKET_SIZE"
    and "is_ok (fst (send_to (ve_lookup env) (ve_send env) session p dest))"
  shows "udp_upload env session dest a (udp_frame (length p) p @ rest) r out =
    udp_upload env session dest a rest (record_upload a (length p) r) (out @ [p])"
proof -
  have n: "unat (word_of_nat (length p) :: u16) = length p" using assms(2) by (simp add: unat_of_nat)
  then have "(word_of_nat (length p) :: u16) \<noteq> 0" using assms(1) by (metis length_0_conv unsigned_0)
  then show ?thesis
    using assms n read_exact_append [of p rest]
    by (subst udp_upload.simps) (auto simp: udp_frame_def is_ok_iff)
qed

lemma udp_upload_packets:
  assumes "\<forall>p \<in> set ps. p \<noteq> [] \<and> length p \<le> MAX_UDP_PACKET_SIZE \<and>
      is_ok (fst (send_to (ve_lookup env) (ve_send env) session p dest))"
  shows "udp_upload env session dest a (concat (map (\<lambda>p. udp_frame (length p) p) ps) @ rest) r out =
    udp_upload env session dest a rest (record_upload a (length (concat ps)) r) (out @ ps)"
  using assms
proof (induction ps arbitrary: r out)
  case Nil
  then show ?case by (simp add: up.rec_zero)
next
  case (Cons p ps)
  then show ?case by (simp add: udp_upload_packet up.rec_add)
qed

definition arrives :: "bytes \<Rightarrow> arrival \<Rightarrow> bool" where
  "arrives p arr = (\<exists>src. arr = Arrived4 (Ok (p, src)) \<or> arr = Arrived6 (Ok (p, src)))"

lemma udp_download_packet:
  assumes "arrives p arr" "length p \<le> MAX_UDP_PACKET_SIZE" "\<forall>w \<in> set writes. is_ok w"
  shows "\<exists>buffer'. udp_download a (arr # arrivals) writes buffer r out =
    udp_download a arrivals (tl writes) buffer' (record_download a (length p) r) (out @ udp_frame (length p) p)"
proof -
  have "\<exists>src buffer'. recv_from arr buffer = (Ok (length p, src), p @ buffer')"
    using assms(1) by (auto simp: arrives_def recv_from_def Let_def)
  then obtain src buffer' where "recv_from arr buffer = (Ok (length p, src), p @ buffer')" by blast
  then have "udp_download a (arr # arrivals) writes buffer r out =
      udp_download a arrivals (tl writes) (p @ buffer') (record_download a (length p) r) (out @ udp_frame (length p) p)"
    using assms(3) by (auto simp: udp_frame_def is_ok_iff split: list.splits)
  then show ?thesis by blast
qed

lemma udp_download_packets:
  assumes "list_all2 arrives ps arrs" "\<forall>p \<in> set ps. length p \<le> MAX_UDP_PACKET_SIZE" "\<forall>w \<in> set writes. is_ok w"
  shows "udp_download a arrs writes buffer r out =
    (None, out @ concat (map (\<lambda>p. udp_frame (length p) p) ps), record_download a (length (concat ps)) r)"
  using assms
proof (induction ps arrs arbitrary: writes buffer r out rule: list_all2_induct)
  case Nil
  then show ?case by (simp add: down.rec_zero)
next
  case (Cons p ps arr arrs)
  have w: "\<forall>w \<in> set (tl writes). is_ok w" using Cons.prems(2) by (cases writes) auto
  obtain buffer' where "udp_download a (arr # arrs) writes buffer r out =
      udp_download a arrs (tl writes) buffer' (record_download a (length p) r) (out @ udp_frame (length p) p)"
    using udp_download_packet [OF Cons.hyps(1) _ Cons.prems(2)] Cons.prems(1) by (metis list.set_intros(1))
  with Cons.IH [OF _ w] Cons.prems show ?case by (simp add: down.rec_add del: udp_download.simps)
qed

text \<open>A request as a client sends it, and what the server does with it.\<close>

definition vless_request :: "u8 \<Rightarrow> u16 \<Rightarrow> vless_address \<Rightarrow> bytes" where
  "vless_request command port address = [0, command] @ be_bytes 2 port @ address_bytes address"

lemma vless_serve_request:
  assumes "address_ok address" "user name r = (a, r1)"
  shows "vless_serve env name (vless_request command port address @ payload) r =
    (let dest = destination_of address port; r = connection a r1;
         (res, out, r) =
           (if command = COMMAND_TCP then serve_tcp env dest a payload r
            else if command = COMMAND_UDP then serve_udp env dest a payload r
            else (Err (''unsupported VLESS command 0x'' @ lower_hex (unat command)), nothing_sent, r))
     in (res, out, drop_connection a r))"
  using read_destination_encoded [OF assms(1), of port payload] assms(2)
  by (simp add: vless_serve_def vless_request_def Let_def)

lemma serve_tcp_succeeds:
  assumes "ve_connect env dest = Ok ()" "ve_head_write env = Ok ()"
    and "ve_upstream_shutdown env = Ok ()" "ve_client_shutdown env = Ok ()"
    and "\<forall>x \<in> set (ve_client_reads env payload). is_ok x" "\<forall>x \<in> set (ve_upstream_reads env). is_ok x"
    and "\<forall>c. Inr c \<in> set (ve_client_reads env payload) \<longrightarrow> length c \<le> RELAY_BUFFER_SIZE"
    and "\<forall>c. Inr c \<in> set (ve_upstream_reads env) \<longrightarrow> length c \<le> RELAY_BUFFER_SIZE"
    and "\<forall>w \<in> set (ve_upstream_writes env). is_ok w" "\<forall>w \<in> set (ve_client_writes env). is_ok w"
    and "stream_data (ve_client_reads env payload) = payload"
  shows "serve_tcp env dest a payload r =
    (Ok (), \<lparr>vo_client = [VERSION, 0] @ stream_data (ve_upstream_reads env), vo_upstream = payload, vo_packets = []\<rparr>,
     record_download a (length (stream_data (ve_upstream_reads env))) (record_upload a (length payload) r))"
  using assms by (simp add: serve_tcp_def up.relay_loop_spec down.relay_loop_spec try_join_def nothing_sent_def)

lemma serve_udp_forwards:
  assumes "ve_open_udp env = Ok session" "ve_head_write env = Ok ()"
    and "\<forall>p \<in> set ps. p \<noteq> [] \<and> length p \<le> MAX_UDP_PACKET_SIZE \<and>
      is_ok (fst (send_to (ve_lookup env) (ve_send env) session p dest))"
    and "list_all2 arrives qs (ve_arrivals env)" "\<forall>q \<in> set qs. length q \<le> MAX_UDP_PACKET_SIZE"
    and "\<forall>w \<in> set (ve_frame_writes env). is_ok w"
  shows "\<exists>e. serve_udp env dest a (concat (map (\<lambda>p. udp_frame (length p) p) ps)) r =
    (Err e, \<lparr>vo_client = [VERSION, 0] @ concat (map (\<lambda>q. udp_frame (length q) q) qs), vo_upstream = [], vo_packets = ps\<rparr>,
     record_download a (length (concat qs)) (record_upload a (length (concat ps)) r))"
proof -
  have "udp_upload env session dest a [] r' out = (''stream finished early'', out, r')" for r' out
    by (subst udp_upload.simps) (simp add: read_u16_def read_exact_def)
  with udp_upload_packets [OF assms(3), of a "[]" r "[]"]
  have "udp_upload env session dest a (concat (map (\<lambda>p. udp_frame (length p) p) ps)) r [] =
      (''stream finished early'', ps, record_upload a (length (concat ps)) r)" by simp
  then show ?thesis
    using assms(1,2) udp_download_packets [OF assms(4,5,6)]
    by (simp add: serve_udp_def try_join_def nothing_sent_def)
qed

end
