(* ===== verification/Tcp_Server.thy ===== *)
theory Tcp_Server
  imports Vless_Server
begin

text \<open>
  The TCP listener of \<^verbatim>\<open>src/src/tcp_server.rs\<close>: it shares one port between VLESS over TLS and SSH. The socket
  calls, the TLS library and \<^verbatim>\<open>copy_bidirectional\<close> are arguments.
\<close>

section \<open>The listener\<close>

datatype socket_call =
    NewSocket (ipv4_domain: bool)
  | SetOnlyV6 bool
  | SetReuseAddress bool
  | Bind SocketAddr
  | Listen nat
  | SetNonblocking bool

text \<open>\<open>os\<close> is the outcome of each socket call; the calls made are part of the result.\<close>

fun run_calls :: "(socket_call \<Rightarrow> 'e + unit) \<Rightarrow> socket_call list \<Rightarrow> ('e + unit) \<times> socket_call list" where
  "run_calls os [] = (Ok (), [])"
| "run_calls os (c # cs) =
     (case os c of Err e \<Rightarrow> (Err e, [c]) | Ok _ \<Rightarrow> (let (r, made) = run_calls os cs in (r, c # made)))"

definition bind_listener :: "(socket_call \<Rightarrow> 'e + unit) \<Rightarrow> SocketAddr \<Rightarrow> ('e + unit) \<times> socket_call list" where
  "bind_listener os addr =
     run_calls os
       ((if \<not> is_ipv4 addr \<and> is_unspecified (ip_of addr)
         then [NewSocket False, SetOnlyV6 False, SetReuseAddress True, Bind addr, Listen 1024]
         else [NewSocket (is_ipv4 addr), SetReuseAddress True, Bind addr, Listen 1024]) @
        [SetNonblocking True])"

definition tls_acceptor ::
  "(string \<Rightarrow> ('e + 'cert) list option) \<Rightarrow> (string \<Rightarrow> 'key option) \<Rightarrow> ('cert list \<Rightarrow> 'key \<Rightarrow> 'tls option) \<Rightarrow>
   Config \<Rightarrow> 'tls result" where
  "tls_acceptor pem_file_iter from_pem_file with_single_cert c =
     and_then (ok_or (pem_file_iter (certificate (tls c))) (''read TLS certificate '' @ certificate (tls c))) (\<lambda>items.
     and_then (map_err (\<lambda>_. ''parse TLS certificate PEM'') (collect_results items)) (\<lambda>certificates.
     if certificates = [] then Err ''TLS certificate file does not contain a certificate''
     else
       and_then (ok_or (from_pem_file (private_key (tls c))) (''read TLS private key '' @ private_key (tls c))) (\<lambda>key.
       ok_or (with_single_cert certificates key) ''configure VLESS TLS certificate'')))"

section \<open>Connections\<close>

definition SSH_PREFIX :: bytes where
  "SSH_PREFIX = as_bytes ''SSH-''"

text \<open>\<open>peeks\<close> are the results of the successive \<^verbatim>\<open>peek\<close> calls into the four-byte buffer before the sniff
  timeout; when the list ends without a decision the timeout has passed.\<close>

fun is_ssh_connection :: "(string + bytes) list \<Rightarrow> bool result" where
  "is_ssh_connection [] = Ok True"
| "is_ssh_connection (Inl e # peeks) = Err e"
| "is_ssh_connection (Inr seen # peeks) =
     (if seen = [] then Ok False
      else if seen \<noteq> take (length seen) SSH_PREFIX then Ok False
      else if length seen = 4 then Ok True
      else is_ssh_connection peeks)"

text \<open>\<open>te_accept\<close> is the TLS handshake under its timeout: it gives the decrypted client half.\<close>

record tcp_env = vless_env +
  te_set_nodelay :: "unit result"
  te_peeks :: "(string + bytes) list"
  te_accept :: "bytes result option"
  te_prefix_in_time :: bool
  te_ssh_connect :: "SocketAddr \<Rightarrow> unit result"
  te_ssh_nodelay :: "unit result"
  te_ssh_copy :: "unit result"

definition serve_ssh :: "'a tcp_env_scheme \<Rightarrow> SocketAddr \<Rightarrow> unit result" where
  "serve_ssh env upstream =
     and_then (map_err (\<lambda>_. ''connect SSH upstream '' @ show_socket_addr upstream) (te_ssh_connect env upstream)) (\<lambda>_.
     and_then (te_ssh_nodelay env) (\<lambda>_.
     map_err (\<lambda>_. ''relay SSH connection'') (te_ssh_copy env)))"

datatype handled =
    Rejected
  | To_SSH SocketAddr
  | To_VLESS string vless_out

definition authenticate :: "VlessUsers \<Rightarrow> bytes \<Rightarrow> string result" where
  "authenticate us first =
     (if first ! 0 \<noteq> 0 then Err ''unsupported TCP proxy protocol''
      else ok_or (us (drop 1 first)) ''invalid VLESS user'')"

definition serve ::
  "tcp_env \<Rightarrow> VlessUsers \<Rightarrow> SocketAddr option \<Rightarrow> TrafficRegistry \<Rightarrow> unit result \<times> handled \<times> TrafficRegistry" where
  "serve env us ssh_to r =
     (case and_then (te_set_nodelay env) (\<lambda>_.
           case ssh_to of None \<Rightarrow> Ok None
           | Some upstream \<Rightarrow> and_then (is_ssh_connection (te_peeks env)) (\<lambda>b.
               Ok (if b then Some upstream else None))) of
        Err e \<Rightarrow> (Err e, Rejected, r)
      | Ok (Some upstream) \<Rightarrow> (serve_ssh env upstream, To_SSH upstream, r)
      | Ok None \<Rightarrow>
          (case and_then (ok_or (te_accept env) ''VLESS TLS handshake timed out'') (\<lambda>accepted.
                and_then (map_err (\<lambda>_. ''accept VLESS TLS connection'') accepted) (\<lambda>stream.
                and_then (ensure (te_prefix_in_time env) ''VLESS authentication timed out'') (\<lambda>_.
                and_then (read_exact 17 stream) (\<lambda>(first, stream).
                and_then (authenticate us first) (\<lambda>name. Ok (name, stream)))))) of
             Err e \<Rightarrow> (Err e, Rejected, r)
           | Ok (name, stream) \<Rightarrow>
               (case vless_serve (vless_env.truncate env) name stream r of
                  (res, out, r) \<Rightarrow> (res, To_VLESS name out, r))))"

section \<open>Lemmas\<close>

lemma run_calls_Ok: "run_calls os cs = (Ok (), made) \<Longrightarrow> made = cs \<and> (\<forall>c \<in> set cs. is_ok (os c))"
  by (induction cs arbitrary: made) (auto split: sum.splits prod.splits)

text \<open>A bound listener accepts both families exactly on the IPv6 wildcard.\<close>

lemma bind_listener_dual_stack:
  assumes "bind_listener os addr = (Ok (), made)"
  shows "Bind addr \<in> set made \<and> (SetOnlyV6 False \<in> set made \<longleftrightarrow> \<not> is_ipv4 addr \<and> is_unspecified (ip_of addr))"
  using assms by (auto simp: bind_listener_def simp del: run_calls.simps dest!: run_calls_Ok split: if_splits)

text \<open>A connection is taken for SSH exactly if all that was peeked before the decision agrees with the
  SSH banner.\<close>

lemma is_ssh_connection_True:
  "is_ssh_connection peeks = Ok True \<Longrightarrow> Inr seen = hd peeks \<Longrightarrow> peeks \<noteq> [] \<Longrightarrow>
   seen \<noteq> [] \<and> seen = take (length seen) SSH_PREFIX"
  by (induction peeks rule: is_ssh_connection.induct) (auto split: if_splits)

lemma not_ssh:
  assumes "\<not> (seen = take (length seen) SSH_PREFIX)"
  shows "is_ssh_connection (Inr seen # peeks) = Ok False"
  using assms by auto

lemma connection_cycle:
  "drop_connection a (record_download a n (record_upload a m (connection a r))) =
   record_download a n (record_upload a m r)"
  by (simp add: drop_connection_def record_download_def record_upload_def connection_def)

lemma truncate_fields:
  "ve_connect (vless_env.truncate env) = ve_connect env" "ve_head_write (vless_env.truncate env) = ve_head_write env"
  "ve_client_reads (vless_env.truncate env) = ve_client_reads env" "ve_upstream_writes (vless_env.truncate env) = ve_upstream_writes env"
  "ve_upstream_shutdown (vless_env.truncate env) = ve_upstream_shutdown env"
  "ve_upstream_reads (vless_env.truncate env) = ve_upstream_reads env" "ve_client_writes (vless_env.truncate env) = ve_client_writes env"
  "ve_client_shutdown (vless_env.truncate env) = ve_client_shutdown env"
  by (simp_all add: vless_env.truncate_def)

lemma first_bytes:
  assumes "length key = 16"
  shows "read_exact 17 (0 # key @ rest) = Ok (0 # key, rest)"
  using read_exact_append [of "0 # key" rest] assms by simp

text \<open>A connection that presents a configured user's identifier reaches VLESS under that user's name.\<close>

lemma serve_authenticated:
  assumes "te_set_nodelay env = Ok ()"
    and "ssh_to = None \<or> (\<exists>seen peeks. te_peeks env = Inr seen # peeks \<and> seen \<noteq> take (length seen) SSH_PREFIX)"
    and "te_accept env = Some (Ok (VERSION # key @ stream))" "te_prefix_in_time env"
    and "length key = 16" "us key = Some name"
  shows "serve env us ssh_to r =
    (case vless_serve (vless_env.truncate env) name stream r of (res, out, r') \<Rightarrow> (res, To_VLESS name out, r'))"
proof -
  have "(case ssh_to of None \<Rightarrow> Ok None
       | Some upstream \<Rightarrow> and_then (is_ssh_connection (te_peeks env)) (\<lambda>b. Ok (if b then Some upstream else None))) =
      (Ok None :: SocketAddr option result)"
    using assms(2) by (auto simp: not_ssh simp del: is_ssh_connection.simps split: option.split)
  then show ?thesis
    using assms(1,3-) by (simp add: serve_def first_bytes authenticate_def)
qed

section \<open>Properties\<close>

text \<open>A concrete connection for the witnesses: a digest function, one user, and a transport that
  delivers all in one piece.\<close>

definition example_sha :: "bytes \<Rightarrow> bytes" where
  "example_sha bs = replicate 32 (word_of_nat (length bs))"

definition example_user :: User where
  "example_user = \<lparr>user_name = ''a'', user_password = ''b''\<rparr>"

definition example_vless_env :: vless_env where
  "example_vless_env =
     \<lparr>ve_connect = (\<lambda>_. Ok ()), ve_head_write = Ok (), ve_client_reads = (\<lambda>s. [Ok s]), ve_upstream_writes = [],
      ve_upstream_shutdown = Ok (), ve_upstream_reads = [Ok [7, 8]], ve_client_writes = [], ve_client_shutdown = Ok (),
      ve_open_udp = Ok \<lparr>ipv4_socket = Some (), ipv6_socket = None, session_mode = PreferIpv4\<rparr>,
      ve_lookup = (\<lambda>_. Ok [SocketAddrV4 1 53]), ve_send = (\<lambda>_ p _. Ok (length p)),
      ve_arrivals = [Arrived4 (Ok ([5], SocketAddrV4 1 53))], ve_frame_writes = [], ve_upload_first = True\<rparr>"

definition example_tcp_env :: "bytes \<Rightarrow> tcp_env" where
  "example_tcp_env stream =
     vless_env.extend example_vless_env
       (tcp_env.fields (Ok ()) [Ok [0x16, 3, 1, 0]] (Some (Ok stream)) True (\<lambda>_. Ok ()) (Ok ()) (Ok ()))"

lemma example_tcp_fields [simp]:
  "te_set_nodelay (example_tcp_env s) = Ok ()" "te_prefix_in_time (example_tcp_env s)"
  "te_peeks (example_tcp_env s) = [Ok [0x16, 3, 1, 0]]" "te_accept (example_tcp_env s) = Some (Ok s)"
  "ve_connect (example_tcp_env s) = (\<lambda>_. Ok ())" "ve_head_write (example_tcp_env s) = Ok ()"
  "ve_upstream_shutdown (example_tcp_env s) = Ok ()" "ve_client_shutdown (example_tcp_env s) = Ok ()"
  "ve_client_reads (example_tcp_env s) = (\<lambda>s. [Ok s])" "ve_upstream_reads (example_tcp_env s) = [Ok [7, 8]]"
  "ve_upstream_writes (example_tcp_env s) = []" "ve_client_writes (example_tcp_env s) = []"
  by (simp_all add: example_tcp_env_def example_vless_env_def vless_env.extend_def tcp_env.fields_def)

text \<open>C24: a VLESS connection to a TCP destination, end to end. A client that sends a TLS handshake, the
  identifier of a configured user and a request is never taken for an SSH client; when the
  destination accepts and no read or write fails, the destination receives exactly the payload,
  the client receives the two-byte response and exactly what the destination sends, and these
  amounts are added to the user's counters, with no connection left marked active.\<close>

theorem vless_tcp_end_to_end:
  fixes sha :: "bytes \<Rightarrow> bytes" and u :: User
  defines "key \<equiv> user_id sha (user_name u) (user_password u)"
  assumes "u \<in> set us" "16 \<le> length (sha (as_bytes (user_name u) @ [0] @ as_bytes (user_password u)))"
    and "\<forall>v \<in> set us. user_id sha (user_name v) (user_password v) = key \<longrightarrow> user_name v = user_name u"
    and "te_set_nodelay env = Ok ()" "te_prefix_in_time env"
    and "te_peeks env = Inr (0x16 # hello) # peeks"
    and "te_accept env = Some (Ok (VERSION # key @ vless_request COMMAND_TCP port address @ payload))" "address_ok address"
    and "ve_connect env (destination_of address port) = Ok ()" "ve_head_write env = Ok ()"
    and "ve_upstream_shutdown env = Ok ()" "ve_client_shutdown env = Ok ()"
    and "\<forall>x \<in> set (ve_client_reads env payload). is_ok x" "\<forall>x \<in> set (ve_upstream_reads env). is_ok x"
    and "\<forall>c. Inr c \<in> set (ve_client_reads env payload) \<longrightarrow> length c \<le> RELAY_BUFFER_SIZE"
    and "\<forall>c. Inr c \<in> set (ve_upstream_reads env) \<longrightarrow> length c \<le> RELAY_BUFFER_SIZE"
    and "\<forall>w \<in> set (ve_upstream_writes env). is_ok w" "\<forall>w \<in> set (ve_client_writes env). is_ok w"
    and "stream_data (ve_client_reads env payload) = payload"
    and "user (user_name u) r = (a, r1)"
  shows "serve env (vless_users sha us) ssh_to r =
    (Ok (), To_VLESS (user_name u) \<lparr>vo_client = [VERSION, 0] @ stream_data (ve_upstream_reads env),
       vo_upstream = payload, vo_packets = []\<rparr>,
     record_download a (length (stream_data (ve_upstream_reads env))) (record_upload a (length payload) r1))"
proof -
  have "0x16 # hello \<noteq> take (length (0x16 # hello)) SSH_PREFIX" by (simp add: SSH_PREFIX_def as_bytes_def byte_of_char_def)
  moreover have "vless_users sha us key = Some (user_name u)"
    using vless_users_configured [OF assms(2)] assms(4) by (simp add: key_def)
  moreover have "length key = 16" using length_user_id [of sha "user_name u" "user_password u"] assms(3) by (simp add: key_def)
  ultimately have "serve env (vless_users sha us) ssh_to r =
      (case vless_serve (vless_env.truncate env) (user_name u) (vless_request COMMAND_TCP port address @ payload) r of
         (res, out, r') \<Rightarrow> (res, To_VLESS (user_name u) out, r'))"
    using serve_authenticated [OF assms(5) _ assms(8,6)] assms(7) by blast
  also have "serve_tcp (vless_env.truncate env) (destination_of address port) a payload (connection a r1) =
      (Ok (), \<lparr>vo_client = [VERSION, 0] @ stream_data (ve_upstream_reads env), vo_upstream = payload, vo_packets = []\<rparr>,
       record_download a (length (stream_data (ve_upstream_reads env))) (record_upload a (length payload) (connection a r1)))"
    using serve_tcp_succeeds [of "vless_env.truncate env" "destination_of address port" payload a "connection a r1"]
      assms(10-20) by (simp only: truncate_fields)
  ultimately show ?thesis
    using vless_serve_request [OF assms(9,21)] by (simp add: Let_def connection_cycle)
qed

theorem vless_tcp_end_to_end_witness:
  "let key = user_id example_sha ''a'' ''b'';
       env = example_tcp_env (VERSION # key @ vless_request COMMAND_TCP 80 (Vless_Domain ''x'') @ [1, 2, 3])
   in fst (serve env (vless_users example_sha [example_user]) (Some default_ssh_upstream) TrafficRegistry_default) = Ok () \<and>
      fst (snd (serve env (vless_users example_sha [example_user]) (Some default_ssh_upstream) TrafficRegistry_default)) =
        To_VLESS ''a'' \<lparr>vo_client = [0, 0, 7, 8], vo_upstream = [1, 2, 3], vo_packets = []\<rparr>"
proof -
  let ?env = "example_tcp_env (VERSION # user_id example_sha ''a'' ''b'' @ vless_request COMMAND_TCP 80 (Vless_Domain ''x'') @ [1, 2, 3])"
  have "valid_str ''x''" by (simp add: valid_str_ascii code_def)
  then have "serve ?env (vless_users example_sha [example_user]) (Some default_ssh_upstream) TrafficRegistry_default =
    (Ok (), To_VLESS (user_name example_user) \<lparr>vo_client = [VERSION, 0] @ stream_data (ve_upstream_reads ?env),
       vo_upstream = [1, 2, 3], vo_packets = []\<rparr>,
     record_download (fst (user ''a'' TrafficRegistry_default)) (length (stream_data (ve_upstream_reads ?env)))
       (record_upload (fst (user ''a'' TrafficRegistry_default)) (length [1 :: u8, 2, 3]) (snd (user ''a'' TrafficRegistry_default))))"
    by (intro vless_tcp_end_to_end [where address = "Vless_Domain ''x''" and port = 80 and hello = "[3, 1, 0]" and peeks = "[]"])
      (simp_all add: example_user_def example_sha_def)
  then show ?thesis by (simp add: Let_def example_user_def)
qed

text \<open>C8: only configured users get through. A connection is handed to VLESS only if its first bytes
  after the TLS handshake are the version and the identifier of a configured user, under that
  user's name; it is handed to SSH only if SSH is enabled and the first bytes peeked, if any, are
  a beginning of the SSH banner; otherwise the traffic registry is untouched.\<close>

theorem tcp_connections_authenticated:
  assumes "serve env (vless_users sha us) ssh_to r = (res, how, r')"
  shows "case how of
      Rejected \<Rightarrow> \<not> is_ok res \<and> r' = r
    | To_SSH upstream \<Rightarrow> r' = r \<and> ssh_to = Some upstream \<and>
        (te_peeks env = [] \<or> (\<exists>seen rest. te_peeks env = Inr seen # rest \<and> seen \<noteq> [] \<and> seen = take (length seen) SSH_PREFIX))
    | To_VLESS name out \<Rightarrow>
        (\<exists>u \<in> set us. \<exists>stream. user_name u = name \<and>
           te_accept env = Some (Ok (VERSION # user_id sha (user_name u) (user_password u) @ stream)))"
proof (cases how)
  case Rejected
  then show ?thesis
    using assms by (auto simp: serve_def split: sum.splits option.splits prod.splits)
next
  case (To_SSH upstream)
  with assms have "r' = r" "ssh_to = Some upstream" "is_ssh_connection (te_peeks env) = Ok True"
    by (auto simp: serve_def result_simps simp del: is_ssh_connection.simps split: sum.splits option.splits prod.splits if_splits)
  then show ?thesis
    using To_SSH is_ssh_connection_True [of "te_peeks env"] by (cases "te_peeks env"; cases "hd (te_peeks env)") auto
next
  case (To_VLESS name out)
  with assms obtain stream first rest where s: "te_accept env = Some (Ok stream)" "read_exact 17 stream = Ok (first, rest)"
    "authenticate (vless_users sha us) first = Ok name"
    by (auto simp: serve_def result_simps split: sum.splits option.splits prod.splits)
  then have "first \<noteq> []" and *: "stream = first @ rest" by (auto simp: read_exact_def split: if_splits)
  then obtain key where k: "first = VERSION # key" "vless_users sha us key = Some name"
    using s(3) by (cases first) (auto simp: authenticate_def result_simps split: if_splits)
  from vless_users_Some [OF k(2)] * k s(1) To_VLESS show ?thesis by auto
qed

theorem tcp_connections_authenticated_witness:
  "let stream = VERSION # user_id example_sha ''a'' ''b'' @ [0, 9, 0, 80, 1, 1, 1, 1, 1];
       run = serve (example_tcp_env stream) (vless_users example_sha [example_user]) None TrafficRegistry_default
   in (\<exists>out. fst (snd run) = To_VLESS ''a'' out) \<and> (\<exists>s. stream = VERSION # user_id example_sha ''a'' ''b'' @ s)"
proof -
  let ?stream = "VERSION # user_id example_sha ''a'' ''b'' @ [0, 9, 0, 80, 1, 1, 1, 1, 1]"
  let ?run = "serve (example_tcp_env ?stream) (vless_users example_sha [example_user]) None TrafficRegistry_default"
  have "vless_users example_sha [example_user] (user_id example_sha ''a'' ''b'') = Some ''a''"
    by (simp add: vless_users_def example_user_def)
  moreover have "length (user_id example_sha ''a'' ''b'') = 16" by (rule length_user_id) (simp add: example_sha_def)
  ultimately have "\<exists>res out r'. ?run = (res, To_VLESS ''a'' out, r')"
    by (subst serve_authenticated) (auto split: prod.split)
  then obtain res out r' where run: "?run = (res, To_VLESS ''a'' out, r')" by blast
  from tcp_connections_authenticated [OF run] run show ?thesis
    by (simp add: Let_def example_user_def)
qed

text \<open>VLESS over UDP. However the client's packets follow each other, each packet of 1 to 65535
  bytes it frames is sent to the destination as one datagram, in order, and each answer comes back
  as one frame, in order; the amounts are added to the user's counters. The session itself always
  ends with an error, at the latest when the client closes.\<close>

theorem vless_udp_frames:
  assumes "address_ok address" "user name r = (a, r1)"
    and "ve_open_udp env = Ok session" "ve_head_write env = Ok ()"
    and "\<forall>p \<in> set ps. p \<noteq> [] \<and> length p \<le> MAX_UDP_PACKET_SIZE \<and>
      is_ok (fst (send_to (ve_lookup env) (ve_send env) session p (destination_of address port)))"
    and "list_all2 arrives qs (ve_arrivals env)" "\<forall>q \<in> set qs. length q \<le> MAX_UDP_PACKET_SIZE"
    and "\<forall>w \<in> set (ve_frame_writes env). is_ok w"
  shows "\<exists>e. vless_serve env name
      (vless_request COMMAND_UDP port address @ concat (map (\<lambda>p. be_bytes 2 (word_of_nat (length p) :: u16) @ p) ps)) r =
    (Err e, \<lparr>vo_client = [VERSION, 0] @ concat (map (\<lambda>q. be_bytes 2 (word_of_nat (length q) :: u16) @ q) qs),
       vo_upstream = [], vo_packets = ps\<rparr>,
     record_download a (length (concat qs)) (record_upload a (length (concat ps)) r1))"
proof -
  have f: "map (\<lambda>p. udp_frame (length p) p) xs = map (\<lambda>p. be_bytes 2 (word_of_nat (length p) :: u16) @ p) xs" for xs
    by (simp add: udp_frame_def)
  from serve_udp_forwards [OF assms(3-8), of a "connection a r1"] show ?thesis
    using vless_serve_request [OF assms(1,2)] by (auto simp: f connection_cycle Let_def)
qed

theorem vless_udp_frames_witness:
  "\<exists>e. vless_serve example_vless_env ''a'' (vless_request COMMAND_UDP 53 (Vless_V4 1) @ [0, 2, 8, 9, 0, 1, 4]) TrafficRegistry_default =
    (Err e, \<lparr>vo_client = [0, 0, 0, 1, 5], vo_upstream = [], vo_packets = [[8, 9], [4]]\<rparr>,
     record_download 0 1 (record_upload 0 3 (snd (user ''a'' TrafficRegistry_default))))"
proof -
  let ?session = "\<lparr>ipv4_socket = Some (), ipv6_socket = None, session_mode = PreferIpv4\<rparr>"
  have u: "user ''a'' TrafficRegistry_default = (0, snd (user ''a'' TrafficRegistry_default))"
    by (simp add: user_def or_default_def TrafficRegistry_default_def)
  have s: "is_ok (fst (send_to (ve_lookup example_vless_env) (ve_send example_vless_env) ?session p d))" for p d
    by (simp add: send_to_def example_vless_env_def order_addresses_def add_address_def socket_for_def)
  have a: "list_all2 arrives [[5]] (ve_arrivals example_vless_env)"
    by (auto simp: arrives_def example_vless_env_def)
  have "ve_open_udp example_vless_env = Ok ?session" "ve_head_write example_vless_env = Ok ()" "ve_frame_writes example_vless_env = []"
    by (simp_all add: example_vless_env_def)
  moreover have e: "concat (map (\<lambda>p. be_bytes 2 (word_of_nat (length p) :: u16) @ p) [[8, 9], [4]]) = [0, 2, 8, 9, 0, 1, 4]"
    "concat (map (\<lambda>p. be_bytes 2 (word_of_nat (length p) :: u16) @ p) [[5]]) = [0, 1, 5]"
    "length (concat [[8 :: u8, 9], [4]]) = 3" "length (concat [[5 :: u8]]) = 1" by code_simp+
  ultimately show ?thesis
    using vless_udp_frames [OF _ u, of "Vless_V4 1" example_vless_env ?session "[[8, 9], [4]]" 53 "[[5]]", unfolded e] s a
    by simp
qed

end
