(* ===== verification/Rust_Path.thy ===== *)
theory Rust_Path
  imports Rust_Str
begin

text \<open>
  The part of \<^verbatim>\<open>std::path\<close> the program uses, on Unix: the components of a path, joining two paths, and
  the parent of a path.
\<close>

section \<open>Operations\<close>

text \<open>\<^verbatim>\<open>std::path::Path::components\<close> on Unix: empty parts and the dots after the first part disappear.\<close>

datatype component = RootDir | CurDir | ParentDir | Normal string

definition path_part :: "string \<Rightarrow> component list" where
  "path_part p = (if p = [] \<or> p = ''.'' then [] else if p = ''..'' then [ParentDir] else [Normal p])"

definition path_parts :: "string \<Rightarrow> component list" where
  "path_parts s = concat (map path_part (split_on (\<lambda>c. c = CHR ''/'') s))"

definition path_components :: "string \<Rightarrow> component list" where
  "path_components s =
     (if starts_with ''/'' s then [RootDir]
      else if hd (split_on (\<lambda>c. c = CHR ''/'') s) = ''.'' then [CurDir] else []) @ path_parts s"

text \<open>\<^verbatim>\<open>PathBuf::push\<close>.\<close>

definition path_push :: "string \<Rightarrow> string \<Rightarrow> string" where
  "path_push path p =
     (if starts_with ''/'' p then p
      else path @ (if path \<noteq> [] \<and> last path \<noteq> CHR ''/'' then ''/'' else []) @ p)"

text \<open>\<^verbatim>\<open>Path::parent\<close> of a path without repeated or trailing slashes, such as \<^verbatim>\<open>fs::canonicalize\<close> returns.\<close>

definition path_parent :: "string \<Rightarrow> string option" where
  "path_parent p =
     (if p = ''/'' then None
      else (case rsplit_once (CHR ''/'') p of
              None \<Rightarrow> if p = [] then None else Some []
            | Some (dir, _) \<Rightarrow> Some (if dir = [] then ''/'' else dir)))"

definition is_normal :: "component \<Rightarrow> bool" where
  "is_normal c = (case c of Normal _ \<Rightarrow> True | _ \<Rightarrow> False)"

section \<open>Lemmas\<close>

lemma path_parts_append: "path_parts (s @ CHR ''/'' # t) = path_parts s @ path_parts t"
  by (simp add: path_parts_def split_on_append_sep)

lemma path_parts_trailing: "path_parts (s @ ''/'') = path_parts s"
  using path_parts_append [of s "[]"] by (simp add: path_parts_def path_part_def)

text \<open>Pushing a relative path appends its parts.\<close>

lemma split_on_hd_append: "hd (split_on (\<lambda>c. c = CHR ''/'') (s @ CHR ''/'' # t)) = hd (split_on (\<lambda>c. c = CHR ''/'') s)"
  by (simp add: split_on_append_sep)

lemma starts_with_char: "starts_with [c] s \<longleftrightarrow> s \<noteq> [] \<and> hd s = c"
  by (cases s) (auto simp: starts_with_def)

lemma trim_start_matches_hd: "\<not> starts_with [c] (trim_start_matches c s)"
  by (induction s) (simp_all add: trim_start_matches_def starts_with_char)

lemma path_components_push:
  assumes "dir \<noteq> []" "\<not> starts_with ''/'' p"
  shows "path_components (path_push dir p) = path_components dir @ path_parts p"
proof -
  obtain d where d: "path_push dir p = d @ CHR ''/'' # p" "dir = d \<or> dir = d @ ''/''"
  proof (cases "last dir = CHR ''/''")
    case True
    with assms have "path_push dir p = butlast dir @ CHR ''/'' # p"
      by (simp add: path_push_def) (metis append_Cons append_assoc append_butlast_last_id self_append_conv2)
    moreover have "dir = butlast dir @ ''/''" using True assms(1) by (metis append_butlast_last_id)
    ultimately show ?thesis using that by blast
  next
    case False
    with assms have "path_push dir p = dir @ CHR ''/'' # p" by (simp add: path_push_def)
    then show ?thesis using that by blast
  qed
  have "starts_with ''/'' (d @ CHR ''/'' # p) = starts_with ''/'' dir"
    "hd (split_on (\<lambda>c. c = CHR ''/'') (d @ CHR ''/'' # p)) = hd (split_on (\<lambda>c. c = CHR ''/'') dir)"
    using d(2) assms(1) split_on_hd_append [of d "[]"] split_on_hd_append [of d p]
    by (auto simp: starts_with_char hd_append)
  moreover have "path_parts (d @ CHR ''/'' # p) = path_parts dir @ path_parts p"
    using d(2) path_parts_append [of d p] path_parts_trailing [of d] by auto
  ultimately show ?thesis by (simp add: d(1) path_components_def)
qed

lemma path_parts_kinds: "c \<in> set (path_parts p) \<Longrightarrow> c = ParentDir \<or> is_normal c"
  by (auto simp: path_parts_def path_part_def is_normal_def split: if_splits)

end
