(* ===== verification/Masquerade.thy ===== *)
theory Masquerade
  imports Hy2_Auth Rust_Path
begin

text \<open>
  The masquerade of \<^verbatim>\<open>src/src/masquerade.rs\<close>: what the server answers to requests that do not authenticate.
  The URL and percent-decoding libraries, the MIME table, the HTTP client and the file system are
  arguments; the path of the file that was read and the request that was forwarded are part of the
  results.
\<close>

section \<open>Requests\<close>

record masq_request =
  mr_method :: string
  mr_path :: string
  mr_query :: "string option"
  mr_authority :: "string option"
  mr_headers :: "(string \<times> string) list"

text \<open>\<^verbatim>\<open>HeaderMap\<close> keeps its names in lower case.\<close>

definition string_headers :: "libs \<Rightarrow> (string \<times> string list) list \<Rightarrow> (string \<times> string) list result" where
  "string_headers lb hs =
     and_then (collect_results (map (\<lambda>(name, values).
       and_then (ensure (header_name_ok lb name) ''invalid HTTP header name'') (\<lambda>_.
       collect_results (map (\<lambda>v.
         and_then (ensure (header_value_ok lb v) ''failed to parse header value'') (\<lambda>_.
         Ok (to_ascii_lowercase name, v))) values))) hs)) (\<lambda>groups.
     Ok (concat groups))"

definition is_hop_by_hop :: "string \<Rightarrow> bool" where
  "is_hop_by_hop name =
     (name = ''connection'' \<or> name = ''transfer-encoding'' \<or> name = ''upgrade'' \<or>
      eq_ignore_ascii_case name ''keep-alive'' \<or> eq_ignore_ascii_case name ''proxy-connection'')"

text \<open>The libraries of the file and proxy handlers.\<close>

record 'url masq_libs =
  percent_decode :: "string \<Rightarrow> bytes"
  is_dir :: "string \<Rightarrow> bool"
  read_file :: "string \<Rightarrow> bytes option"
  mime_type :: "string \<Rightarrow> string option"
  ml_url_parse :: "string \<Rightarrow> 'url result"
  ml_url_path :: "'url \<Rightarrow> string"
  ml_set_path :: "string \<Rightarrow> 'url \<Rightarrow> 'url"
  ml_set_query :: "string option \<Rightarrow> 'url \<Rightarrow> 'url"
  ml_send :: "string \<Rightarrow> 'url \<Rightarrow> (string \<times> string) list \<Rightarrow> bytes \<Rightarrow> (nat \<times> (string \<times> string) list \<times> bytes result) result"

definition empty_response :: "nat \<Rightarrow> http_response" where
  "empty_response status = \<lparr>hs_status = status, hs_headers = [], hs_body = []\<rparr>"

definition relative_path :: "'url masq_libs \<Rightarrow> masq_request \<Rightarrow> string result" where
  "relative_path ml r =
     and_then (ok_or (from_utf8 (percent_decode ml (mr_path r))) ''decode masquerade request path'') (\<lambda>decoded.
     let relative = trim_start_matches (CHR ''/'') decoded in
     if list_ex (\<lambda>part. case part of CurDir \<Rightarrow> False | Normal _ \<Rightarrow> False | _ \<Rightarrow> True) (path_components relative)
     then Err ''unsafe masquerade request path''
     else Ok relative)"

definition file_response ::
  "libs \<Rightarrow> 'url masq_libs \<Rightarrow> string \<Rightarrow> masq_request \<Rightarrow> http_response result \<times> string option" where
  "file_response lb ml dir r =
     (if mr_method r \<noteq> ''GET'' \<and> mr_method r \<noteq> ''HEAD'' then (Ok (empty_response 405), None)
      else (case relative_path ml r of
        Err e \<Rightarrow> (Err e, None)
      | Ok relative \<Rightarrow>
          let path = path_push dir relative;
              path = (if is_dir ml path then path_push path ''index.html'' else path)
          in case read_file ml path of
               None \<Rightarrow> (Ok (empty_response 404), Some path)
             | Some data \<Rightarrow>
                 (and_then
                    (case mime_type ml path of
                       None \<Rightarrow> Ok []
                     | Some mime \<Rightarrow> and_then (ensure (header_value_ok lb mime) ''failed to parse header value'') (\<lambda>_.
                         Ok [(''content-type'', mime)]))
                    (\<lambda>hs. Ok \<lparr>hs_status = 200, hs_headers = hs,
                            hs_body = (if mr_method r = ''HEAD'' then [] else data)\<rparr>), Some path)))"

definition proxy_target :: "'url masq_libs \<Rightarrow> masq_request \<Rightarrow> 'url \<Rightarrow> 'url" where
  "proxy_target ml r u =
     (let base_path = trim_end_matches (CHR ''/'') (ml_url_path ml u);
          request_path = trim_start_matches (CHR ''/'') (mr_path r)
      in ml_set_query ml (mr_query r) (ml_set_path ml (base_path @ ''/'' @ request_path) u))"

definition proxy_headers :: "bool \<Rightarrow> masq_request \<Rightarrow> (string \<times> string) list" where
  "proxy_headers rewrite r =
     filter (\<lambda>(name, _). \<not> is_hop_by_hop name \<and> name \<noteq> ''host'' \<and> name \<noteq> ''content-length'') (mr_headers r) @
     (case (rewrite, mr_authority r) of (False, Some authority) \<Rightarrow> [(''host'', authority)] | _ \<Rightarrow> [])"

definition proxy_response ::
  "'url masq_libs \<Rightarrow> string \<Rightarrow> bool \<Rightarrow> masq_request \<Rightarrow> bytes \<Rightarrow> http_response result" where
  "proxy_response ml target rewrite r data =
     and_then (ml_url_parse ml target) (\<lambda>u.
     and_then (map_err (\<lambda>_. ''forward masquerade request'')
        (ml_send ml (mr_method r) (proxy_target ml r u) (proxy_headers rewrite r) data)) (\<lambda>(status, hs, reply).
     and_then (map_err (\<lambda>_. ''read masquerade response'') reply) (\<lambda>reply.
     Ok \<lparr>hs_status = status, hs_headers = filter (\<lambda>(name, _). \<not> is_hop_by_hop name) hs, hs_body = reply\<rparr>)))"

fun response ::
  "libs \<Rightarrow> 'url masq_libs \<Rightarrow> MasqueradeConfig option \<Rightarrow> masq_request \<Rightarrow> bytes \<Rightarrow> http_response result" where
  "response lb ml None r data = Ok (empty_response 404)"
| "response lb ml (Some (MasqueradeString status hs text)) r data =
     and_then (string_headers lb hs) (\<lambda>hs.
     and_then (ensure (status_code_ok status) ''invalid status code'') (\<lambda>_.
     Ok \<lparr>hs_status = unat status, hs_headers = hs, hs_body = as_bytes text\<rparr>))"
| "response lb ml (Some (MasqueradeFile dir)) r data = fst (file_response lb ml dir r)"
| "response lb ml (Some (MasqueradeProxy target rewrite)) r data = proxy_response ml target rewrite r data"

section \<open>Lemmas\<close>

lemma relative_path_Ok:
  assumes "relative_path ml r = Ok relative"
  shows "list_all is_normal (path_parts relative) \<and> \<not> starts_with ''/'' relative"
proof -
  obtain decoded where d: "relative = trim_start_matches (CHR ''/'') decoded"
    and safe: "\<not> list_ex (\<lambda>part. case part of CurDir \<Rightarrow> False | Normal _ \<Rightarrow> False | _ \<Rightarrow> True) (path_components relative)"
    using assms by (auto simp: relative_path_def result_simps Let_def split: if_splits)
  have "is_normal c" if "c \<in> set (path_parts relative)" for c
  proof -
    have "c \<in> set (path_components relative)" using that by (simp add: path_components_def)
    with safe have "c \<noteq> ParentDir" by (auto simp: list_ex_iff split: component.splits)
    with path_parts_kinds [OF that] show ?thesis by blast
  qed
  moreover have "\<not> starts_with ''/'' relative"
    unfolding d by (rule trim_start_matches_hd)
  ultimately show ?thesis by (simp add: list_all_iff)
qed

lemma string_headers_valid:
  assumes "collect_results (map (check_header lb) hs) = Ok us"
  shows "string_headers lb hs = Ok (concat (map (\<lambda>(name, values). map (Pair (to_ascii_lowercase name)) values) hs))"
proof -
  have one: "check_header lb h = Ok u \<Longrightarrow>
      and_then (ensure (header_name_ok lb (fst h)) e) (\<lambda>_. collect_results (map (\<lambda>v.
        and_then (ensure (header_value_ok lb v) e') (\<lambda>_. Ok (to_ascii_lowercase (fst h), v))) (snd h))) =
      Ok (map (Pair (to_ascii_lowercase (fst h))) (snd h))" for h u and e e' :: string
  proof -
    assume "check_header lb h = Ok u"
    then have "header_name_ok lb (fst h)" "list_all (header_value_ok lb) (snd h)"
      by (auto simp: check_header_def result_simps case_prod_unfold)
    moreover from this(2) have *: "map (\<lambda>v. and_then (ensure (header_value_ok lb v) e') (\<lambda>_. Ok (to_ascii_lowercase (fst h), v))) (snd h) =
        map (\<lambda>v. Ok (to_ascii_lowercase (fst h), v)) (snd h)" by (auto simp: list_all_iff)
    ultimately show ?thesis by (simp only: * collect_results_map_Ok ensure_simps and_then_simps)
  qed
  have "collect_results (map (\<lambda>(name, values).
       and_then (ensure (header_name_ok lb name) e) (\<lambda>_. collect_results (map (\<lambda>v.
         and_then (ensure (header_value_ok lb v) e') (\<lambda>_. Ok (to_ascii_lowercase name, v))) values))) hs) =
      Ok (map (\<lambda>(name, values). map (Pair (to_ascii_lowercase name)) values) hs)" for e e' :: string
    using assms
  proof (induction hs arbitrary: us)
    case (Cons h hs)
    then obtain u us' where c: "check_header lb h = Ok u" "collect_results (map (check_header lb) hs) = Ok us'"
      by (auto simp: result_simps)
    from Cons.IH [OF c(2)] one [OF c(1), of e e'] show ?case by (simp add: case_prod_unfold)
  qed simp
  then show ?thesis by (simp add: string_headers_def)
qed

section \<open>Properties\<close>

text \<open>C33: the file masquerade stays inside its directory. Whatever path a client asks for, percent-encoded
  or not, the file that is read is the configured directory followed by normal path components only,
  never a parent directory; the only answers without a file are 405 for other methods and an error
  for a path that is not UTF-8 or is unsafe.\<close>

theorem masquerade_confined:
  assumes "file_response lb ml dir r = (result, read)" "dir \<noteq> []"
  shows "(\<forall>path. read = Some path \<longrightarrow>
      (\<exists>parts. path_components path = path_components dir @ parts \<and> list_all is_normal parts)) \<and>
    (read = None \<longrightarrow> (mr_method r \<notin> {''GET'', ''HEAD''} \<and> result = Ok (empty_response 405)) \<or>
      result \<in> {Err ''decode masquerade request path'', Err ''unsafe masquerade request path''})"
proof (cases "mr_method r \<notin> {''GET'', ''HEAD''}")
  case True
  then show ?thesis using assms(1) by (simp add: file_response_def)
next
  case get: False
  show ?thesis
  proof (cases "relative_path ml r")
    case (Inl e)
    then have "e \<in> {''decode masquerade request path'', ''unsafe masquerade request path''}"
      by (auto simp: relative_path_def result_simps Let_def split: if_splits)
    with Inl get assms(1) show ?thesis by (auto simp: file_response_def)
  next
    case (Inr relative)
    let ?p = "path_push dir relative"
    note rel = relative_path_Ok [OF Inr]
    have p: "path_components ?p = path_components dir @ path_parts relative"
      using path_components_push [OF assms(2)] rel by blast
    have "?p \<noteq> []" using assms(2) rel by (simp add: path_push_def)
    then have "path_components (path_push ?p ''index.html'') = path_components dir @ path_parts relative @ [Normal ''index.html'']"
      using path_components_push [of ?p "''index.html''"] p by (simp add: path_parts_def path_part_def starts_with_def)
    moreover have "read = Some (if is_dir ml ?p then path_push ?p ''index.html'' else ?p)"
      using assms(1) Inr get by (auto simp: file_response_def Let_def split: option.splits)
    ultimately show ?thesis using p rel by (auto simp: is_normal_def)
  qed
qed

text \<open>A directory tree for the witness.\<close>

definition example_masq_libs :: "string masq_libs" where
  "example_masq_libs =
     \<lparr>percent_decode = (\<lambda>s. as_bytes s), is_dir = (\<lambda>p. p = ''www/''), read_file = (\<lambda>p. if p = ''www/index.html'' then Some [1] else None),
      mime_type = (\<lambda>_. None), ml_url_parse = Ok, ml_url_path = (\<lambda>_. []), ml_set_path = (\<lambda>p _. p), ml_set_query = (\<lambda>_ u. u),
      ml_send = (\<lambda>_ _ _ _. Err ''offline'')\<rparr>"

theorem masquerade_confined_witness:
  "let get = (\<lambda>p. \<lparr>mr_method = ''GET'', mr_path = p, mr_query = None, mr_authority = None, mr_headers = []\<rparr>);
       run = file_response example_libs example_masq_libs ''www''
   in snd (run (get ''/'')) = Some ''www/index.html'' \<and> fst (run (get ''/../key'')) = Err ''unsafe masquerade request path'' \<and>
      (\<exists>parts. path_components ''www/index.html'' = path_components ''www'' @ parts \<and> list_all is_normal parts)"
proof -
  let ?get = "\<lambda>p. \<lparr>mr_method = ''GET'', mr_path = p, mr_query = None, mr_authority = None, mr_headers = []\<rparr>"
  let ?run = "file_response example_libs example_masq_libs ''www''"
  have r: "snd (?run (?get ''/'')) = Some ''www/index.html''" "fst (?run (?get ''/../key'')) = Err ''unsafe masquerade request path''"
    by code_simp+
  have "?run (?get ''/'') = (fst (?run (?get ''/'')), Some ''www/index.html'')" by (simp add: r(1) [symmetric])
  from masquerade_confined [OF this] r show ?thesis by (simp add: Let_def)
qed

text \<open>A configuration that passes validation never makes the string masquerade fail: it answers
  every request with the configured status, body and headers, each header once per value, in order.\<close>

theorem string_masquerade_total:
  assumes "validate_masquerade lb (MasqueradeString status hs text) = Ok ()"
  shows "response lb ml (Some (MasqueradeString status hs text)) r data =
    Ok \<lparr>hs_status = unat status,
        hs_headers = concat (map (\<lambda>(name, values). map (Pair (to_ascii_lowercase name)) values) hs), hs_body = as_bytes text\<rparr>"
proof -
  obtain us where "collect_results (map (check_header lb) hs) = Ok us" "status_code_ok status"
    using assms by (auto simp: result_simps)
  with string_headers_valid show ?thesis by simp
qed

theorem string_masquerade_total_witness:
  "let c = MasqueradeString 201 [(''X-Test'', [''one'', ''two''])] ''hello'';
       r = \<lparr>mr_method = ''GET'', mr_path = ''/'', mr_query = None, mr_authority = None, mr_headers = []\<rparr>
   in validate_masquerade example_libs c = Ok () \<and>
      response example_libs example_masq_libs (Some c) r [] =
        Ok \<lparr>hs_status = 201, hs_headers = [(''x-test'', ''one''), (''x-test'', ''two'')], hs_body = as_bytes ''hello''\<rparr>"
proof -
  have v: "validate_masquerade example_libs (MasqueradeString 201 [(''X-Test'', [''one'', ''two''])] ''hello'') = Ok ()"
    "to_ascii_lowercase ''X-Test'' = ''x-test''" by code_simp+
  from string_masquerade_total [OF v(1), of example_masq_libs] v show ?thesis by (simp add: Let_def)
qed

end
