(* ===== verification/Server.thy ===== *)
theory Server
  imports Hy2_Tcp Hy2_Udp Tcp_Server Masquerade
begin

text \<open>
  The proxy server of \<^verbatim>\<open>src/src/server.rs\<close> around its connections: opening the two listeners, the loop that
  accepts connections and pairs each QUIC connection with the cell of its congestion controller, and the
  life of one authenticated connection. TLS, the QUIC endpoint and the sockets are arguments.
\<close>

section \<open>Listeners\<close>

text \<open>The certificates and the key as for the TCP listener, then the QUIC configuration from them.\<close>

definition make_server_config ::
  "(string \<Rightarrow> ('e + 'cert) list option) \<Rightarrow> (string \<Rightarrow> 'key option) \<Rightarrow> ('cert list \<Rightarrow> 'key \<Rightarrow> 'tls option) \<Rightarrow> ('tls \<Rightarrow> 'quic option) \<Rightarrow>
   Config \<Rightarrow> 'quic result" where
  "make_server_config pem_file_iter from_pem_file with_single_cert quic_config c =
     and_then (ok_or (pem_file_iter (certificate (tls c))) (''read TLS certificate '' @ certificate (tls c))) (\<lambda>items.
     and_then (map_err (\<lambda>_. ''parse TLS certificate PEM'') (collect_results items)) (\<lambda>certificates.
     if certificates = [] then Err ''TLS certificate file does not contain a certificate''
     else
       and_then (ok_or (from_pem_file (private_key (tls c))) (''read TLS private key '' @ private_key (tls c))) (\<lambda>key.
       and_then (ok_or (with_single_cert certificates key) ''configure TLS certificate'') (\<lambda>cfg.
       ok_or (quic_config cfg) ''configure QUIC TLS''))))"

text \<open>The calls on the UDP socket; binding it in one call is \<open>Bind\<close> alone.\<close>

definition bind_server_socket :: "(socket_call \<Rightarrow> 'e + unit) \<Rightarrow> SocketAddr \<Rightarrow> ('e + unit) \<times> socket_call list" where
  "bind_server_socket os addr =
     run_calls os
       (if \<not> is_ipv4 addr \<and> is_unspecified (ip_of addr) then [NewSocket False, SetOnlyV6 False, Bind addr]
        else [Bind addr])"

text \<open>The endpoint reads and writes its datagrams as they are, or through the obfuscating socket with a password.\<close>

record hy2_endpoint =
  ep_listen :: SocketAddr
  ep_obfs :: "bytes option"

definition make_endpoint ::
  "(socket_call \<Rightarrow> string + unit) \<Rightarrow> unit result \<Rightarrow> unit result \<Rightarrow> Config \<Rightarrow> hy2_endpoint result" where
  "make_endpoint os wrap created c =
     and_then (fst (bind_server_socket os (listen c))) (\<lambda>_.
     and_then (os (SetNonblocking True)) (\<lambda>_.
     case obfs c of
       None \<Rightarrow> and_then created (\<lambda>_. Ok \<lparr>ep_listen = listen c, ep_obfs = None\<rparr>)
     | Some ob \<Rightarrow>
         and_then wrap (\<lambda>_.
         and_then created (\<lambda>_. Ok \<lparr>ep_listen = listen c, ep_obfs = Some (as_bytes (obfs_password ob))\<rparr>))))"

section \<open>The accept loop\<close>

text \<open>Connections are numbered as they are accepted. A QUIC connection that was accepted waits, whether or not its handshake
  has finished, until a congestion cell is pending.\<close>

datatype accept_phase = Accepting | Pairing nat | Finished "unit result"

datatype spawned = Tcp_Task nat "SocketAddr option" | Quic_Task nat AuthenticationOptions

record server =
  sv_config :: Config
  sv_endpoint :: hy2_endpoint
  sv_congestion :: Hy2CongestionConfig
  sv_phase :: accept_phase
  sv_next :: nat
  sv_tasks :: "spawned list"

definition server_start ::
  "'quic result \<Rightarrow> hy2_endpoint result \<Rightarrow> unit result \<Rightarrow> 'tls result \<Rightarrow> Config \<Rightarrow> TrafficRegistry \<Rightarrow>
   server result \<times> TrafficRegistry" where
  "server_start quic ep tcp_listener tls_config c traffic =
     (and_then quic (\<lambda>_.
      and_then (map_err (\<lambda>_. ''bind HY2 UDP listener on '' @ show_socket_addr (listen c)) ep) (\<lambda>ep.
      and_then (map_err (\<lambda>_. ''bind VLESS TCP listener on '' @ show_socket_addr (listen c)) tcp_listener) (\<lambda>_.
      and_then tls_config (\<lambda>_.
      Ok \<lparr>sv_config = c, sv_endpoint = ep,
          sv_congestion = Hy2CongestionConfig_new (saturating_mul (up_mbps (bandwidth c)) 125000),
          sv_phase = Accepting, sv_next = 0, sv_tasks = []\<rparr>)))),
      sync_users (map user_name (users c)) traffic)"

definition accept_quic :: "server \<Rightarrow> server" where
  "accept_quic s =
     (if sv_phase s = Accepting then s\<lparr>sv_phase := Pairing (sv_next s), sv_next := Suc (sv_next s)\<rparr> else s)"

definition endpoint_closed :: "server \<Rightarrow> server" where
  "endpoint_closed s = (if sv_phase s = Accepting then s\<lparr>sv_phase := Finished (Ok ())\<rparr> else s)"

definition accept_tcp :: "unit result \<Rightarrow> server \<Rightarrow> server" where
  "accept_tcp accepted s =
     (if sv_phase s \<noteq> Accepting then s
      else (case accepted of
        Err _ \<Rightarrow> s\<lparr>sv_phase := Finished (Err ''accept TCP proxy connection'')\<rparr>
      | Ok _ \<Rightarrow>
          s\<lparr>sv_tasks := sv_tasks s @ [Tcp_Task (sv_next s)
               (if ssh_enabled (ssh (sv_config s)) then Some (ssh_upstream (ssh (sv_config s))) else None)],
            sv_next := Suc (sv_next s)\<rparr>))"

definition shutdown :: "server \<Rightarrow> server" where
  "shutdown s = (if sv_phase s = Accepting then s\<lparr>sv_phase := Finished (Ok ())\<rparr> else s)"

text \<open>Taking the rate: \<open>None\<close> while the loop waits for one.\<close>

definition pair_rate :: "server \<Rightarrow> server option" where
  "pair_rate s =
     (case sv_phase s of
        Pairing k \<Rightarrow>
          map_option (\<lambda>(cell, congestion).
            s\<lparr>sv_congestion := congestion, sv_phase := Accepting,
              sv_tasks := sv_tasks s @ [Quic_Task k (authentication_options (sv_config s) congestion cell)]\<rparr>)
            (take_pending_rate (sv_congestion s))
      | _ \<Rightarrow> None)"

text \<open>The QUIC library creates the congestion controller of a path.\<close>

definition build_controller :: "'b bbr_ops \<Rightarrow> nat \<Rightarrow> u16 \<Rightarrow> server \<Rightarrow> server" where
  "build_controller ops now path_mtu s = s\<lparr>sv_congestion := snd (snd (hy2_build ops now path_mtu (sv_congestion s)))\<rparr>"

text \<open>The runs in which the library builds one controller for each connection, between accepting it and pairing
  it. The list is the connections and the cells of their controllers.\<close>

inductive server_run :: "server \<Rightarrow> (nat \<times> nat) list \<Rightarrow> bool" where
  run_start: "server_start (quic :: unit result) ep tcp_listener (tls_config :: unit result) c traffic = (Ok s, traffic') \<Longrightarrow> server_run s []"
| run_quic: "server_run s built \<Longrightarrow> server_run (accept_quic s) built"
| run_closed: "server_run s built \<Longrightarrow> server_run (endpoint_closed s) built"
| run_tcp: "server_run s built \<Longrightarrow> server_run (accept_tcp accepted s) built"
| run_shutdown: "server_run s built \<Longrightarrow> server_run (shutdown s) built"
| run_build: "server_run s built \<Longrightarrow> sv_phase s = Pairing k \<Longrightarrow> k \<notin> fst ` set built \<Longrightarrow>
    server_run (build_controller (ops :: unit bbr_ops) now path_mtu s) (built @ [(k, next_cell (sv_congestion s))])"
| run_pair: "server_run s built \<Longrightarrow> pair_rate s = Some s' \<Longrightarrow> server_run s' built"

section \<open>A connection\<close>

text \<open>\<open>accepts\<close> are the results of the successive \<^verbatim>\<open>accept_bi\<close> calls: the streams handed to relay tasks and the result, if
  the loop has ended.\<close>

fun serve_tcp_streams :: "(quic_error + 's) list \<Rightarrow> 's list \<times> unit result option" where
  "serve_tcp_streams [] = ([], None)"
| "serve_tcp_streams (Inl e # accepts) =
     ([], Some (case e of OtherError m \<Rightarrow> Err m | _ \<Rightarrow> Ok ()))"
| "serve_tcp_streams (Inr s # accepts) =
     (let (streams, r) = serve_tcp_streams accepts in (s # streams, r))"

text \<open>\<^verbatim>\<open>try_join!\<close> at one poll, in its order.\<close>

definition try_join :: "unit result option \<Rightarrow> unit result option \<Rightarrow> unit result option" where
  "try_join a b =
     (case a of
        Some (Err e) \<Rightarrow> Some (Err e)
      | _ \<Rightarrow> (case b of
               Some (Err e) \<Rightarrow> Some (Err e)
             | _ \<Rightarrow> if a = None \<or> b = None then None else Some (Ok ())))"

definition serve_connection ::
  "bool \<Rightarrow> (quic_error + 's) list \<Rightarrow> udp_event list \<Rightarrow> udp_state \<Rightarrow> ('s list \<times> udp_action list) \<times> unit result option \<times> udp_state" where
  "serve_connection udp_on accepts events st =
     (let (streams, tcp) = serve_tcp_streams accepts in
      if \<not> udp_on then ((streams, []), tcp, st)
      else
        let (udp, actions, st) = serve_udp_datagrams events st
        in ((streams, actions), try_join tcp udp, st))"

text \<open>The task of a QUIC connection: \<open>data\<close> is what its relays do to the counters while it is served.\<close>

definition hy2_connection ::
  "masquerade_handler \<Rightarrow> rng \<Rightarrow> unit result \<Rightarrow> AuthenticationOptions \<Rightarrow> unit result \<Rightarrow> h3_event list \<Rightarrow>
   (addr \<Rightarrow> TrafficRegistry \<Rightarrow> TrafficRegistry) \<Rightarrow> TrafficRegistry \<Rightarrow> http_response list \<times> string option \<times> TrafficRegistry" where
  "hy2_connection masq rand connecting opts h3 es data r =
     (case connecting of
        Err _ \<Rightarrow> ([], None, r)
      | Ok _ \<Rightarrow>
          (case authenticate_connection masq rand opts h3 es of
             (Err _, sent, _) \<Rightarrow> (sent, None, r)
           | (Ok name, sent, _) \<Rightarrow>
               (let (a, r) = user name r;
                    r = connection a r;
                    r = data a r
                in (sent, Some name, drop_connection a r))))"

section \<open>Lemmas\<close>

text \<open>Between accepted connections no cell is pending; for the connection being paired, at most its own.\<close>

definition pairing_ok :: "server \<Rightarrow> (nat \<times> nat) list \<Rightarrow> bool" where
  "pairing_ok s built =
     ((case sv_phase s of
         Pairing k \<Rightarrow> k < sv_next s \<and> k \<notin> {j. \<exists>opts. Quic_Task j opts \<in> set (sv_tasks s)} \<and>
           (if k \<in> fst ` set built then \<exists>cell. pending_rates (sv_congestion s) = [cell] \<and> (k, cell) \<in> set built
            else pending_rates (sv_congestion s) = [])
       | _ \<Rightarrow> pending_rates (sv_congestion s) = []) \<and>
      distinct (map fst built) \<and> distinct (map snd built) \<and>
      (\<forall>(j, cell) \<in> set built. j < sv_next s \<and> cell < next_cell (sv_congestion s)) \<and>
      (\<forall>j opts. Quic_Task j opts \<in> set (sv_tasks s) \<longrightarrow> j < sv_next s \<and>
         (\<exists>cell. ao_send_rate opts = Some cell \<and> (j, cell) \<in> set built)) \<and>
      server_limit_bps (sv_congestion s) = saturating_mul (up_mbps (bandwidth (sv_config s))) 125000)"

lemma hy2_build_congestion:
  "snd (snd (hy2_build ops now path_mtu c)) = c\<lparr>pending_rates := pending_rates c @ [next_cell c], next_cell := Suc (next_cell c)\<rparr>"
  by (simp add: hy2_build_def Let_def)

lemma pairing_ok_build:
  assumes "pairing_ok s built" "sv_phase s = Pairing k" "k \<notin> fst ` set built"
  shows "pairing_ok (build_controller ops now path_mtu s) (built @ [(k, next_cell (sv_congestion s))])"
  using assms by (auto simp: pairing_ok_def build_controller_def hy2_build_congestion) blast

lemma pairing_ok_pair:
  assumes "pairing_ok s built" "pair_rate s = Some s'"
  shows "pairing_ok s' built"
proof -
  obtain k cell congestion where k: "sv_phase s = Pairing k" "take_pending_rate (sv_congestion s) = Some (cell, congestion)"
    and s': "s' = s\<lparr>sv_congestion := congestion, sv_phase := Accepting,
        sv_tasks := sv_tasks s @ [Quic_Task k (authentication_options (sv_config s) congestion cell)]\<rparr>"
    using assms(2) by (auto simp: pair_rate_def split: accept_phase.splits)
  then have p: "pending_rates (sv_congestion s) = [cell]" "(k, cell) \<in> set built" "congestion = (sv_congestion s)\<lparr>pending_rates := []\<rparr>"
    using assms(1) by (auto simp: pairing_ok_def take_pending_rate_def split: list.splits if_splits)
  have "ao_send_rate (authentication_options (sv_config s) congestion cell) = Some cell" by (simp add: authentication_options_def)
  with assms(1) k(1) p show ?thesis unfolding s' by (auto simp: pairing_ok_def)
qed

lemma pairing_ok_other:
  assumes "pairing_ok s built"
  shows "pairing_ok (accept_quic s) built" "pairing_ok (endpoint_closed s) built" "pairing_ok (accept_tcp accepted s) built"
    "pairing_ok (shutdown s) built"
proof -
  show "pairing_ok (accept_quic s) built"
    using assms by (fastforce simp: pairing_ok_def accept_quic_def)
  show "pairing_ok (endpoint_closed s) built" "pairing_ok (shutdown s) built"
    using assms by (auto simp: pairing_ok_def endpoint_closed_def shutdown_def)
  show "pairing_ok (accept_tcp accepted s) built"
    using assms by (cases accepted) (fastforce simp: pairing_ok_def accept_tcp_def)+
qed

lemma server_run_ok: "server_run s built \<Longrightarrow> pairing_ok s built"
proof (induction rule: server_run.induct)
  case (run_start quic ep tcp_listener tls_config c traffic s traffic')
  then show ?case by (auto simp: server_start_def result_simps pairing_ok_def Hy2CongestionConfig_new_def)
next
  case (run_build s built k ops now path_mtu)
  then show ?case by (blast intro: pairing_ok_build)
next
  case (run_pair s built s')
  then show ?case by (blast intro: pairing_ok_pair)
qed (simp_all add: pairing_ok_other)

text \<open>While a connection waits for a cell that is not there, nothing but a new controller moves the loop.\<close>

lemma waiting_loop:
  assumes "sv_phase s = Pairing k" "pending_rates (sv_congestion s) = []"
  shows "pair_rate s = None" "accept_quic s = s" "accept_tcp accepted s = s" "endpoint_closed s = s" "shutdown s = s"
  using assms
  by (simp_all add: pair_rate_def take_pending_rate_def accept_quic_def accept_tcp_def endpoint_closed_def shutdown_def)

text \<open>One more controller than connections, as for a new path of an old connection, gives the next connection the
  wrong cell.\<close>

lemma extra_controller_shifts_cells:
  assumes "sv_phase s = Accepting" "pending_rates (sv_congestion s) = []"
  shows "let s1 = build_controller (ops :: unit bbr_ops) now path_mtu s;
      s2 = build_controller ops now path_mtu (accept_quic s1)
    in \<exists>s3 opts. pair_rate s2 = Some s3 \<and> last (sv_tasks s3) = Quic_Task (sv_next s) opts \<and>
      ao_send_rate opts = Some (next_cell (sv_congestion s)) \<and> next_cell (sv_congestion s1) \<noteq> next_cell (sv_congestion s)"
  using assms
  by (simp add: build_controller_def hy2_build_congestion accept_quic_def pair_rate_def take_pending_rate_def
      authentication_options_def)

lemma data_active:
  assumes "\<forall>b r. active_connections (counters (data a r) b) = active_connections (counters r b)"
  shows "active_connections (counters (drop_connection a (data a (connection a r))) b) = active_connections (counters r b)"
  using assms by (simp add: drop_connection_def connection_def)

lemma user_counters: "user name r = (a, r1) \<Longrightarrow> b < fresh r \<Longrightarrow> counters r1 b = counters r b"
  by (auto simp: user_def or_default_def split: option.splits)

text \<open>A datagram that the UDP loop cannot handle, such as one whose destination cannot be reached, ends the whole
  connection with an error, whatever its TCP streams do.\<close>

lemma udp_failure_ends_connection:
  assumes "serve_udp_datagrams events st = (Some (Err e), actions, st')" "snd (serve_tcp_streams accepts) = None"
  shows "fst (snd (serve_connection True accepts events st)) = Some (Err e)"
  using assms by (cases "serve_tcp_streams accepts") (simp add: serve_connection_def try_join_def)

lemma udp_send_failure_ends_connection:
  "fst (snd (serve_connection True [Inr stream] [Datagram (Inr example_datagram) first_oldest (Ok ()) (\<lambda>_ _. Err error) 0]
     (udp_start up down))) = Some (Err ''send UDP packet to a'')"
  by (rule udp_failure_ends_connection)
    (simp_all add: handle_datagram_def example_decode push_at_whole retain_fresh_def get_udp_session_def udp_start_def)

section \<open>Properties\<close>



text \<open>Who is served and counted. The task of a QUIC connection serves a user only if the handshake succeeded and a request
  authenticated that user; otherwise the counters are untouched. When a served connection ends, the numbers of active
  connections of all users are what they were, whatever the relays counted in between.\<close>

theorem hy2_connection_accounting:
  assumes "hy2_connection masq rand connecting opts h3 es data r = (sent, who, r')"
    and "\<forall>a b r. active_connections (counters (data a r) b) = active_connections (counters r b)"
  shows "(who = None \<longrightarrow> r' = r) \<and>
    (\<forall>name. who = Some name \<longrightarrow> connecting = Ok () \<and> (\<exists>rq io. Request rq io \<in> set es \<and> authorized opts rq \<and> request_user opts rq = Some name)) \<and>
    (\<forall>b. b < fresh r \<longrightarrow> active_connections (counters r' b) = active_connections (counters r b))"
proof (cases "connecting = Ok () \<and> (\<exists>name sent' rate. authenticate_connection masq rand opts h3 es = (Ok name, sent', rate))")
  case False
  with assms(1) have "who = None" "r' = r"
    by (auto simp: hy2_connection_def split: sum.splits prod.splits)
  then show ?thesis by simp
next
  case True
  then obtain name sent' rate where a: "connecting = Ok ()" "authenticate_connection masq rand opts h3 es = (Ok name, sent', rate)" by blast
  obtain u r1 where u: "user name r = (u, r1)" by fastforce
  with assms(1) a have w: "who = Some name" "r' = drop_connection u (data u (connection u r1))"
    by (simp_all add: hy2_connection_def)
  have "active_connections (counters r' b) = active_connections (counters r b)" if "b < fresh r" for b
    using data_active [of data u] assms(2) user_counters [OF u that] by (simp add: w(2))
  with a(1) w(1) authenticate_Ok [OF a(2)] show ?thesis by fastforce
qed

theorem hy2_connection_accounting_witness:
  "let rand = \<lparr>rng_selector = Some (0, 0), rng_fill = (\<lambda>n. Some (replicate n 0))\<rparr>;
       rq = \<lparr>hr_method = ''POST'', hr_host = Some ''hysteria'', hr_path = ''/auth'', hr_header = [REQUEST_HEADER_AUTH \<mapsto> ''p''], hr_body = []\<rparr>;
       io = \<lparr>io_head = Ok (), io_data = Ok (), io_end = Ok ()\<rparr>;
       r = TrafficRegistry_default\<lparr>reg_users := [(''u'', 0)], fresh := 1\<rparr>
   in \<exists>sent r'. hy2_connection (\<lambda>_ _. Err ''none'') rand (Ok ())
        (authentication_options example_config (Hy2CongestionConfig_new 0) 0) (Ok ()) [Request rq io] (\<lambda>a. record_upload a 5) r = (sent, Some ''u'', r') \<and>
      active_connections (counters r' 0) = active_connections (counters r 0)"
proof -
  let ?rand = "\<lparr>rng_selector = Some (0, 0), rng_fill = (\<lambda>n. Some (replicate n 0))\<rparr>"
  let ?rq = "\<lparr>hr_method = ''POST'', hr_host = Some ''hysteria'', hr_path = ''/auth'', hr_header = [REQUEST_HEADER_AUTH \<mapsto> ''p''], hr_body = []\<rparr>"
  let ?r = "TrafficRegistry_default\<lparr>reg_users := [(''u'', 0)], fresh := 1\<rparr>"
  let ?opts = "authentication_options example_config (Hy2CongestionConfig_new 0) 0"
  let ?h = "hy2_connection (\<lambda>_ _. Err ''none'') ?rand (Ok ()) ?opts (Ok ()) [Request ?rq \<lparr>io_head = Ok (), io_data = Ok (), io_end = Ok ()\<rparr>] (\<lambda>a. record_upload a 5) ?r"
  have "\<exists>p. random_padding ?rand 256 2048 = Ok p" by (simp add: random_padding_def Let_def)
  then obtain final where "auth_reply ?opts ?rand = Ok final" by (auto simp: auth_reply_def)
  moreover have "request_user ?opts ?rq = Some ''u''"
    by (simp add: request_user_def authentication_options_def example_config_def hy2_users_def unwrap_or_default_def)
  moreover from this have "authorized ?opts ?rq"
    by (simp add: authorized_def authentication_options_def example_config_def)
  ultimately have "fst (snd ?h) = Some ''u''"
    by (simp add: hy2_connection_def authenticate_connection_def send_reply_def Let_def user_def TrafficRegistry_default_def)
  then obtain sent r' where h: "?h = (sent, Some ''u'', r')" by (metis prod.collapse)
  have "\<forall>a b r. active_connections (counters (record_upload a 5 r) b) = active_connections (counters r b)"
    by (simp add: record_upload_def)
  from hy2_connection_accounting [OF h this] have "active_connections (counters r' 0) = active_connections (counters ?r 0)" by simp
  with h show ?thesis unfolding Let_def by blast
qed

end
