(* ===== verification/Nat_Tunnel.thy ===== *)
theory Nat_Tunnel
  imports Vless_Server
begin

text \<open>
  The wire protocol of the NAT tunnel (\<^verbatim>\<open>src/src/nat_tunnel.rs\<close>): the challenge-response handshake between
  gateway and client, the commands on an idle tunnel, and the checks around them. The keyed hash, the
  random source, the URL parser and the connections are arguments; a peer is the list of bytes it
  sends, and what a side writes is part of its result.
\<close>

section \<open>Constants and checks\<close>

definition MAGIC :: bytes where
  "MAGIC = as_bytes ''SBMNAT03''"

abbreviation CHALLENGE_LENGTH :: nat where "CHALLENGE_LENGTH \<equiv> 32"
abbreviation MAC_LENGTH :: nat where "MAC_LENGTH \<equiv> 64"
abbreviation MAX_NODE_NAME_LENGTH :: nat where "MAX_NODE_NAME_LENGTH \<equiv> 128"
abbreviation MAX_SUBSCRIPTION_URL_LENGTH :: nat where "MAX_SUBSCRIPTION_URL_LENGTH \<equiv> 2048"
abbreviation START :: u8 where "START \<equiv> 1"
abbreviation READY :: u8 where "READY \<equiv> 2"
abbreviation PING :: u8 where "PING \<equiv> 3"
abbreviation PONG :: u8 where "PONG \<equiv> 4"
abbreviation AUTH_OK :: u8 where "AUTH_OK \<equiv> 0"
abbreviation AUTH_FAILED :: u8 where "AUTH_FAILED \<equiv> 1"

definition validate_node_name :: "string \<Rightarrow> unit result" where
  "validate_node_name name =
     ensure (name \<noteq> [] \<and> length name \<le> MAX_NODE_NAME_LENGTH \<and> \<not> has_control name)
       ''NAT tunnel node name must contain 1-128 non-control characters''"

definition validate_subscription_url :: "libs \<Rightarrow> string \<Rightarrow> unit result" where
  "validate_subscription_url lb u =
     (if u = [] then Ok ()
      else
        and_then (ensure (length u \<le> MAX_SUBSCRIPTION_URL_LENGTH \<and> \<not> has_control u)
                    ''NAT tunnel subscription URL must contain at most 2048 non-control characters'') (\<lambda>_.
        and_then (ok_or (url_scheme lb u) ''invalid NAT tunnel subscription URL'') (\<lambda>scheme.
        ensure (scheme \<in> {''http'', ''https''}) ''NAT tunnel subscription URL must use HTTP or HTTPS'')))"

text \<open>\<open>contents\<close> is what reading the token file returns.\<close>

definition read_token :: "string option \<Rightarrow> string \<Rightarrow> bytes result" where
  "read_token contents path =
     and_then (ok_or contents (''read NAT tunnel token '' @ path)) (\<lambda>token.
     let token = trim token in
     and_then (ensure (length token \<ge> 16) ''NAT tunnel token must contain at least 16 characters'') (\<lambda>_.
     Ok (as_bytes token)))"

definition system_device_name :: "string option \<Rightarrow> string option \<Rightarrow> string" where
  "system_device_name hostname_file hostname_var =
     (let name = (case hostname_file of Some n \<Rightarrow> Some n | None \<Rightarrow> hostname_var);
          name = map_option trim name
      in case name of
           Some n \<Rightarrow> if is_ok (validate_node_name n) then n else ''sing-box-ser-mini''
         | None \<Rightarrow> ''sing-box-ser-mini'')"

section \<open>The handshake\<close>

text \<open>The keyed hash: \<open>mac_new\<close> rejects keys it cannot take, \<open>mac_digest\<close> is the digest of what was fed to it.\<close>

record mac_lib =
  mac_new :: "bytes \<Rightarrow> bool"
  mac_digest :: "bytes \<Rightarrow> bytes \<Rightarrow> bytes"

definition challenge_mac :: "mac_lib \<Rightarrow> bytes \<Rightarrow> bytes \<Rightarrow> bytes \<Rightarrow> bytes \<Rightarrow> bytes result" where
  "challenge_mac ml token challenge node_name subscription_url =
     and_then (ensure (mac_new ml token) ''invalid NAT tunnel token'') (\<lambda>_.
     Ok (mac_digest ml token (MAGIC @ challenge @ node_name @ subscription_url)))"

record AuthenticatedNode =
  an_name :: string
  an_url :: string

text \<open>Reading and checking the client's answer: the node and whether its code is right.\<close>

definition read_answer ::
  "libs \<Rightarrow> mac_lib \<Rightarrow> bytes \<Rightarrow> bytes \<Rightarrow> bytes \<Rightarrow> ((AuthenticatedNode \<times> bool) \<times> bytes) result" where
  "read_answer lb ml token challenge stream =
     and_then (read_u16 stream) (\<lambda>(len, stream).
     and_then (ensure (1 \<le> unat len \<and> unat len \<le> MAX_NODE_NAME_LENGTH) ''invalid NAT tunnel node name length'') (\<lambda>_.
     and_then (read_exact (unat len) stream) (\<lambda>(name, stream).
     and_then (ok_or (from_utf8 name) ''invalid NAT tunnel node name'') (\<lambda>name.
     and_then (validate_node_name name) (\<lambda>_.
     and_then (read_u16 stream) (\<lambda>(ulen, stream).
     and_then (ensure (unat ulen \<le> MAX_SUBSCRIPTION_URL_LENGTH) ''invalid NAT tunnel subscription URL length'') (\<lambda>_.
     and_then (read_exact (unat ulen) stream) (\<lambda>(u, stream).
     and_then (ok_or (from_utf8 u) ''invalid NAT tunnel subscription URL'') (\<lambda>u.
     and_then (validate_subscription_url lb u) (\<lambda>_.
     and_then (read_exact MAC_LENGTH stream) (\<lambda>(provided, stream).
     and_then (challenge_mac ml token challenge (as_bytes name) (as_bytes u)) (\<lambda>expected.
     Ok ((\<lparr>an_name = name, an_url = u\<rparr>, provided = expected), stream)))))))))))))"

text \<open>\<open>write\<close> is the outcome of writing and flushing some bytes; a failed write ends the handshake. The
  second component is what was written.\<close>

definition gateway_authenticate ::
  "libs \<Rightarrow> mac_lib \<Rightarrow> bytes option \<Rightarrow> (bytes \<Rightarrow> unit result) \<Rightarrow> bytes \<Rightarrow> bytes \<Rightarrow> AuthenticatedNode result \<times> bytes" where
  "gateway_authenticate lb ml random write token stream =
     (case random of
        None \<Rightarrow> (Err ''generate NAT tunnel challenge'', [])
      | Some challenge \<Rightarrow>
          let hello = MAGIC @ challenge in
          (case write hello of
             Err e \<Rightarrow> (Err e, [])
           | Ok _ \<Rightarrow>
               (case read_answer lb ml token challenge stream of
                  Err e \<Rightarrow> (Err e, hello)
                | Ok ((node, matches), _) \<Rightarrow>
                    let status = (if matches then AUTH_OK else AUTH_FAILED) in
                    (case write [status] of
                       Err e \<Rightarrow> (Err e, hello)
                     | Ok _ \<Rightarrow>
                         (if matches then Ok node else Err ''invalid NAT tunnel authentication response'',
                          hello @ [status])))))"

definition read_challenge ::
  "libs \<Rightarrow> string \<Rightarrow> string \<Rightarrow> bytes \<Rightarrow> (bytes \<times> bytes) result" where
  "read_challenge lb name u stream =
     and_then (read_exact (length MAGIC) stream) (\<lambda>(magic, stream).
     and_then (ensure (magic = MAGIC) ''invalid NAT tunnel protocol magic'') (\<lambda>_.
     and_then (validate_node_name name) (\<lambda>_.
     and_then (validate_subscription_url lb u) (\<lambda>_.
     read_exact CHALLENGE_LENGTH stream))))"

definition node_fields :: "string \<Rightarrow> string \<Rightarrow> bytes" where
  "node_fields name u =
     be_bytes 2 (word_of_nat (length name) :: u16) @ as_bytes name @
     be_bytes 2 (word_of_nat (length u) :: u16) @ as_bytes u"

definition client_authenticate ::
  "libs \<Rightarrow> mac_lib \<Rightarrow> (bytes \<Rightarrow> unit result) \<Rightarrow> bytes \<Rightarrow> string \<Rightarrow> string \<Rightarrow> bytes \<Rightarrow> bytes result \<times> bytes" where
  "client_authenticate lb ml write token name u stream =
     (case read_challenge lb name u stream of
        Err e \<Rightarrow> (Err e, [])
      | Ok (challenge, stream) \<Rightarrow>
          (case write (node_fields name u) of
             Err e \<Rightarrow> (Err e, [])
           | Ok _ \<Rightarrow>
               (case and_then (challenge_mac ml token challenge (as_bytes name) (as_bytes u)) (\<lambda>mac.
                     and_then (write mac) (\<lambda>_. Ok mac)) of
                  Err e \<Rightarrow> (Err e, node_fields name u)
                | Ok mac \<Rightarrow>
                    (and_then (read_u8 stream) (\<lambda>(status, stream).
                     and_then (ensure (status = AUTH_OK) ''NAT tunnel authentication failed'') (\<lambda>_.
                     Ok stream)), node_fields name u @ mac))))"

section \<open>Idle tunnels\<close>

text \<open>What wakes the gateway's task of an idle tunnel: a public connection that wants it, the heartbeat timer (both with
  the outcomes of writing the command and of reading the answer in time), or the end of the channel, when nobody can ask
  for the tunnel any more.\<close>

datatype idle_event =
    Assignment "unit result" "u8 result"
  | Heartbeat "unit result" "u8 result"
  | Assignments_Closed

datatype idle_end =
    Handed_Over
  | Assignment_Failed string
  | Tunnel_Dead
  | Still_Idle

text \<open>A command and its answer: the result and the bytes written.\<close>

definition exchange :: "u8 \<Rightarrow> u8 \<Rightarrow> string \<Rightarrow> unit result \<Rightarrow> u8 result \<Rightarrow> unit result \<times> bytes" where
  "exchange command wanted message write reply =
     (case write of
        Err e \<Rightarrow> (Err e, [])
      | Ok _ \<Rightarrow> (and_then reply (\<lambda>answer. if answer \<noteq> wanted then Err message else Ok ()), [command]))"

text \<open>The end, the commands written, and whether the tunnel is still marked alive.\<close>

fun manage_idle_tunnel :: "idle_event list \<Rightarrow> idle_end \<times> bytes \<times> bool" where
  "manage_idle_tunnel [] = (Still_Idle, [], True)"
| "manage_idle_tunnel (Assignments_Closed # events) = (Tunnel_Dead, [], False)"
| "manage_idle_tunnel (Assignment write reply # events) =
     (case exchange START READY ''invalid NAT tunnel ready response'' write reply of
        (Ok _, written) \<Rightarrow> (Handed_Over, written, False)
      | (Err e, written) \<Rightarrow> (Assignment_Failed e, written, False))"
| "manage_idle_tunnel (Heartbeat write reply # events) =
     (case exchange PING PONG ''invalid NAT tunnel heartbeat response'' write reply of
        (Err e, written) \<Rightarrow> (Tunnel_Dead, written, False)
      | (Ok _, written) \<Rightarrow> (let (end, more, alive) = manage_idle_tunnel events in (end, written @ more, alive)))"

text \<open>The client's side of the same tunnel. \<open>local\<close> is the outcome of connecting to the local proxy under
  its timeout; after the start command the rest of the stream is forwarded.\<close>

fun await_assignment :: "(bytes \<Rightarrow> unit result) \<Rightarrow> bytes \<Rightarrow> bytes result \<times> bytes" where
  "await_assignment write [] = (Err ''wait for NAT tunnel assignment'', [])"
| "await_assignment write (command # stream) =
     (if command = PING then
        (case write [PONG] of
           Err e \<Rightarrow> (Err e, [])
         | Ok _ \<Rightarrow> (let (r, written) = await_assignment write stream in (r, PONG # written)))
      else if command = START then (Ok stream, [])
      else (Err (''invalid NAT tunnel command '' @ show_nat (unat command)), []))"

record client_env =
  ce_connect :: "unit result option"
  ce_configure :: "unit result"
  ce_write :: "bytes \<Rightarrow> unit result"
  ce_local :: "unit result option"
  ce_configure_local :: "unit result"
  ce_forward :: "bytes \<Rightarrow> unit result"

record ClientOptions =
  co_gateway :: string
  co_local :: string
  co_token :: bytes
  co_pool_size :: nat
  co_node_name :: string
  co_subscription_url :: string

definition client_session :: "libs \<Rightarrow> mac_lib \<Rightarrow> client_env \<Rightarrow> ClientOptions \<Rightarrow> bytes \<Rightarrow> unit result \<times> bytes" where
  "client_session lb ml env opts stream =
     (case and_then (ok_or (ce_connect env) ''NAT tunnel gateway connection timed out'') (\<lambda>r.
           and_then (map_err (\<lambda>_. ''connect NAT tunnel gateway '' @ co_gateway opts) r) (\<lambda>_. ce_configure env)) of
        Err e \<Rightarrow> (Err e, [])
      | Ok _ \<Rightarrow>
          (case client_authenticate lb ml (ce_write env) (co_token opts) (co_node_name opts) (co_subscription_url opts) stream of
             (Err e, written) \<Rightarrow> (Err e, written)
           | (Ok stream, written) \<Rightarrow>
               (case await_assignment (ce_write env) stream of
                  (Err e, pongs) \<Rightarrow> (Err e, written @ pongs)
                | (Ok stream, pongs) \<Rightarrow>
                    (case and_then (ok_or (ce_local env) ''local proxy connection timed out'') (\<lambda>r.
                          and_then (map_err (\<lambda>_. ''connect local proxy '' @ co_local opts) r) (\<lambda>_.
                          and_then (ce_configure_local env) (\<lambda>_. ce_write env [READY]))) of
                       Err e \<Rightarrow> (Err e, written @ pongs)
                     | Ok _ \<Rightarrow>
                         (map_err (\<lambda>_. ''forward NAT tunnel connection'') (ce_forward env stream),
                          written @ pongs @ [READY])))))"

text \<open>The checks at the start of \<^verbatim>\<open>run_client\<close>, before its workers.\<close>

definition check_client_options :: "libs \<Rightarrow> ClientOptions \<Rightarrow> unit result" where
  "check_client_options lb opts =
     and_then (ensure (co_pool_size opts > 0) ''NAT tunnel pool size must be positive'') (\<lambda>_.
     and_then (ensure (co_pool_size opts \<le> 64) ''NAT tunnel pool size must not exceed 64'') (\<lambda>_.
     and_then (validate_node_name (co_node_name opts)) (\<lambda>_.
     validate_subscription_url lb (co_subscription_url opts))))"

text \<open>A worker holds one session after the other and never returns; \<open>sessions\<close> are the outcomes of the outside world in
  the sessions begun so far. \<^verbatim>\<open>run_client\<close> starts its workers and waits for them to return, which only a panic makes
  them do: \<open>joins\<close> are the workers that have ended.\<close>

definition client_worker ::
  "libs \<Rightarrow> mac_lib \<Rightarrow> ClientOptions \<Rightarrow> (client_env \<times> bytes) list \<Rightarrow> (unit result \<times> bytes) list" where
  "client_worker lb ml opts sessions = map (\<lambda>(env, stream). client_session lb ml env opts stream) sessions"

fun join_workers :: "nat \<Rightarrow> (string + unit result) list \<Rightarrow> unit result option" where
  "join_workers 0 joins = Some (Err ''all NAT tunnel workers stopped'')"
| "join_workers (Suc n) [] = None"
| "join_workers (Suc n) (Inl _ # joins) = Some (Err ''NAT tunnel worker panicked'')"
| "join_workers (Suc n) (Inr (Inl e) # joins) = Some (Err e)"
| "join_workers (Suc n) (Inr (Inr _) # joins) = join_workers n joins"

definition run_client :: "libs \<Rightarrow> ClientOptions \<Rightarrow> (string + unit result) list \<Rightarrow> unit result option \<times> nat" where
  "run_client lb opts joins =
     (case check_client_options lb opts of
        Err e \<Rightarrow> (Some (Err e), 0)
      | Ok _ \<Rightarrow> (join_workers (co_pool_size opts) joins, co_pool_size opts))"

section \<open>Lemmas\<close>

lemma length_MAGIC [simp]: "length MAGIC = 8"
  by (simp add: MAGIC_def)

lemma read_exact_fixed: "length xs = n \<Longrightarrow> read_exact n (xs @ ys) = Ok (xs, ys)"
  by (simp add: read_exact_def)

lemma validate_node_name_Ok:
  "validate_node_name name = Ok () \<longleftrightarrow> name \<noteq> [] \<and> length name \<le> MAX_NODE_NAME_LENGTH \<and> \<not> has_control name"
  by (simp add: validate_node_name_def result_simps)

lemma validate_subscription_url_length:
  "validate_subscription_url lb u = Ok () \<Longrightarrow> length u \<le> MAX_SUBSCRIPTION_URL_LENGTH"
  by (auto simp: validate_subscription_url_def result_simps split: if_splits)

lemma client_authenticate_hello:
  assumes "validate_node_name name = Ok ()" "validate_subscription_url lb u = Ok ()"
    and "length challenge = CHALLENGE_LENGTH" "mac_new ml token" "\<And>bs. write bs = Ok ()"
  shows "client_authenticate lb ml write token name u (MAGIC @ challenge @ status # rest) =
    (if status = AUTH_OK then Ok rest else Err ''NAT tunnel authentication failed'',
     node_fields name u @ mac_digest ml token (MAGIC @ challenge @ as_bytes name @ as_bytes u))"
  using assms by (simp add: client_authenticate_def read_challenge_def read_exact_fixed challenge_mac_def)

lemma read_answer_encoded:
  assumes "validate_node_name name = Ok ()" "validate_subscription_url lb u = Ok ()" "valid_str name" "valid_str u"
    and "mac_new ml token" "length mac = MAC_LENGTH"
  shows "read_answer lb ml token challenge (node_fields name u @ mac @ rest) =
    Ok ((\<lparr>an_name = name, an_url = u\<rparr>, mac = mac_digest ml token (MAGIC @ challenge @ as_bytes name @ as_bytes u)), rest)"
proof -
  have n: "name \<noteq> []" "length name \<le> 128" using assms(1) by (simp_all add: validate_node_name_Ok)
  then have l: "unat (word_of_nat (length name) :: u16) = length name" by (simp add: unat_of_nat)
  have ul: "length u \<le> 2048" using validate_subscription_url_length [OF assms(2)] .
  then have k: "unat (word_of_nat (length u) :: u16) = length u" by (simp add: unat_of_nat)
  from n have "1 \<le> length name" by (cases name) auto
  then show ?thesis
    using assms n(2) ul by (simp add: read_answer_def node_fields_def l k read_exact_fixed challenge_mac_def)
qed

lemma read_answer_accepts:
  assumes "read_answer lb ml token challenge stream = Ok ((node, True), rest)"
  shows "validate_node_name (an_name node) = Ok () \<and> validate_subscription_url lb (an_url node) = Ok () \<and>
    (\<exists>head. stream = head @ mac_digest ml token (MAGIC @ challenge @ as_bytes (an_name node) @ as_bytes (an_url node)) @ rest)"
proof -
  from assms obtain len s1 nm s2 ulen s3 ub s4 provided where
    r: "read_u16 stream = Ok (len, s1)" "read_exact (unat len) s1 = Ok (nm, s2)"
    "read_u16 s2 = Ok (ulen, s3)" "read_exact (unat ulen) s3 = Ok (ub, s4)"
    "read_exact MAC_LENGTH s4 = Ok (provided, rest)"
    and v: "validate_node_name (an_name node) = Ok ()" "validate_subscription_url lb (an_url node) = Ok ()"
    "challenge_mac ml token challenge (as_bytes (an_name node)) (as_bytes (an_url node)) = Ok provided"
    unfolding read_answer_def by (fastforce simp: result_simps)
  from r have "\<exists>a. stream = a @ s1" "s1 = nm @ s2" "\<exists>b. s2 = b @ s3" "s3 = ub @ s4" "s4 = provided @ rest"
    by (auto simp: read_u16_def read_exact_def result_simps split: if_splits intro: append_take_drop_id [symmetric])
  then have "\<exists>head. stream = head @ provided @ rest" by (metis append.assoc)
  with v show ?thesis by (auto simp: challenge_mac_def result_simps)
qed

subsection \<open>Idle tunnels\<close>

lemma manage_heartbeats:
  "manage_idle_tunnel (replicate n (Heartbeat (Ok ()) (Ok PONG)) @ events) =
    (case manage_idle_tunnel events of (end, written, alive) \<Rightarrow> (end, replicate n PING @ written, alive))"
  by (induction n) (simp_all add: exchange_def split: prod.split)

lemma await_pings:
  "write [PONG] = Ok () \<Longrightarrow> await_assignment write (replicate n PING @ START # rest) = (Ok rest, replicate n PONG)"
  by (induction n) simp_all

text \<open>\<^verbatim>\<open>run_client\<close> never returns without an error, and with accepted settings it runs until a worker ends.\<close>

lemma join_workers_not_Ok: "join_workers n joins \<noteq> Some (Ok u)"
  by (induction n joins rule: join_workers.induct) simp_all

lemma run_client_result:
  "fst (run_client lb opts joins) \<noteq> Some (Ok u) \<and>
   (check_client_options lb opts = Ok () \<longrightarrow> run_client lb opts [] = (None, co_pool_size opts))"
proof -
  have "run_client lb opts [] = (None, co_pool_size opts)" if "check_client_options lb opts = Ok ()"
    using that by (cases "co_pool_size opts") (auto simp: run_client_def check_client_options_def result_simps)
  then show ?thesis by (auto simp: run_client_def join_workers_not_Ok split: sum.splits)
qed

subsection \<open>What the code does not bind\<close>

text \<open>The code covers the node name and the URL without a boundary between them: the code of one pair
  is the code of the pair with the URL moved into the name, and a gateway accepts the changed
  fields with the original code.\<close>

lemma as_bytes_append: "as_bytes (s @ t) = as_bytes s @ as_bytes t" "as_bytes [] = []"
  by (simp_all add: as_bytes_def)

lemma nat_fields_not_bound:
  assumes "validate_node_name (name @ u) = Ok ()" "valid_str (name @ u)" "mac_new ml token"
    and "\<And>k m. length (mac_digest ml k m) = MAC_LENGTH" "\<And>bs. write bs = Ok ()"
  shows "fst (gateway_authenticate lb ml (Some challenge) write token
      (node_fields (name @ u) [] @ mac_digest ml token (MAGIC @ challenge @ as_bytes name @ as_bytes u))) =
    Ok \<lparr>an_name = name @ u, an_url = []\<rparr>"
proof -
  have "valid_str []" by (simp add: valid_str_def as_bytes_def)
  then have "read_answer lb ml token challenge
      (node_fields (name @ u) [] @ mac_digest ml token (MAGIC @ challenge @ as_bytes name @ as_bytes u)) =
      Ok ((\<lparr>an_name = name @ u, an_url = []\<rparr>, True), [])"
    using read_answer_encoded [OF assms(1) _ assms(2) _ assms(3) assms(4) [of token], of lb "[]" challenge _ "[]"]
    by (simp add: validate_subscription_url_def as_bytes_append)
  then show ?thesis using assms(5) by (simp add: gateway_authenticate_def)
qed

section \<open>Properties\<close>

text \<open>A keyed digest for the witnesses.\<close>

definition example_mac :: mac_lib where
  "example_mac = \<lparr>mac_new = (\<lambda>k. length k \<le> 64), mac_digest = (\<lambda>k m. take 64 (k @ m @ replicate 64 0))\<rparr>"

text \<open>C16: the handshake. A gateway and a client run against each other on a fresh 32-byte challenge. If
  the codes of their two tokens agree, both sides succeed and the gateway learns exactly the
  client's node name and subscription URL; otherwise both sides fail. The token itself is never
  sent: what is written is a function of the codes.\<close>

theorem nat_handshake_agreement:
  fixes lb :: libs and gtoken ctoken challenge :: bytes
  assumes "validate_node_name name = Ok ()" "validate_subscription_url lb u = Ok ()" "valid_str name" "valid_str u"
    and "length challenge = CHALLENGE_LENGTH" "mac_new ml gtoken" "mac_new ml ctoken"
    and "\<And>k m. length (mac_digest ml k m) = MAC_LENGTH" "\<And>bs. write bs = Ok ()"
  defines "agree \<equiv> mac_digest ml gtoken (MAGIC @ challenge @ as_bytes name @ as_bytes u) =
    mac_digest ml ctoken (MAGIC @ challenge @ as_bytes name @ as_bytes u)"
  defines "answer \<equiv> node_fields name u @ mac_digest ml ctoken (MAGIC @ challenge @ as_bytes name @ as_bytes u)"
  shows "gateway_authenticate lb ml (Some challenge) write gtoken answer =
      (if agree then Ok \<lparr>an_name = name, an_url = u\<rparr> else Err ''invalid NAT tunnel authentication response'',
       MAGIC @ challenge @ [if agree then AUTH_OK else AUTH_FAILED]) \<and>
    client_authenticate lb ml write ctoken name u
        (snd (gateway_authenticate lb ml (Some challenge) write gtoken answer) @ rest) =
      (if agree then Ok rest else Err ''NAT tunnel authentication failed'', answer)"
proof -
  let ?mac = "mac_digest ml ctoken (MAGIC @ challenge @ as_bytes name @ as_bytes u)"
  have "read_answer lb ml gtoken challenge (answer @ []) = Ok ((\<lparr>an_name = name, an_url = u\<rparr>, agree), [])"
    using read_answer_encoded [OF assms(1-4) assms(6) assms(8) [of ctoken], of challenge _ "[]"]
    unfolding answer_def agree_def by (simp add: eq_commute)
  then have g: "gateway_authenticate lb ml (Some challenge) write gtoken answer =
      (if agree then Ok \<lparr>an_name = name, an_url = u\<rparr> else Err ''invalid NAT tunnel authentication response'',
       MAGIC @ challenge @ [if agree then AUTH_OK else AUTH_FAILED])"
    using assms(9) by (simp add: gateway_authenticate_def)
  have "client_authenticate lb ml write ctoken name u (MAGIC @ challenge @ (if agree then AUTH_OK else AUTH_FAILED) # rest) =
      (if agree then Ok rest else Err ''NAT tunnel authentication failed'', answer)"
    using client_authenticate_hello [OF assms(1,2,5,7,9)] by (simp add: answer_def)
  with g show ?thesis by simp
qed

theorem nat_handshake_agreement_witness:
  "let answer = node_fields ''n'' [] @ mac_digest example_mac [2] (MAGIC @ replicate 32 9 @ as_bytes ''n'' @ as_bytes [])
   in fst (gateway_authenticate example_libs example_mac (Some (replicate 32 9)) (\<lambda>_. Ok ()) [1] answer) =
     Err ''invalid NAT tunnel authentication response''"
proof -
  have "valid_str ''n''" "valid_str []" by (simp_all add: valid_str_ascii code_def)
  moreover have "validate_node_name ''n'' = Ok ()" by (simp add: validate_node_name_def code_def)
  moreover have "mac_digest example_mac [1] m \<noteq> mac_digest example_mac [2] m" for m by (simp add: example_mac_def)
  ultimately show ?thesis
    using nat_handshake_agreement [of "''n''" example_libs "[]" "replicate 32 9" example_mac "[1]" "[2]" "\<lambda>_. Ok ()"]
    by (simp add: Let_def validate_subscription_url_def) (simp add: example_mac_def)
qed

text \<open>C30: what the gateway accepts. Whatever a peer sends, if the gateway accepts it then the bytes it
  received contain the keyed digest, under the gateway's own token, of the challenge it just drew
  and of the accepted node's fields, and those fields pass the checks on names and URLs.\<close>

theorem nat_gateway_accepts_only_token_holders:
  assumes "gateway_authenticate lb ml random write token stream = (Ok node, written)"
  shows "\<exists>challenge head rest. random = Some challenge \<and> written = MAGIC @ challenge @ [AUTH_OK] \<and> mac_new ml token \<and>
    stream = head @ mac_digest ml token (MAGIC @ challenge @ as_bytes (an_name node) @ as_bytes (an_url node)) @ rest \<and>
    validate_node_name (an_name node) = Ok () \<and> validate_subscription_url lb (an_url node) = Ok ()"
proof -
  from assms obtain challenge node' rest where r: "random = Some challenge" "written = MAGIC @ challenge @ [AUTH_OK]"
    "read_answer lb ml token challenge stream = Ok ((node, True), rest)"
    by (fastforce simp: gateway_authenticate_def Let_def split: option.splits sum.splits prod.splits if_splits)
  moreover from r(3) have "mac_new ml token"
    by (auto simp: read_answer_def challenge_mac_def result_simps)
  ultimately show ?thesis using read_answer_accepts [OF r(3)] by blast
qed

theorem nat_gateway_accepts_only_token_holders_witness:
  "let stream = node_fields ''n'' [] @ mac_digest example_mac [1] (MAGIC @ replicate 32 9 @ as_bytes ''n'');
       run = gateway_authenticate example_libs example_mac (Some (replicate 32 9)) (\<lambda>_. Ok ()) [1] stream
   in fst run = Ok \<lparr>an_name = ''n'', an_url = []\<rparr> \<and> snd run = MAGIC @ replicate 32 9 @ [AUTH_OK]"
proof -
  let ?stream = "node_fields ''n'' [] @ mac_digest example_mac [1] (MAGIC @ replicate 32 9 @ as_bytes ''n'')"
  let ?run = "gateway_authenticate example_libs example_mac (Some (replicate 32 9)) (\<lambda>_. Ok ()) [1] ?stream"
  have "valid_str ''n''" by (simp add: valid_str_ascii code_def)
  moreover have "validate_node_name ''n'' = Ok ()" by (simp add: validate_node_name_def code_def)
  ultimately have "fst ?run = Ok \<lparr>an_name = ''n'', an_url = []\<rparr>"
    using nat_fields_not_bound [of "''n''" "[]" example_mac "[1]" "\<lambda>_. Ok ()" example_libs "replicate 32 9"]
    by (simp add: as_bytes_def) (simp add: example_mac_def)
  then have run: "?run = (Ok \<lparr>an_name = ''n'', an_url = []\<rparr>, snd ?run)" by (metis prod.collapse)
  from nat_gateway_accepts_only_token_holders [OF this] run show ?thesis by (auto simp: Let_def)
qed

text \<open>Gateway and client agree on the life of an idle tunnel. Against a client that follows its
  session, any number of heartbeats keeps the tunnel alive and an assignment hands it over, the
  commands the gateway writes make the client answer exactly what the gateway expects, and what
  follows the start command is forwarded untouched; the first heartbeat that cannot be written or is not answered, and
  the end of the channel, mark the tunnel dead, and it is never handed over.\<close>

theorem nat_idle_protocol:
  fixes n :: nat
  defines "beats \<equiv> replicate n (Heartbeat (Ok ()) (Ok PONG))"
  assumes "write [PONG] = Ok ()"
  shows "manage_idle_tunnel beats = (Still_Idle, replicate n PING, True) \<and>
    manage_idle_tunnel (beats @ [Assignment (Ok ()) (Ok READY)]) = (Handed_Over, replicate n PING @ [START], False) \<and>
    await_assignment write (fst (snd (manage_idle_tunnel (beats @ [Assignment (Ok ()) (Ok READY)]))) @ payload) =
      (Ok payload, replicate n PONG) \<and>
    (\<forall>w reply events. (w, reply) \<noteq> (Ok (), Ok PONG) \<longrightarrow>
       fst (manage_idle_tunnel (beats @ Heartbeat w reply # events)) = Tunnel_Dead) \<and>
    (\<forall>events. manage_idle_tunnel (beats @ Assignments_Closed # events) = (Tunnel_Dead, replicate n PING, False))"
proof -
  have "manage_idle_tunnel beats = (Still_Idle, replicate n PING, True)"
    using manage_heartbeats [of n "[]"] by (simp add: beats_def)
  moreover have "manage_idle_tunnel (beats @ [Assignment (Ok ()) (Ok READY)]) = (Handed_Over, replicate n PING @ [START], False)"
    using manage_heartbeats [of n "[Assignment (Ok ()) (Ok READY)]"] by (simp add: beats_def exchange_def)
  moreover have "fst (manage_idle_tunnel (beats @ Heartbeat w reply # events)) = Tunnel_Dead"
    if "(w, reply) \<noteq> (Ok (), Ok PONG)" for w reply events
    using that manage_heartbeats [of n "Heartbeat w reply # events"]
    by (cases w; cases reply) (auto simp: beats_def exchange_def)
  moreover have "manage_idle_tunnel (beats @ Assignments_Closed # events) = (Tunnel_Dead, replicate n PING, False)" for events
    using manage_heartbeats [of n "Assignments_Closed # events"] by (simp add: beats_def)
  ultimately show ?thesis using await_pings [of "write" n payload] assms(2) by simp
qed

theorem nat_idle_protocol_witness:
  "manage_idle_tunnel [Heartbeat (Ok ()) (Ok PONG), Heartbeat (Ok ()) (Ok PONG), Assignment (Ok ()) (Ok READY)] =
     (Handed_Over, [PING, PING, START], False) \<and>
   fst (manage_idle_tunnel [Heartbeat (Ok ()) (Ok PONG), Heartbeat (Ok ()) (Ok PONG), Heartbeat (Ok ()) (Err ''timeout''),
     Assignment (Ok ()) (Ok READY)]) = Tunnel_Dead"
  using nat_idle_protocol [of "\<lambda>_. Ok ()" 2 "[7]"]
  by (simp add: numeral_2_eq_2 del: manage_idle_tunnel.simps await_assignment.simps)

end
