(* ===== verification/Nat_Gateway.thy ===== *)
theory Nat_Gateway
  imports Nat_Tunnel "HOL-Library.Product_Lexorder" "HOL-Library.Multiset"
begin

text \<open>
  The gateway of the NAT tunnel (\<^verbatim>\<open>src/src/nat_tunnel.rs\<close>): the tracker of connected nodes, the pool of idle
  tunnels, and the public connections that are given one tunnel each. The nodes' counters are shared
  objects: a store maps addresses to them, as in the traffic registry. A tunnel is a number; the
  running \<^verbatim>\<open>manage_idle_tunnel\<close> tasks and the node guard each of them holds are part of the state.
\<close>

section \<open>The tracker\<close>

record GatewayNodeRuntime =
  tunnel_count :: u64
  connected_since :: u64
  last_seen :: u64
  node_url :: string

definition GatewayNodeRuntime_default :: GatewayNodeRuntime where
  "GatewayNodeRuntime_default = \<lparr>tunnel_count = 0, connected_since = 0, last_seen = 0, node_url = []\<rparr>"

record GatewayTracker =
  nodes :: "(string \<times> addr) list"
  runtimes :: "addr \<Rightarrow> GatewayNodeRuntime"
  next_node :: addr

definition GatewayTracker_default :: GatewayTracker where
  "GatewayTracker_default = \<lparr>nodes = [], runtimes = (\<lambda>_. GatewayNodeRuntime_default), next_node = 0\<rparr>"

record GatewayNodeStatus =
  gs_name :: string
  gs_online :: bool
  gs_tunnel_count :: u64
  gs_connected_since :: u64
  gs_last_seen :: u64
  gs_url :: string

definition node_entry :: "string \<Rightarrow> GatewayTracker \<Rightarrow> addr \<times> GatewayTracker" where
  "node_entry name t =
     (case map_of (nodes t) name of
        Some a \<Rightarrow> (a, t)
      | None \<Rightarrow> (next_node t, t\<lparr>nodes := nodes t @ [(name, next_node t)],
                 runtimes := (runtimes t)(next_node t := GatewayNodeRuntime_default), next_node := Suc (next_node t)\<rparr>))"

definition node_connected :: "string \<Rightarrow> u64 \<Rightarrow> GatewayNodeRuntime \<Rightarrow> GatewayNodeRuntime" where
  "node_connected u now n =
     \<lparr>tunnel_count = tunnel_count n + 1,
      connected_since = (if tunnel_count n = 0 then now else connected_since n),
      last_seen = now, node_url = (if u \<noteq> [] then u else node_url n)\<rparr>"

definition tracker_connect :: "string \<Rightarrow> string \<Rightarrow> u64 \<Rightarrow> GatewayTracker \<Rightarrow> addr \<times> GatewayTracker" where
  "tracker_connect name u now t =
     (let (a, t) = node_entry name t in
      (a, t\<lparr>runtimes := (runtimes t)(a := node_connected u now (runtimes t a))\<rparr>))"

definition tracker_drop :: "addr \<Rightarrow> u64 \<Rightarrow> GatewayTracker \<Rightarrow> GatewayTracker" where
  "tracker_drop a now t =
     t\<lparr>runtimes := (runtimes t)(a := (runtimes t a)\<lparr>tunnel_count := tunnel_count (runtimes t a) - 1, last_seen := now\<rparr>)\<rparr>"

definition node_status :: "GatewayTracker \<Rightarrow> string \<times> addr \<Rightarrow> GatewayNodeStatus" where
  "node_status t e =
     (case e of (name, a) \<Rightarrow>
      let n = runtimes t a in
      \<lparr>gs_name = name, gs_online = (tunnel_count n > 0), gs_tunnel_count = tunnel_count n,
       gs_connected_since = connected_since n, gs_last_seen = last_seen n, gs_url = node_url n\<rparr>)"

text \<open>Online nodes first, then by name.\<close>

definition tracker_snapshot :: "GatewayTracker \<Rightarrow> GatewayNodeStatus list" where
  "tracker_snapshot t = sort_key (\<lambda>s. (\<not> gs_online s, gs_name s)) (map (node_status t) (nodes t))"

definition tracker_clear :: "GatewayTracker \<Rightarrow> GatewayTracker" where
  "tracker_clear t = t\<lparr>nodes := []\<rparr>"

section \<open>The pool\<close>

type_synonym tunnel = nat

record gateway =
  gw_tracker :: GatewayTracker
  gw_idle :: "tunnel list"
  gw_alive :: "tunnel \<Rightarrow> bool"
  gw_capacity :: nat
  gw_tasks :: "(tunnel \<times> addr) list"
  gw_next :: tunnel

definition gateway_new :: "GatewayTracker \<Rightarrow> nat \<Rightarrow> gateway" where
  "gateway_new t cap =
     \<lparr>gw_tracker = t, gw_idle = [], gw_alive = (\<lambda>_. False), gw_capacity = cap, gw_tasks = [], gw_next = 0\<rparr>"

definition retain_alive :: "gateway \<Rightarrow> gateway" where
  "retain_alive g = g\<lparr>gw_idle := filter (gw_alive g) (gw_idle g)\<rparr>"

text \<open>\<open>a\<close> is the node guard the task of the tunnel takes; a full pool leaves it with the caller.\<close>

definition register :: "addr \<Rightarrow> gateway \<Rightarrow> bool \<times> gateway" where
  "register a g =
     (let g = retain_alive g in
      if length (gw_idle g) \<ge> gw_capacity g then (False, g)
      else (True, g\<lparr>gw_idle := gw_idle g @ [gw_next g], gw_alive := (gw_alive g)(gw_next g := True),
                   gw_tasks := (gw_next g, a) # gw_tasks g, gw_next := Suc (gw_next g)\<rparr>))"

text \<open>One pass of the loop in \<^verbatim>\<open>acquire\<close>; without a tunnel it waits for the next notification.\<close>

definition acquire_pass :: "gateway \<Rightarrow> tunnel option \<times> gateway" where
  "acquire_pass g =
     (let g = retain_alive g in
      case gw_idle g of [] \<Rightarrow> (None, g) | t # ts \<Rightarrow> (Some t, g\<lparr>gw_idle := ts\<rparr>))"

text \<open>The end of the task of a tunnel: it is marked dead and its node guard is dropped.\<close>

definition tunnel_ended :: "tunnel \<Rightarrow> u64 \<Rightarrow> gateway \<Rightarrow> gateway" where
  "tunnel_ended t now g =
     g\<lparr>gw_alive := (gw_alive g)(t := False), gw_tasks := filter (\<lambda>(s, _). s \<noteq> t) (gw_tasks g),
       gw_tracker := (case map_of (gw_tasks g) t of Some a \<Rightarrow> tracker_drop a now (gw_tracker g) | None \<Rightarrow> gw_tracker g)\<rparr>"

text \<open>The task of an accepted tunnel connection: authentication, then the tracker and the pool.\<close>

definition serve_tunnel :: "AuthenticatedNode result \<Rightarrow> u64 \<Rightarrow> u64 \<Rightarrow> gateway \<Rightarrow> gateway" where
  "serve_tunnel auth now later g =
     (case auth of
        Err _ \<Rightarrow> g
      | Ok node \<Rightarrow>
          let (a, t) = tracker_connect (an_name node) (an_url node) now (gw_tracker g);
              (registered, g) = register a (g\<lparr>gw_tracker := t\<rparr>)
          in if registered then g else g\<lparr>gw_tracker := tracker_drop a later (gw_tracker g)\<rparr>)"

section \<open>Public connections\<close>

text \<open>\<open>acq k\<close> is the outcome of the \<open>k\<close>-th wait for a tunnel, \<open>assign k c\<close> the stream the assignment of that
  candidate delivered, if it did in time.\<close>

function find_tunnel ::
  "(nat \<Rightarrow> tunnel result) \<Rightarrow> (nat \<Rightarrow> tunnel \<Rightarrow> 'stream option) \<Rightarrow> nat \<Rightarrow> 'stream result \<times> nat" where
  "find_tunnel acq assign attempts =
     (let attempts = attempts + 1 in
      case acq attempts of
        Err e \<Rightarrow> (Err e, attempts)
      | Ok candidate \<Rightarrow>
          (case assign attempts candidate of
             Some stream \<Rightarrow> (Ok stream, attempts)
           | None \<Rightarrow>
               if attempts \<ge> 8 then (Err ''no usable NAT tunnel was available'', attempts)
               else find_tunnel acq assign attempts))"
  by pat_completeness auto
termination
  by (relation "measure (\<lambda>(_, _, attempts). 8 - attempts)") auto

declare find_tunnel.simps [simp del]

definition serve_public_connection ::
  "(nat \<Rightarrow> tunnel result) \<Rightarrow> (nat \<Rightarrow> tunnel \<Rightarrow> 'stream option) \<Rightarrow> ('stream \<Rightarrow> unit result) \<Rightarrow> unit result" where
  "serve_public_connection acq assign forward =
     and_then (fst (find_tunnel acq assign 0)) (\<lambda>tunnel.
     map_err (\<lambda>_. ''forward public TCP connection'') (forward tunnel))"

record GatewayOptions =
  go_tunnel_listen :: string
  go_public_listen :: string
  go_token :: bytes
  go_queue_capacity :: nat

text \<open>The start of \<^verbatim>\<open>run_gateway\<close>: its checks, the two listeners, and the empty pool.\<close>

definition start_gateway ::
  "(string \<Rightarrow> unit result) \<Rightarrow> GatewayOptions \<Rightarrow> GatewayTracker \<Rightarrow> gateway result" where
  "start_gateway bind opts t =
     and_then (ensure (go_queue_capacity opts > 0) ''NAT tunnel queue capacity must be positive'') (\<lambda>_.
     and_then (ensure (go_queue_capacity opts \<le> 1024) ''NAT tunnel queue capacity must not exceed 1024'') (\<lambda>_.
     and_then (map_err (\<lambda>_. ''bind NAT tunnel listener on '' @ go_tunnel_listen opts) (bind (go_tunnel_listen opts))) (\<lambda>_.
     and_then (map_err (\<lambda>_. ''bind public TCP listener on '' @ go_public_listen opts) (bind (go_public_listen opts))) (\<lambda>_.
     Ok (gateway_new t (go_queue_capacity opts))))))"

section \<open>Runs of a gateway\<close>

text \<open>What the tasks of a running gateway do, in any order: a tunnel connects or is refused, a public
  connection looks for a tunnel, a tunnel's task ends (handed over, failed or dead).\<close>

inductive gateway_step :: "gateway \<Rightarrow> gateway \<Rightarrow> bool" where
  connected: "gateway_step g (serve_tunnel auth now later g)"
| acquired: "acquire_pass g = (t, g') \<Longrightarrow> gateway_step g g'"
| ended: "map_of (gw_tasks g) t = Some a \<Longrightarrow> gateway_step g (tunnel_ended t now g)"
| cleared: "gateway_step g (g\<lparr>gw_tracker := tracker_clear (gw_tracker g)\<rparr>)"

text \<open>The two accept loops of \<^verbatim>\<open>run_gateway\<close> and the tasks they spawn, as one sequence of events. Accepting a connection
  or configuring its socket may fail, which ends both loops: the result, if they have ended, and the gateway.\<close>

definition configure_stream :: "unit result \<Rightarrow> unit result \<Rightarrow> unit result" where
  "configure_stream set_nodelay set_tcp_keepalive = and_then set_nodelay (\<lambda>_. set_tcp_keepalive)"

datatype gateway_event =
    Tunnel_Accepted "unit result" "unit result" "AuthenticatedNode result" u64 u64
  | Public_Accepted "unit result" "unit result"
  | Public_Acquires
  | Tunnel_Task_Ended tunnel u64
  | Tracker_Cleared

fun gateway_loop :: "gateway_event list \<Rightarrow> gateway \<Rightarrow> unit result option \<times> gateway" where
  "gateway_loop [] g = (None, g)"
| "gateway_loop (Tunnel_Accepted accepted configured auth now later # events) g =
     (case and_then accepted (\<lambda>_. configured) of
        Err e \<Rightarrow> (Some (Err e), g)
      | Ok _ \<Rightarrow> gateway_loop events (serve_tunnel auth now later g))"
| "gateway_loop (Public_Accepted accepted configured # events) g =
     (case and_then accepted (\<lambda>_. configured) of
        Err e \<Rightarrow> (Some (Err e), g)
      | Ok _ \<Rightarrow> gateway_loop events g)"
| "gateway_loop (Public_Acquires # events) g = gateway_loop events (snd (acquire_pass g))"
| "gateway_loop (Tunnel_Task_Ended t now # events) g =
     gateway_loop events (if map_of (gw_tasks g) t = None then g else tunnel_ended t now g)"
| "gateway_loop (Tracker_Cleared # events) g =
     gateway_loop events (g\<lparr>gw_tracker := tracker_clear (gw_tracker g)\<rparr>)"

definition run_gateway ::
  "(string \<Rightarrow> unit result) \<Rightarrow> GatewayOptions \<Rightarrow> GatewayTracker \<Rightarrow> gateway_event list \<Rightarrow> unit result option \<times> gateway option" where
  "run_gateway bind opts t events =
     (case start_gateway bind opts t of
        Err e \<Rightarrow> (Some (Err e), None)
      | Ok g \<Rightarrow> (case gateway_loop events g of (r, g) \<Rightarrow> (r, Some g)))"

definition gateway_reach :: "gateway \<Rightarrow> bool" where
  "gateway_reach g =
     (\<exists>bind opts g0. start_gateway bind opts GatewayTracker_default = Ok g0 \<and> gateway_step\<^sup>*\<^sup>* g0 g)"

inductive_cases gateway_stepE: "gateway_step g g'"

section \<open>Lemmas\<close>

definition tunnels_of :: "addr \<Rightarrow> (tunnel \<times> addr) list \<Rightarrow> nat" where
  "tunnels_of a tasks = length (filter (\<lambda>(_, b). b = a) tasks)"

definition tracker_ok :: "GatewayTracker \<Rightarrow> (tunnel \<times> addr) list \<Rightarrow> bool" where
  "tracker_ok t tasks =
     (distinct (map fst (nodes t)) \<and> (\<forall>(_, a) \<in> set (nodes t). a < next_node t) \<and>
      (\<forall>a \<in> snd ` set tasks. a < next_node t) \<and>
      (\<forall>a < next_node t. tunnel_count (runtimes t a) = word_of_nat (tunnels_of a tasks)))"

definition tunnels_ok :: "gateway \<Rightarrow> bool" where
  "tunnels_ok g =
     (0 < gw_capacity g \<and> gw_capacity g \<le> 1024 \<and> length (gw_idle g) \<le> gw_capacity g \<and> distinct (gw_idle g) \<and>
      distinct (map fst (gw_tasks g)) \<and> (\<forall>t \<in> set (gw_idle g). t < gw_next g) \<and>
      (\<forall>t. gw_alive g t \<longleftrightarrow> map_of (gw_tasks g) t \<noteq> None) \<and> (\<forall>t. gw_alive g t \<longrightarrow> t < gw_next g))"

definition gateway_ok :: "gateway \<Rightarrow> bool" where
  "gateway_ok g = (tunnels_ok g \<and> tracker_ok (gw_tracker g) (gw_tasks g))"

lemma tunnels_of_Nil [simp]: "tunnels_of a [] = 0"
  and tunnels_of_Cons [simp]: "tunnels_of a ((t, b) # tasks) = (if a = b then 1 else 0) + tunnels_of a tasks"
  by (auto simp: tunnels_of_def)

lemma tunnels_of_fresh: "\<forall>a \<in> snd ` set tasks. a < n \<Longrightarrow> tunnels_of n tasks = 0"
  by (auto simp: tunnels_of_def filter_empty_conv)

lemma tracker_connect_ok:
  assumes "tracker_ok t tasks" "tracker_connect name u now t = (a, t')"
  shows "tracker_ok t' ((k, a) # tasks)" "a < next_node t'"
proof -
  obtain t1 where e: "node_entry name t = (a, t1)" and t': "t' = t1\<lparr>runtimes := (runtimes t1)(a := node_connected u now (runtimes t1 a))\<rparr>"
    using assms(2) by (auto simp: tracker_connect_def split: prod.splits)
  have "tracker_ok t1 tasks \<and> a < next_node t1"
  proof (cases "map_of (nodes t) name")
    case None
    with e have "t1 = t\<lparr>nodes := nodes t @ [(name, next_node t)],
        runtimes := (runtimes t)(next_node t := GatewayNodeRuntime_default), next_node := Suc (next_node t)\<rparr>" "a = next_node t"
      by (auto simp: node_entry_def)
    moreover have "tunnels_of (next_node t) tasks = 0" using assms(1) by (simp add: tracker_ok_def tunnels_of_fresh)
    ultimately show ?thesis
      using assms(1) None by (auto simp: tracker_ok_def map_of_eq_None_iff GatewayNodeRuntime_default_def less_Suc_eq)
  next
    case (Some b)
    then show ?thesis using e assms(1) map_of_SomeD [OF Some] by (auto simp: node_entry_def tracker_ok_def)
  qed
  then show "tracker_ok t' ((k, a) # tasks)" "a < next_node t'"
    by (auto simp: t' tracker_ok_def node_connected_def)
qed

lemma tracker_drop_ok:
  assumes "tracker_ok t ((k, a) # tasks)"
  shows "tracker_ok (tracker_drop a now t) tasks"
  using assms by (auto simp: tracker_ok_def tracker_drop_def)

lemma tracker_ok_tasks:
  "tracker_ok t tasks \<Longrightarrow> mset (map snd tasks) = mset (map snd tasks') \<Longrightarrow> tracker_ok t tasks'"
proof -
  assume ok: "tracker_ok t tasks" and m: "mset (map snd tasks) = mset (map snd tasks')"
  have c: "tunnels_of a xs = count (mset (map snd xs)) a" for a and xs :: "(tunnel \<times> addr) list"
    by (induction xs) auto
  have "snd ` set tasks = snd ` set tasks'" using arg_cong [OF m, of set_mset] by simp
  moreover have "tunnels_of a tasks' = tunnels_of a tasks" for a by (simp only: c m)
  ultimately show ?thesis using ok by (simp add: tracker_ok_def)
qed

lemma tunnels_ok_tracker [simp]: "tunnels_ok (g\<lparr>gw_tracker := t\<rparr>) = tunnels_ok g"
  by (simp add: tunnels_ok_def)

lemma tunnels_ok_retain: "tunnels_ok g \<Longrightarrow> tunnels_ok (retain_alive g)"
  by (auto simp: tunnels_ok_def retain_alive_def intro: order_trans [OF length_filter_le])

lemma register_ok:
  assumes "tunnels_ok g" "register a g = (reg, g')"
  shows "tunnels_ok g' \<and> gw_tracker g' = gw_tracker g \<and> gw_tasks g' = (if reg then [(gw_next g, a)] else []) @ gw_tasks g"
proof -
  have r: "tunnels_ok (retain_alive g)" by (rule tunnels_ok_retain [OF assms(1)])
  have f: "gw_tracker (retain_alive g) = gw_tracker g" "gw_tasks (retain_alive g) = gw_tasks g" "gw_next (retain_alive g) = gw_next g"
    by (simp_all add: retain_alive_def)
  have "\<not> gw_alive g (gw_next g)" using assms(1) unfolding tunnels_ok_def by blast
  then have "map_of (gw_tasks g) (gw_next g) = None" using assms(1) unfolding tunnels_ok_def by blast
  moreover have "gw_next g \<notin> set (gw_idle (retain_alive g))" using r f(3) by (auto simp: tunnels_ok_def)
  moreover from calculation(1) have "gw_next g \<notin> set (map fst (gw_tasks g))" by (simp add: map_of_eq_None_iff)
  ultimately show ?thesis
    using assms(2) r f by (auto simp: register_def Let_def tunnels_ok_def less_Suc_eq split: if_splits)
qed

lemma remove_task:
  assumes "distinct (map fst tasks)" "map_of tasks t = Some a"
  shows "mset (map snd tasks) = mset (map snd ((t, a) # filter (\<lambda>(s, _). s \<noteq> t) tasks))"
  using assms
proof (induction tasks)
  case (Cons e tasks)
  obtain s b where e: "e = (s, b)" by fastforce
  show ?case
  proof (cases "s = t")
    case True
    with Cons.prems(1) e have "filter (\<lambda>(s, _). s \<noteq> t) tasks = tasks" by (auto simp: filter_id_conv image_def)
    with True e Cons.prems(2) show ?thesis by simp
  qed (use Cons e in auto)
qed simp

lemma map_of_other: "map_of (filter (\<lambda>(s, _). s \<noteq> t) xs) s = (if s = t then None else map_of xs s)"
  by (induction xs) auto

lemma tunnel_ended_ok:
  assumes "gateway_ok g" "t \<in> fst ` set (gw_tasks g)"
  shows "gateway_ok (tunnel_ended t now g)"
proof -
  obtain a where a: "map_of (gw_tasks g) t = Some a" using assms(2) by (metis map_of_eq_None_iff option.exhaust)
  have d: "distinct (map fst (gw_tasks g))" using assms(1) by (simp add: gateway_ok_def tunnels_ok_def)
  have "tracker_ok (gw_tracker g) ((t, a) # filter (\<lambda>(s, _). s \<noteq> t) (gw_tasks g))"
    using assms(1) tracker_ok_tasks [OF _ remove_task [OF d a]] by (simp add: gateway_ok_def)
  then have "tracker_ok (tracker_drop a now (gw_tracker g)) (filter (\<lambda>(s, _). s \<noteq> t) (gw_tasks g))"
    by (rule tracker_drop_ok)
  moreover have "tunnels_ok (tunnel_ended t now g)"
    using assms(1) d by (auto simp: gateway_ok_def tunnels_ok_def tunnel_ended_def distinct_map_filter map_of_other)
  ultimately show ?thesis using a by (simp add: gateway_ok_def tunnel_ended_def)
qed

lemma serve_tunnel_ok:
  assumes "gateway_ok g"
  shows "gateway_ok (serve_tunnel auth now later g)"
proof (cases auth)
  case (Inr node)
  obtain a t where c: "tracker_connect (an_name node) (an_url node) now (gw_tracker g) = (a, t)" by fastforce
  obtain reg g' where r: "register a (g\<lparr>gw_tracker := t\<rparr>) = (reg, g')" by fastforce
  have t: "tracker_ok t ((k, a) # gw_tasks g)" for k
    using tracker_connect_ok(1) [OF _ c] assms by (simp add: gateway_ok_def)
  have "tunnels_ok (g\<lparr>gw_tracker := t\<rparr>)" using assms by (simp add: gateway_ok_def)
  from register_ok [OF this r] t tracker_drop_ok [OF t] show ?thesis
    using c r Inr by (auto simp: serve_tunnel_def gateway_ok_def)
qed (use assms in \<open>simp add: serve_tunnel_def\<close>)

lemma acquire_pass_ok:
  assumes "gateway_ok g" "acquire_pass g = (t, g')"
  shows "gateway_ok g'"
proof -
  have "tunnels_ok (retain_alive g)" using assms(1) by (simp add: gateway_ok_def tunnels_ok_retain)
  moreover have "gw_tracker (retain_alive g) = gw_tracker g" "gw_tasks (retain_alive g) = gw_tasks g"
    by (simp_all add: retain_alive_def)
  ultimately show ?thesis
    using assms
    by (auto simp: acquire_pass_def gateway_ok_def tunnels_ok_def Let_def split: list.splits)
qed

lemma tracker_clear_ok: "tracker_ok t tasks \<Longrightarrow> tracker_ok (tracker_clear t) tasks"
  by (simp add: tracker_ok_def tracker_clear_def)

lemma gateway_step_ok:
  assumes "gateway_step g g'" "gateway_ok g"
  shows "gateway_ok g'"
  using assms(1)
proof cases
  case (ended t a now)
  then have "t \<in> fst ` set (gw_tasks g)" by (metis map_of_eq_None_iff option.distinct(1))
  with ended assms(2) show ?thesis by (simp add: tunnel_ended_ok)
next
  case (cleared)
  then show ?thesis using assms(2) by (simp add: gateway_ok_def tracker_clear_ok)
qed (use assms(2) in \<open>auto intro: serve_tunnel_ok acquire_pass_ok\<close>)

lemma gateway_steps_ok: "gateway_step\<^sup>*\<^sup>* g g' \<Longrightarrow> gateway_ok g \<Longrightarrow> gateway_ok g'"
  by (induction rule: rtranclp_induct) (auto intro: gateway_step_ok)

lemma gateway_step_then: "gateway_step g g1 \<Longrightarrow> gateway_step\<^sup>*\<^sup>* g1 g' \<Longrightarrow> gateway_step\<^sup>*\<^sup>* g g'"
  by (rule converse_rtranclp_into_rtranclp)

lemma gateway_loop_steps: "gateway_loop events g = (r, g') \<Longrightarrow> gateway_step\<^sup>*\<^sup>* g g'"
proof (induction events g rule: gateway_loop.induct)
  case (2 accepted configured auth now later events g)
  then show ?case by (auto split: sum.splits intro: gateway_step_then gateway_step.connected)
next
  case (4 events g)
  obtain t g1 where "acquire_pass g = (t, g1)" by fastforce
  with 4 gateway_step_then [OF gateway_step.acquired [OF this]] show ?case by simp
next
  case (5 t now events g)
  then show ?case by (auto split: if_splits intro: gateway_step_then gateway_step.ended)
next
  case (6 events g)
  then show ?case by (auto intro: gateway_step_then gateway_step.cleared)
qed (auto split: sum.splits)

lemma gateway_loop_not_Ok: "fst (gateway_loop events g) \<noteq> Some (Ok u)"
  by (induction events g rule: gateway_loop.induct) (auto split: sum.splits)

lemma run_gateway_reach: "run_gateway bind opts GatewayTracker_default events = (r, Some g) \<Longrightarrow> gateway_reach g"
  by (auto simp: run_gateway_def gateway_reach_def split: sum.splits prod.splits dest: gateway_loop_steps)

lemma gateway_reach_ok: "gateway_reach g \<Longrightarrow> gateway_ok g"
proof -
  assume "gateway_reach g"
  then obtain bind opts g0 where g0: "start_gateway bind opts GatewayTracker_default = Ok g0" "gateway_step\<^sup>*\<^sup>* g0 g"
    by (auto simp: gateway_reach_def)
  from g0(1) have "gateway_ok g0"
    by (auto simp: start_gateway_def result_simps gateway_ok_def tunnels_ok_def tracker_ok_def gateway_new_def
        GatewayTracker_default_def)
  with g0(2) show ?thesis by (rule gateway_steps_ok)
qed

text \<open>A tunnel that left the queue never comes back.\<close>

definition taken :: "tunnel \<Rightarrow> gateway \<Rightarrow> bool" where
  "taken t g = (t < gw_next g \<and> t \<notin> set (gw_idle g))"

lemma taken_step:
  assumes "gateway_step g g'" "taken t g"
  shows "taken t g'"
  using assms(1)
proof cases
  case (connected auth now later)
  show ?thesis
  proof (cases auth)
    case (Inr node)
    then show ?thesis
      using connected assms(2)
      by (auto simp: serve_tunnel_def register_def retain_alive_def taken_def Let_def split: prod.splits if_splits)
  qed (use connected assms(2) in \<open>simp add: serve_tunnel_def\<close>)
next
  case (acquired s)
  then show ?thesis
    using assms(2) by (auto simp: acquire_pass_def retain_alive_def taken_def Let_def split: list.splits dest: filter_eq_ConsD)
qed (use assms(2) in \<open>auto simp: taken_def tunnel_ended_def\<close>)

lemma taken_steps: "gateway_step\<^sup>*\<^sup>* g g' \<Longrightarrow> taken t g \<Longrightarrow> taken t g'"
  by (induction rule: rtranclp_induct) (auto intro: taken_step)

lemma acquire_pass_Some:
  assumes "gateway_ok g" "acquire_pass g = (Some t, g')"
  shows "gw_alive g t" "taken t g'" "t \<in> set (gw_idle g)" "gw_tracker g' = gw_tracker g" "gw_tasks g' = gw_tasks g"
proof -
  obtain ts where ts: "filter (gw_alive g) (gw_idle g) = t # ts" "gw_idle g' = ts" "gw_next g' = gw_next g"
    and "gw_tracker g' = gw_tracker g" "gw_tasks g' = gw_tasks g"
    using assms(2) by (auto simp: acquire_pass_def retain_alive_def Let_def split: list.splits)
  then show "gw_tracker g' = gw_tracker g" "gw_tasks g' = gw_tasks g" by simp_all
  have t: "t \<in> set (filter (gw_alive g) (gw_idle g))" by (simp add: ts(1))
  then show "gw_alive g t" "t \<in> set (gw_idle g)" by auto
  have "distinct (t # ts)" using assms(1) distinct_filter [of "gw_idle g" "gw_alive g"]
    by (simp only: ts(1) gateway_ok_def tunnels_ok_def)
  moreover have "t < gw_next g" using t assms(1) by (auto simp: gateway_ok_def tunnels_ok_def)
  ultimately show "taken t g'" using ts by (simp add: taken_def)
qed

text \<open>The search for a tunnel, attempt by attempt.\<close>

lemma find_tunnel_skip:
  assumes "acq (Suc k) = Ok c" "assign (Suc k) c = None" "Suc k < 8"
  shows "find_tunnel acq assign k = find_tunnel acq assign (Suc k)"
  using assms by (subst find_tunnel.simps) simp

lemma find_tunnel_skips:
  assumes "\<forall>i < n. \<exists>c. acq (Suc i) = Ok c \<and> assign (Suc i) c = None" "n < 8"
  shows "find_tunnel acq assign 0 = find_tunnel acq assign n"
  using assms
proof (induction n)
  case (Suc n)
  then obtain c where "acq (Suc n) = Ok c" "assign (Suc n) c = None" by blast
  with Suc find_tunnel_skip [of acq n c assign] show ?case by simp
qed simp

section \<open>Properties\<close>

text \<open>A gateway with room for two tunnels, and two tunnels of one node.\<close>

definition example_options :: GatewayOptions where
  "example_options = \<lparr>go_tunnel_listen = [], go_public_listen = [], go_token = [1], go_queue_capacity = 2\<rparr>"

definition example_gateway :: gateway where
  "example_gateway =
     (let node = Ok \<lparr>an_name = ''n'', an_url = []\<rparr>
      in serve_tunnel node 5 5 (serve_tunnel node 4 4 (gateway_new GatewayTracker_default 2)))"

lemma example_gateway_reach: "gateway_reach example_gateway"
proof -
  have "start_gateway (\<lambda>_. Ok ()) example_options GatewayTracker_default = Ok (gateway_new GatewayTracker_default 2)"
    by (simp add: start_gateway_def example_options_def)
  moreover have "gateway_step\<^sup>*\<^sup>* (gateway_new GatewayTracker_default 2) example_gateway"
    unfolding example_gateway_def Let_def
    by (rule converse_rtranclp_into_rtranclp [OF connected r_into_rtranclp [of gateway_step, OF connected]])
  ultimately show ?thesis by (auto simp: gateway_reach_def)
qed

lemma example_gateway_fields:
  "gw_idle example_gateway = [0, 1]" "gw_tasks example_gateway = [(1, 0), (0, 0)]"
  "map gs_tunnel_count (tracker_snapshot (gw_tracker example_gateway)) = [2]"
  "gw_alive example_gateway 0" "gw_alive example_gateway 1"
  by code_simp+

text \<open>The gateway's state. However tunnels connect, fail and are handed out, the queue never holds
  more tunnels than its capacity, which is at most 1024, nor one twice; the status page lists each
  known node once, online nodes first and then by name, and the number of tunnels it shows is the
  number of idle tunnels the gateway keeps for that node, online exactly if there is one.\<close>

theorem nat_gateway_status:
  assumes "gateway_reach g" "length (gw_tasks g) < 2 ^ 64"
  shows "length (gw_idle g) \<le> gw_capacity g \<and> gw_capacity g \<le> 1024 \<and> distinct (gw_idle g) \<and>
    sorted (map (\<lambda>s. (\<not> gs_online s, gs_name s)) (tracker_snapshot (gw_tracker g))) \<and>
    distinct (map gs_name (tracker_snapshot (gw_tracker g))) \<and>
    (\<forall>s \<in> set (tracker_snapshot (gw_tracker g)). \<exists>a. (gs_name s, a) \<in> set (nodes (gw_tracker g)) \<and>
       unat (gs_tunnel_count s) = tunnels_of a (gw_tasks g) \<and> (gs_online s \<longleftrightarrow> 0 < tunnels_of a (gw_tasks g)))"
proof -
  let ?t = "gw_tracker g"
  have ok: "tunnels_ok g" "tracker_ok ?t (gw_tasks g)"
    using gateway_reach_ok [OF assms(1)] by (simp_all add: gateway_ok_def)
  have names: "map gs_name (map (node_status ?t) (nodes ?t)) = map fst (nodes ?t)"
    by (simp add: node_status_def case_prod_unfold Let_def)
  have "mset (map gs_name (tracker_snapshot ?t)) = mset (map gs_name (map (node_status ?t) (nodes ?t)))"
    by (simp add: tracker_snapshot_def multiset.map_comp)
  then have "distinct (map gs_name (tracker_snapshot ?t))"
    using ok(2) names by (metis mset_eq_imp_distinct_iff tracker_ok_def)
  moreover have "unat (tunnel_count (runtimes ?t a)) = tunnels_of a (gw_tasks g)" if "(name, a) \<in> set (nodes ?t)" for name a
  proof -
    have "tunnels_of a (gw_tasks g) < 2 ^ 64"
      using assms(2) length_filter_le [of _ "gw_tasks g"] unfolding tunnels_of_def by (rule order.strict_trans1 [rotated])
    with that ok(2) show ?thesis by (auto simp: tracker_ok_def unat_of_nat)
  qed
  then have "\<forall>s \<in> set (tracker_snapshot ?t). \<exists>a. (gs_name s, a) \<in> set (nodes ?t) \<and>
      unat (gs_tunnel_count s) = tunnels_of a (gw_tasks g) \<and> (gs_online s \<longleftrightarrow> 0 < tunnels_of a (gw_tasks g))"
    by (force simp: tracker_snapshot_def node_status_def Let_def word_less_nat_alt)
  ultimately show ?thesis
    using ok(1) by (simp add: tunnels_ok_def tracker_snapshot_def)
qed

theorem nat_gateway_status_witness:
  "length (gw_tasks example_gateway) = 2 \<and> length (gw_idle example_gateway) \<le> gw_capacity example_gateway \<and>
   map gs_tunnel_count (tracker_snapshot (gw_tracker example_gateway)) = [2]"
  using nat_gateway_status [OF example_gateway_reach] by (simp add: example_gateway_fields)

text \<open>C17: each public connection has a tunnel of its own. The tunnel a public connection takes from the
  queue is one whose task is alive, and no connection that looks for a tunnel later, whatever
  happens in between, is given the same one.\<close>

theorem nat_tunnel_dedicated:
  assumes "run_gateway bind opts GatewayTracker_default events = (r, Some g)" "acquire_pass g = (Some t, g1)"
    and "gateway_loop later_events g1 = (r', g2)" "acquire_pass g2 = (Some t', g3)"
  shows "map_of (gw_tasks g) t \<noteq> None \<and> map_of (gw_tasks g2) t' \<noteq> None \<and> t' \<noteq> t"
proof -
  have ok: "gateway_ok g" by (rule gateway_reach_ok [OF run_gateway_reach [OF assms(1)]])
  note steps = gateway_loop_steps [OF assms(3)]
  have "gateway_ok g2" using gateway_steps_ok [OF steps acquire_pass_ok [OF ok assms(2)]] .
  with ok have "gw_alive g t" "gw_alive g2 t'" "t' \<in> set (gw_idle g2)"
    using acquire_pass_Some [OF _ assms(2)] acquire_pass_Some [OF _ assms(4)] by auto
  moreover have "taken t g2" using taken_steps [OF steps acquire_pass_Some(2) [OF ok assms(2)]] .
  ultimately show ?thesis
    using ok \<open>gateway_ok g2\<close> unfolding gateway_ok_def tunnels_ok_def taken_def by blast
qed

theorem nat_tunnel_dedicated_witness:
  "fst (acquire_pass example_gateway) = Some 0 \<and> fst (acquire_pass (snd (acquire_pass example_gateway))) = Some 1 \<and>
   map_of (gw_tasks example_gateway) 0 \<noteq> None"
proof -
  let ?node = "Ok \<lparr>an_name = ''n'', an_url = []\<rparr> :: AuthenticatedNode result"
  have run: "run_gateway (\<lambda>_. Ok ()) example_options GatewayTracker_default
      [Tunnel_Accepted (Ok ()) (Ok ()) ?node 4 4, Tunnel_Accepted (Ok ()) (Ok ()) ?node 5 5] = (None, Some example_gateway)"
    by (simp add: run_gateway_def start_gateway_def example_options_def example_gateway_def Let_def)
  have f: "fst (acquire_pass example_gateway) = Some 0" "fst (acquire_pass (snd (acquire_pass example_gateway))) = Some 1"
    by code_simp+
  then obtain g1 g3 where a: "acquire_pass example_gateway = (Some 0, g1)" "acquire_pass g1 = (Some 1, g3)"
    by (metis prod.collapse snd_conv)
  have "gateway_loop [] g1 = (None, g1)" by simp
  from nat_tunnel_dedicated [OF run a(1) this a(2)] f show ?thesis by simp
qed

text \<open>C31: the search of a public connection ends. It makes at most eight attempts; it returns the
  stream of the first candidate whose assignment succeeds among them, the error of the first wait
  that fails, and an error of its own after eight candidates that fail.\<close>

theorem nat_public_connection_attempts:
  assumes "n < 8" "\<forall>i < n. \<exists>c. acq (Suc i) = Ok c \<and> assign (Suc i) c = None"
  shows "(\<forall>c stream. acq (Suc n) = Ok c \<longrightarrow> assign (Suc n) c = Some stream \<longrightarrow>
      find_tunnel acq assign 0 = (Ok stream, Suc n)) \<and>
    (\<forall>e. acq (Suc n) = Err e \<longrightarrow> find_tunnel acq assign 0 = (Err e, Suc n)) \<and>
    (\<forall>c. n = 7 \<longrightarrow> acq (Suc n) = Ok c \<longrightarrow> assign (Suc n) c = None \<longrightarrow>
      find_tunnel acq assign 0 = (Err ''no usable NAT tunnel was available'', 8)) \<and>
    snd (find_tunnel acq assign 0) \<le> 8"
proof -
  have s: "find_tunnel acq assign 0 = find_tunnel acq assign n" by (rule find_tunnel_skips [OF assms(2,1)])
  have "snd (find_tunnel acq assign k) \<le> 8" if "k < 8" for k
    using that
  proof (induction acq assign k rule: find_tunnel.induct)
    case (1 acq assign k)
    then show ?case by (subst find_tunnel.simps) (auto split: sum.split option.split)
  qed
  with assms(1) have "snd (find_tunnel acq assign n) \<le> 8" by blast
  then show ?thesis unfolding s by (subst (1 2 3) find_tunnel.simps) simp
qed

theorem nat_public_connection_attempts_witness:
  "find_tunnel (\<lambda>k. Ok k) (\<lambda>k c. if k = 3 then Some ''tunnel'' else None) 0 = (Ok ''tunnel'', 3) \<and>
   find_tunnel (\<lambda>k. Ok k) (\<lambda>k c. None :: string option) 0 = (Err ''no usable NAT tunnel was available'', 8)"
  using nat_public_connection_attempts [of 2 "\<lambda>k. Ok k" "\<lambda>k c. if k = 3 then Some ''tunnel'' else None"]
    nat_public_connection_attempts [of 7 "\<lambda>k. Ok k" "\<lambda>k c. None :: string option"]
  by simp

end
