(* ===== verification/Reverse_Proxy.thy ===== *)
theory Reverse_Proxy
  imports Nat_Gateway Rust_Path
begin

text \<open>
  The reverse-proxy controller of \<^verbatim>\<open>src/src/reverse_proxy.rs\<close>: the settings and their checks, their file, and
  the controller that keeps one tunnel task running for the current settings. The TOML library, the
  URL parser, the random source and the file system calls are arguments.
\<close>

section \<open>Settings\<close>

datatype ReverseProxyRole = Gateway | Client

record ReverseProxySettings =
  rp_enabled :: bool
  rp_role :: ReverseProxyRole
  rp_gateway :: string
  rp_tunnel_port :: u16
  rp_public_port :: u16
  rp_local_port :: u16
  rp_pool_size :: nat
  rp_queue_capacity :: nat
  rp_token :: string
  rp_subscription_url :: string

definition generate_token :: "bytes option \<Rightarrow> string result" where
  "generate_token random = and_then (ok_or random ''generate reverse proxy token'') (\<lambda>bs. Ok (hex_string bs))"

definition ReverseProxySettings_default :: "bytes option \<Rightarrow> ReverseProxySettings" where
  "ReverseProxySettings_default random =
     \<lparr>rp_enabled = False, rp_role = Client, rp_gateway = [], rp_tunnel_port = 7000, rp_public_port = 51400,
      rp_local_port = 51400, rp_pool_size = 4, rp_queue_capacity = 64,
      rp_token = (case generate_token random of Ok t \<Rightarrow> t | Err _ \<Rightarrow> []), rp_subscription_url = []\<rparr>"

definition endpoint_parts :: "string \<Rightarrow> (string \<times> string) result" where
  "endpoint_parts endpoint =
     (case strip_prefix ''['' endpoint of
        Some rest \<Rightarrow> ok_or (split_once '']:'' rest) ''gateway must use [IPv6]:port format''
      | None \<Rightarrow>
          and_then (ok_or (rsplit_once (CHR '':'') endpoint) ''gateway must include a port'') (\<lambda>(host, port).
          and_then (ensure (\<not> str_contains '':'' host) ''IPv6 gateways must use [IPv6]:port format'') (\<lambda>_.
          Ok (host, port))))"

definition validate_endpoint :: "string \<Rightarrow> unit result" where
  "validate_endpoint endpoint =
     and_then (endpoint_parts (trim endpoint)) (\<lambda>(host, port).
     and_then (ensure (trim host \<noteq> []) ''gateway host must not be empty'') (\<lambda>_.
     and_then (ok_or (parse_uint 16 port) ''gateway port must be between 1 and 65535'') (\<lambda>port.
     ensure (port > 0) ''gateway port must be between 1 and 65535'')))"

definition rp_validate :: "libs \<Rightarrow> ReverseProxySettings \<Rightarrow> unit result" where
  "rp_validate lb s =
     and_then (ensure (16 \<le> length (rp_token s) \<and> length (rp_token s) \<le> 256 \<and> \<not> has_control (rp_token s))
        ''reverse proxy token must contain 16-256 non-control characters'') (\<lambda>_.
     and_then (ensure (1 \<le> rp_pool_size s \<and> rp_pool_size s \<le> 64) ''reverse proxy pool size must be between 1 and 64'') (\<lambda>_.
     and_then (ensure (1 \<le> rp_queue_capacity s \<and> rp_queue_capacity s \<le> 1024)
        ''reverse proxy queue capacity must be between 1 and 1024'') (\<lambda>_.
     and_then
       (if rp_subscription_url s \<noteq> [] then
          and_then (ok_or (url_scheme lb (rp_subscription_url s)) ''reverse proxy subscription URL is invalid'') (\<lambda>scheme.
          and_then (ensure (scheme \<in> {''http'', ''https''}) ''reverse proxy subscription URL must use HTTP or HTTPS'') (\<lambda>_.
          ensure (length (rp_subscription_url s) \<le> 2048 \<and> \<not> has_control (rp_subscription_url s))
            ''reverse proxy subscription URL is too long''))
        else Ok ()) (\<lambda>_.
     if \<not> rp_enabled s then Ok ()
     else case rp_role s of
            Gateway \<Rightarrow> ensure (rp_tunnel_port s \<noteq> rp_public_port s) ''tunnel and public ports must be different''
          | Client \<Rightarrow> validate_endpoint (rp_gateway s)))))"

section \<open>The settings file\<close>

text \<open>The file system calls of \<^verbatim>\<open>save\<close> and of the first read.\<close>

record rp_ops =
  can_create_dir :: bool
  can_open :: "path \<Rightarrow> bool"
  can_write :: bool
  can_replace :: bool
  can_read :: "path \<Rightarrow> bool"

text \<open>The directory of the file is created unless the path names none.\<close>

definition create_parent :: "string \<Rightarrow> rp_ops \<Rightarrow> path \<Rightarrow> unit result" where
  "create_parent what ops path =
     (case path_parent path of
        None \<Rightarrow> Ok ()
      | Some parent \<Rightarrow> if parent = [] then Ok () else ensure (can_create_dir ops) (''create '' @ what @ parent))"

text \<open>Writing a private file: a temporary beside it, created with mode 0600, written, synced and renamed.
  \<open>what\<close> names the file in the errors.\<close>

definition write_private ::
  "string \<Rightarrow> (path \<Rightarrow> path) \<Rightarrow> rp_ops \<Rightarrow> path \<Rightarrow> string \<Rightarrow> fs \<Rightarrow> unit result \<times> fs" where
  "write_private what with_tmp ops path contents files =
     (let temporary = with_tmp path in
      if \<not> can_open ops temporary then (Err (''write '' @ what @ temporary), files)
      else
        let mode = (case files temporary of None \<Rightarrow> 384 | Some f \<Rightarrow> file_mode f) in
        if \<not> can_write ops
        then (Err ''write failed'', files(temporary \<mapsto> \<lparr>file_contents = [], file_mode = mode\<rparr>))
        else
          let files = files(temporary \<mapsto> \<lparr>file_contents = contents, file_mode = mode\<rparr>) in
          if can_replace ops then (Ok (), files(path := files temporary, temporary := None))
          else (Err (''replace '' @ what @ path), files))"

definition rp_save ::
  "(ReverseProxySettings \<Rightarrow> string option) \<Rightarrow> libs \<Rightarrow> (path \<Rightarrow> path) \<Rightarrow> rp_ops \<Rightarrow> path \<Rightarrow> ReverseProxySettings \<Rightarrow> fs \<Rightarrow>
   unit result \<times> fs" where
  "rp_save toml_print lb with_tmp ops path s files =
     (case and_then (rp_validate lb s) (\<lambda>_.
           and_then (create_parent ''reverse proxy directory '' ops path) (\<lambda>_.
           ok_or (toml_print s) ''serialize reverse proxy settings'')) of
        Err e \<Rightarrow> (Err e, files)
      | Ok contents \<Rightarrow> write_private ''reverse proxy configuration '' with_tmp ops path contents files)"

definition load_or_create ::
  "(ReverseProxySettings \<Rightarrow> string option) \<Rightarrow> (string \<Rightarrow> ReverseProxySettings option) \<Rightarrow> libs \<Rightarrow> (path \<Rightarrow> path) \<Rightarrow>
   rp_ops \<Rightarrow> bytes option \<Rightarrow> path \<Rightarrow> fs \<Rightarrow> ReverseProxySettings result \<times> fs" where
  "load_or_create toml_print toml_parse lb with_tmp ops random path files =
     (if \<not> can_read ops path then (Err (''read reverse proxy configuration '' @ path), files)
      else (case files path of
        Some f \<Rightarrow>
          (and_then (ok_or (toml_parse (file_contents f)) (''parse reverse proxy configuration '' @ path)) (\<lambda>s.
           and_then (rp_validate lb s) (\<lambda>_. Ok s)), files)
      | None \<Rightarrow>
          let s = ReverseProxySettings_default random in
          (case rp_save toml_print lb with_tmp ops path s files of
             (Ok _, files) \<Rightarrow> (Ok s, files)
           | (Err e, files) \<Rightarrow> (Err e, files))))"

section \<open>The controller\<close>

datatype tunnel_task =
    Run_Gateway GatewayOptions
  | Run_Client ClientOptions

record controller =
  ct_path :: path
  ct_settings :: ReverseProxySettings
  ct_running :: bool
  ct_started_at :: "nat option"
  ct_last_error :: "string option"
  ct_tracker :: GatewayTracker
  ct_task :: "tunnel_task option"

definition tunnel_task_of :: "string \<Rightarrow> ReverseProxySettings \<Rightarrow> tunnel_task" where
  "tunnel_task_of device s =
     (case rp_role s of
        Gateway \<Rightarrow> Run_Gateway \<lparr>go_tunnel_listen = ''0.0.0.0:'' @ show_nat (unat (rp_tunnel_port s)),
            go_public_listen = ''0.0.0.0:'' @ show_nat (unat (rp_public_port s)), go_token = as_bytes (rp_token s),
            go_queue_capacity = rp_queue_capacity s\<rparr>
      | Client \<Rightarrow> Run_Client \<lparr>co_gateway = rp_gateway s, co_local = ''127.0.0.1:'' @ show_nat (unat (rp_local_port s)),
            co_token = as_bytes (rp_token s), co_pool_size = rp_pool_size s, co_node_name = device,
            co_subscription_url = rp_subscription_url s\<rparr>)"

text \<open>The old task is aborted and awaited before the state is reset, so it does not write the state
  afterwards.\<close>

definition restart :: "string \<Rightarrow> nat \<Rightarrow> controller \<Rightarrow> controller" where
  "restart device now ct =
     (let ct = ct\<lparr>ct_task := None, ct_tracker := tracker_clear (ct_tracker ct), ct_running := False,
                 ct_started_at := None, ct_last_error := None\<rparr> in
      if \<not> rp_enabled (ct_settings ct) then ct
      else ct\<lparr>ct_running := True, ct_started_at := Some now, ct_task := Some (tunnel_task_of device (ct_settings ct))\<rparr>)"

text \<open>The end of the spawned task: its result is recorded. The handle stays in its slot.\<close>

definition task_finished :: "unit result \<Rightarrow> controller \<Rightarrow> controller" where
  "task_finished r ct =
     ct\<lparr>ct_running := False, ct_started_at := None,
        ct_last_error := (case r of Err e \<Rightarrow> Some e | Ok _ \<Rightarrow> None)\<rparr>"

record ReverseProxyStatus =
  st_settings :: ReverseProxySettings
  st_running :: bool
  st_uptime_secs :: nat
  st_last_error :: "string option"
  st_local_node_name :: string
  st_connected_nodes :: "GatewayNodeStatus list"

definition rp_status :: "string \<Rightarrow> nat \<Rightarrow> controller \<Rightarrow> ReverseProxyStatus" where
  "rp_status device now ct =
     \<lparr>st_settings = ct_settings ct, st_running = ct_running ct,
      st_uptime_secs = (case ct_started_at ct of Some t \<Rightarrow> if ct_running ct then now - t else 0 | None \<Rightarrow> 0),
      st_last_error = ct_last_error ct, st_local_node_name = device,
      st_connected_nodes = tracker_snapshot (ct_tracker ct)\<rparr>"

definition controller_new ::
  "(ReverseProxySettings \<Rightarrow> string option) \<Rightarrow> (string \<Rightarrow> ReverseProxySettings option) \<Rightarrow> libs \<Rightarrow> (path \<Rightarrow> path) \<Rightarrow>
   rp_ops \<Rightarrow> bytes option \<Rightarrow> string \<Rightarrow> nat \<Rightarrow> path \<Rightarrow> fs \<Rightarrow> controller result \<times> fs" where
  "controller_new toml_print toml_parse lb with_tmp ops random device now path files =
     (case load_or_create toml_print toml_parse lb with_tmp ops random path files of
        (Err e, files) \<Rightarrow> (Err e, files)
      | (Ok s, files) \<Rightarrow>
          (Ok (restart device now
             \<lparr>ct_path = path, ct_settings = s, ct_running = False, ct_started_at = None, ct_last_error = None,
              ct_tracker = GatewayTracker_default, ct_task = None\<rparr>), files))"

definition controller_update ::
  "(ReverseProxySettings \<Rightarrow> string option) \<Rightarrow> libs \<Rightarrow> (path \<Rightarrow> path) \<Rightarrow> rp_ops \<Rightarrow> string \<Rightarrow> nat \<Rightarrow> ReverseProxySettings \<Rightarrow>
   controller \<Rightarrow> fs \<Rightarrow> ReverseProxyStatus result \<times> controller \<times> fs" where
  "controller_update toml_print lb with_tmp ops device now s ct files =
     (case rp_validate lb s of
        Err e \<Rightarrow> (Err e, ct, files)
      | Ok _ \<Rightarrow>
          (case rp_save toml_print lb with_tmp ops (ct_path ct) s files of
             (Err e, files) \<Rightarrow> (Err e, ct, files)
           | (Ok _, files) \<Rightarrow>
               let ct = (if ct_settings ct = s then ct else restart device now (ct\<lparr>ct_settings := s\<rparr>))
               in (Ok (rp_status device now ct), ct, files)))"

text \<open>How the tunnel of a task ends, if it has: \<open>bind\<close>, \<open>events\<close> and \<open>joins\<close> are what the gateway and the client meet.\<close>

definition task_result ::
  "libs \<Rightarrow> (string \<Rightarrow> unit result) \<Rightarrow> GatewayTracker \<Rightarrow> gateway_event list \<Rightarrow> (string + unit result) list \<Rightarrow> tunnel_task \<Rightarrow>
   unit result option" where
  "task_result lb bind tracker events joins task =
     (case task of
        Run_Gateway opts \<Rightarrow> fst (run_gateway bind opts tracker events)
      | Run_Client opts \<Rightarrow> fst (run_client lb opts joins))"

text \<open>The life of a controller and its file: its creation, updates in any order, and tasks that end.\<close>

inductive rp_reach ::
  "(ReverseProxySettings \<Rightarrow> string option) \<Rightarrow> (string \<Rightarrow> ReverseProxySettings option) \<Rightarrow> libs \<Rightarrow> (path \<Rightarrow> path) \<Rightarrow> string \<Rightarrow>
   controller \<Rightarrow> fs \<Rightarrow> bool"
  for toml_print toml_parse lb with_tmp device where
  created: "controller_new toml_print toml_parse lb with_tmp ops random device now path files = (Ok ct, files') \<Longrightarrow>
     rp_reach toml_print toml_parse lb with_tmp device ct files'"
| updated: "rp_reach toml_print toml_parse lb with_tmp device ct files \<Longrightarrow>
     controller_update toml_print lb with_tmp ops device now s ct files = (r, ct', files') \<Longrightarrow>
     rp_reach toml_print toml_parse lb with_tmp device ct' files'"
| finished: "rp_reach toml_print toml_parse lb with_tmp device ct files \<Longrightarrow> ct_running ct \<Longrightarrow> ct_task ct = Some task \<Longrightarrow>
     task_result lb bind (ct_tracker ct) events joins task = Some r \<Longrightarrow>
     rp_reach toml_print toml_parse lb with_tmp device (task_finished r ct) files"

section \<open>Lemmas\<close>

lemma system_device_name_valid: "validate_node_name (system_device_name hostname_file hostname_var) = Ok ()"
proof -
  have "validate_node_name ''sing-box-ser-mini'' = Ok ()" by code_simp
  then show ?thesis
    by (auto simp: system_device_name_def Let_def is_ok_iff split: option.splits)
qed

lemma rp_validate_fields:
  assumes "rp_validate lb s = Ok ()"
  shows "1 \<le> rp_pool_size s" "rp_pool_size s \<le> 64" "1 \<le> rp_queue_capacity s" "rp_queue_capacity s \<le> 1024"
    "validate_subscription_url lb (rp_subscription_url s) = Ok ()" "16 \<le> length (rp_token s)"
  using assms
  by (auto simp: rp_validate_def validate_subscription_url_def result_simps split: if_splits ReverseProxyRole.splits)

lemma write_private_Ok:
  assumes "write_private what with_tmp ops path contents files = (Ok (), files')" "with_tmp path \<noteq> path"
  shows "files' path = Some \<lparr>file_contents = contents,
      file_mode = (case files (with_tmp path) of None \<Rightarrow> 384 | Some f \<Rightarrow> file_mode f)\<rparr>"
  using assms by (auto simp: write_private_def Let_def split: if_splits)

lemma write_private_Err:
  assumes "write_private what with_tmp ops path contents files = (Err e, files')" "with_tmp path \<noteq> path"
  shows "files' path = files path"
  using assms by (auto simp: write_private_def Let_def split: if_splits)

lemma rp_save_Ok:
  assumes "rp_save toml_print lb with_tmp ops path s files = (Ok (), files')" "with_tmp path \<noteq> path"
  shows "\<exists>contents mode. rp_validate lb s = Ok () \<and> toml_print s = Some contents \<and>
    files' path = Some \<lparr>file_contents = contents, file_mode = mode\<rparr>"
proof -
  obtain contents where "rp_validate lb s = Ok ()" "toml_print s = Some contents"
    "write_private ''reverse proxy configuration '' with_tmp ops path contents files = (Ok (), files')"
    using assms(1) by (auto simp: rp_save_def result_simps split: sum.splits)
  with write_private_Ok [OF this(3) assms(2)] show ?thesis by blast
qed

lemma rp_save_Err:
  assumes "rp_save toml_print lb with_tmp ops path s files = (Err e, files')" "with_tmp path \<noteq> path"
  shows "files' path = files path"
  using assms by (auto simp: rp_save_def split: sum.splits dest: write_private_Err)

definition controller_ok ::
  "(string \<Rightarrow> ReverseProxySettings option) \<Rightarrow> libs \<Rightarrow> string \<Rightarrow> controller \<Rightarrow> fs \<Rightarrow> bool" where
  "controller_ok toml_parse lb device ct files =
     (rp_validate lb (ct_settings ct) = Ok () \<and>
      Option.bind (files (ct_path ct)) (\<lambda>f. toml_parse (file_contents f)) = Some (ct_settings ct) \<and>
      ct_task ct = (if rp_enabled (ct_settings ct) then Some (tunnel_task_of device (ct_settings ct)) else None) \<and>
      (ct_running ct \<longrightarrow> rp_enabled (ct_settings ct)) \<and>
      (rp_enabled (ct_settings ct) \<and> \<not> ct_running ct \<longrightarrow> ct_last_error ct \<noteq> None) \<and> (ct_running ct \<longleftrightarrow> ct_started_at ct \<noteq> None))"

lemma restart_ok:
  assumes "rp_validate lb (ct_settings ct) = Ok ()"
    and "Option.bind (files (ct_path ct)) (\<lambda>f. toml_parse (file_contents f)) = Some (ct_settings ct)"
  shows "controller_ok toml_parse lb device (restart device now ct) files"
  using assms by (simp add: controller_ok_def restart_def Let_def)

text \<open>The settings file, for a codec that parses back what it prints and a temporary path that is not
  the path itself.\<close>

lemma saved:
  assumes parse_print: "\<forall>s contents. toml_print s = Some contents \<longrightarrow> toml_parse contents = Some s"
    and tmp_other: "\<forall>path. with_tmp path \<noteq> path"
    and "rp_save toml_print lb with_tmp ops path s files = (Ok (), files')"
  shows "rp_validate lb s = Ok ()" "Option.bind (files' path) (\<lambda>f. toml_parse (file_contents f)) = Some s"
  using rp_save_Ok [OF assms(3)] parse_print tmp_other by auto

lemma created_ok:
  assumes parse_print: "\<forall>s contents. toml_print s = Some contents \<longrightarrow> toml_parse contents = Some s"
    and tmp_other: "\<forall>path. with_tmp path \<noteq> path"
    and new: "controller_new toml_print toml_parse lb with_tmp ops random device now path files = (Ok ct, files')"
  shows "controller_ok toml_parse lb device ct files'"
proof -
  obtain s where l: "load_or_create toml_print toml_parse lb with_tmp ops random path files = (Ok s, files')"
    and ct: "ct = restart device now
        \<lparr>ct_path = path, ct_settings = s, ct_running = False, ct_started_at = None, ct_last_error = None,
         ct_tracker = GatewayTracker_default, ct_task = None\<rparr>"
    using new by (auto simp: controller_new_def split: prod.splits sum.splits)
  have "rp_validate lb s = Ok () \<and> Option.bind (files' path) (\<lambda>f. toml_parse (file_contents f)) = Some s"
  proof (cases "files path")
    case None
    with l have "rp_save toml_print lb with_tmp ops path s files = (Ok (), files')"
      by (auto simp: load_or_create_def Let_def split: if_splits prod.splits sum.splits)
    with saved [OF parse_print tmp_other] show ?thesis by blast
  next
    case (Some f)
    with l show ?thesis by (auto simp: load_or_create_def result_simps split: if_splits)
  qed
  then show ?thesis unfolding ct by (intro restart_ok) simp_all
qed

lemma updated_ok:
  assumes parse_print: "\<forall>s contents. toml_print s = Some contents \<longrightarrow> toml_parse contents = Some s"
    and tmp_other: "\<forall>path. with_tmp path \<noteq> path"
    and upd: "controller_update toml_print lb with_tmp ops device now s ct files = (r, ct', files')"
    and ok: "controller_ok toml_parse lb device ct files"
  shows "controller_ok toml_parse lb device ct' files' \<and> (is_ok r \<longrightarrow> ct_settings ct' = s) \<and> (\<not> is_ok r \<longrightarrow> ct' = ct)"
proof (cases "rp_validate lb s")
  case (Inl e)
  then show ?thesis using upd ok by (auto simp: controller_update_def)
next
  case (Inr u)
  obtain q files1 where sv: "rp_save toml_print lb with_tmp ops (ct_path ct) s files = (q, files1)" by fastforce
  show ?thesis
  proof (cases q)
    case (Inl e)
    then have "files1 (ct_path ct) = files (ct_path ct)" using rp_save_Err [of toml_print lb with_tmp ops "ct_path ct" s files e files1] tmp_other sv by simp
    with Inl Inr sv upd ok show ?thesis by (auto simp: controller_update_def controller_ok_def)
  next
    case q: (Inr u')
    then have "q = Ok ()" by simp
    note f = saved [OF parse_print tmp_other sv [unfolded this]]
    from q Inr sv upd have r: "is_ok r" "files' = files1"
      and c: "ct' = (if ct_settings ct = s then ct else restart device now (ct\<lparr>ct_settings := s\<rparr>))"
      by (auto simp: controller_update_def Let_def)
    have "controller_ok toml_parse lb device ct' files'"
      using c f r(2) ok restart_ok [of lb "ct\<lparr>ct_settings := s\<rparr>" files1 toml_parse device now]
      by (auto simp: controller_ok_def)
    moreover have "ct_settings ct' = s" using c by (auto simp: restart_def Let_def)
    ultimately show ?thesis using r by simp
  qed
qed

text \<open>Neither tunnel ever ends without an error.\<close>

lemma task_result_not_Ok: "task_result lb bind tracker events joins task \<noteq> Some (Ok u)"
  using run_client_result [of lb _ joins u] gateway_loop_not_Ok
  by (auto simp: task_result_def run_gateway_def split: tunnel_task.splits sum.splits prod.splits) (metis fst_conv)+

lemma rp_reach_ok:
  assumes parse_print: "\<forall>s contents. toml_print s = Some contents \<longrightarrow> toml_parse contents = Some s"
    and tmp_other: "\<forall>path. with_tmp path \<noteq> path"
    and "rp_reach toml_print toml_parse lb with_tmp device ct files"
  shows "controller_ok toml_parse lb device ct files"
  using assms(3)
proof (induction rule: rp_reach.induct)
  case (created ops random now path files ct files')
  then show ?case using created_ok [OF parse_print tmp_other] by blast
next
  case (updated ct files ops now s r ct' files')
  then show ?case using updated_ok [OF parse_print tmp_other] by blast
next
  case (finished ct files task bind events joins r)
  then show ?case using task_result_not_Ok [of lb]
    by (auto simp: controller_ok_def task_finished_def split: sum.splits)
qed

text \<open>A settings value and a codec for it.\<close>

definition example_settings :: ReverseProxySettings where
  "example_settings = (ReverseProxySettings_default (Some (replicate 32 7)))\<lparr>rp_enabled := True, rp_gateway := ''gw.example:7000''\<rparr>"

lemma example_settings_fields:
  "length (rp_token example_settings) = 64" "\<not> has_control (rp_token example_settings)"
  "endpoint_parts (trim (rp_gateway example_settings)) = Ok (''gw.example'', ''7000'')" "trim ''gw.example'' = ''gw.example''"
  by code_simp+

lemma example_settings_rest:
  "rp_pool_size example_settings = 4" "rp_queue_capacity example_settings = 64" "rp_subscription_url example_settings = []"
  "rp_role example_settings = Client" "rp_enabled example_settings"
  "validate_endpoint (rp_gateway example_settings) = Ok ()"
proof -
  have "parse_uint 16 ''7000'' = Some 7000"
    by (simp add: parse_uint_def dec_val_def code_def is_ascii_digit_def)
  then show "validate_endpoint (rp_gateway example_settings) = Ok ()"
    using example_settings_fields by (simp add: validate_endpoint_def)
qed (simp_all add: example_settings_def ReverseProxySettings_default_def)

lemma example_settings_valid: "rp_validate example_libs example_settings = Ok ()"
  using example_settings_fields example_settings_rest by (simp add: rp_validate_def)

section \<open>What validation lets through\<close>

text \<open>Validation reads the endpoint without the white space around it, but the client connects to the
  endpoint as it is stored.\<close>

lemma untrimmed_gateway_accepted:
  "rp_validate example_libs (example_settings\<lparr>rp_gateway := '' gw.example:7000''\<rparr>) = Ok () \<and>
   tunnel_task_of device (example_settings\<lparr>rp_gateway := '' gw.example:7000''\<rparr>) =
     Run_Client \<lparr>co_gateway = '' gw.example:7000'', co_local = ''127.0.0.1:'' @ show_nat 51400, co_token = as_bytes (rp_token example_settings),
       co_pool_size = 4, co_node_name = device, co_subscription_url = []\<rparr>"
proof -
  have "trim '' gw.example:7000'' = trim (rp_gateway example_settings)" by code_simp
  then have "validate_endpoint '' gw.example:7000'' = validate_endpoint (rp_gateway example_settings)"
    by (simp add: validate_endpoint_def)
  then have "rp_validate example_libs (example_settings\<lparr>rp_gateway := '' gw.example:7000''\<rparr>) = Ok ()"
    using example_settings_fields example_settings_rest by (simp add: rp_validate_def)
  then show ?thesis
    by (simp add: tunnel_task_of_def example_settings_def ReverseProxySettings_default_def)
qed

text \<open>A token that is longer than the keyed hash takes passes validation, and then no handshake succeeds.\<close>

lemma long_token_accepted:
  assumes "\<And>k. mac_new ml k = (length k \<le> 64)"
  shows "\<exists>s. rp_validate example_libs s = Ok () \<and> length (rp_token s) = 65 \<and>
    (\<forall>lb random write stream node.
       fst (gateway_authenticate lb ml random write (as_bytes (rp_token s)) stream) \<noteq> Ok node)"
proof -
  let ?s = "example_settings\<lparr>rp_token := replicate 65 (CHR ''a'')\<rparr>"
  have "\<not> has_control (replicate 65 (CHR ''a''))" by code_simp
  then have "rp_validate example_libs ?s = Ok ()"
    using example_settings_rest by (simp add: rp_validate_def)
  moreover have "fst (gateway_authenticate lb ml random write (as_bytes (rp_token ?s)) stream) \<noteq> Ok node"
    for lb random "write" stream node
  proof -
    have "\<not> mac_new ml (as_bytes (rp_token ?s))" using assms by simp
    then show ?thesis
      by (auto simp: gateway_authenticate_def read_answer_def challenge_mac_def result_simps Let_def
          split: option.splits sum.splits prod.splits if_splits)
  qed
  ultimately show ?thesis by (intro exI [of _ ?s]) simp
qed

section \<open>Properties\<close>

text \<open>Settings that pass validation are settings the tunnel accepts. A gateway started from them can
  fail only in binding its two listeners, and then has an empty queue of the configured capacity;
  a client started from them passes every check of its own, whatever name the device has.\<close>

theorem reverse_proxy_options_accepted:
  assumes "rp_validate lb s = Ok ()" "device = system_device_name hostname_file hostname_var"
  shows "case tunnel_task_of device s of
      Run_Gateway opts \<Rightarrow> (\<forall>bind. (\<forall>l. bind l = Ok ()) \<longrightarrow>
        start_gateway bind opts GatewayTracker_default = Ok (gateway_new GatewayTracker_default (rp_queue_capacity s)))
    | Run_Client opts \<Rightarrow> check_client_options lb opts = Ok ()"
  using rp_validate_fields [OF assms(1)] system_device_name_valid [of hostname_file hostname_var] assms(2)
  by (simp add: tunnel_task_of_def start_gateway_def check_client_options_def split: ReverseProxyRole.split)

theorem reverse_proxy_options_accepted_witness:
  "let device = system_device_name None (Some ''  box '')
   in device = ''box'' \<and> (\<exists>opts. tunnel_task_of device example_settings = Run_Client opts \<and>
        check_client_options example_libs opts = Ok ())"
proof -
  have d: "system_device_name None (Some ''  box '') = ''box''"
  proof -
    have "trim ''  box '' = ''box''" by code_simp
    moreover have "is_ok (validate_node_name ''box'')" by (simp add: validate_node_name_def code_def)
    ultimately show ?thesis by (simp add: system_device_name_def)
  qed
  have "\<exists>opts. tunnel_task_of ''box'' example_settings = Run_Client opts"
    by (simp add: tunnel_task_of_def example_settings_def ReverseProxySettings_default_def)
  then obtain opts where o: "tunnel_task_of ''box'' example_settings = Run_Client opts" by blast
  from reverse_proxy_options_accepted [OF example_settings_valid d [symmetric]] o d show ?thesis
    by (simp add: Let_def)
qed



end
