(* ===== verification/Admin_Auth.thy ===== *)
theory Admin_Auth
  imports Reverse_Proxy
begin

text \<open>
  Authentication and accounts of the management interface (\<^verbatim>\<open>src/src/admin.rs\<close>): the credentials file, session
  tokens and cookies, the check every protected handler makes first, logging in and out, and the
  handlers that change accounts. TOML, JSON, Base64, BLAKE2b, the random source and the clock are
  arguments; an HTTP error is its status and message.
\<close>

section \<open>Credentials\<close>

record AdminCredentials =
  admin_name :: string
  admin_password :: string

datatype AdminCredentialsDocument =
    Multiple "AdminCredentials list"
  | Legacy AdminCredentials

record admin_libs =
  al_toml_parse :: "string \<Rightarrow> AdminCredentialsDocument option"
  al_toml_print :: "AdminCredentials list \<Rightarrow> string option"
  al_b64url_encode :: "bytes \<Rightarrow> string"
  al_b64url_decode :: "string \<Rightarrow> bytes option"
  al_b64_decode :: "string \<Rightarrow> bytes option"
  al_claims_print :: "string \<times> u64 \<Rightarrow> bytes option"
  al_claims_parse :: "bytes \<Rightarrow> (string \<times> u64) option"
  al_digest :: "bytes \<Rightarrow> bytes"
  al_mac :: mac_lib
  al_with_tmp :: "path \<Rightarrow> path"

definition ensure_admin_user :: "AdminCredentials \<Rightarrow> unit result" where
  "ensure_admin_user u =
     (if trim (admin_name u) = [] \<or> length (admin_name u) > 64 \<or> str_contains '':'' (admin_name u) \<or> has_control (admin_name u)
      then Err ''admin username must be 1-64 characters without colons or control characters''
      else if admin_password u = [] \<or> length (admin_password u) > 256
      then Err ''admin password must be 1-256 characters''
      else Ok ())"

fun check_duplicates :: "AdminCredentials list \<Rightarrow> AdminCredentials list \<Rightarrow> unit result" where
  "check_duplicates seen [] = Ok ()"
| "check_duplicates seen (u # us) =
     (if list_ex (\<lambda>existing. admin_name existing = admin_name u) seen
      then Err (''duplicate admin username '' @ admin_name u)
      else check_duplicates (seen @ [u]) us)"

definition ensure_credentials :: "AdminCredentials list \<Rightarrow> unit result" where
  "ensure_credentials us =
     (if us = [] then Err ''at least one admin user is required''
      else and_then (collect_results (map ensure_admin_user us)) (\<lambda>_. check_duplicates [] us))"

definition parse_credentials :: "admin_libs \<Rightarrow> string \<Rightarrow> AdminCredentials list result" where
  "parse_credentials al contents =
     and_then (ok_or (al_toml_parse al contents) ''TOML parse error'') (\<lambda>document.
     let us = (case document of Multiple us \<Rightarrow> us | Legacy u \<Rightarrow> [u]) in
     and_then (ensure_credentials us) (\<lambda>_. Ok us))"

text \<open>The kind of a read error decides whether the file is created.\<close>

datatype cred_error = Cred_Missing | Cred_Error string

definition load_credentials :: "admin_libs \<Rightarrow> rp_ops \<Rightarrow> path \<Rightarrow> fs \<Rightarrow> cred_error + AdminCredentials list" where
  "load_credentials al ops path files =
     (if \<not> can_read ops path then Err (Cred_Error (''read admin credentials '' @ path))
      else (case files path of
        None \<Rightarrow> Err Cred_Missing
      | Some f \<Rightarrow> map_err (\<lambda>_. Cred_Error (''parse admin credentials '' @ path)) (parse_credentials al (file_contents f))))"

definition show_cred_error :: "path \<Rightarrow> cred_error \<Rightarrow> string" where
  "show_cred_error path e = (case e of Cred_Missing \<Rightarrow> ''read admin credentials '' @ path | Cred_Error m \<Rightarrow> m)"

definition write_credentials ::
  "admin_libs \<Rightarrow> rp_ops \<Rightarrow> path \<Rightarrow> AdminCredentials list \<Rightarrow> fs \<Rightarrow> unit result \<times> fs" where
  "write_credentials al ops path us files =
     (case and_then (ensure_credentials us) (\<lambda>_.
           and_then (create_parent ''admin credential directory '' ops path) (\<lambda>_.
           ok_or (al_toml_print al us) ''serialize admin credentials'')) of
        Err e \<Rightarrow> (Err e, files)
      | Ok contents \<Rightarrow> write_private ''admin credentials '' (al_with_tmp al) ops path contents files)"

definition generated_credentials :: "bytes option \<Rightarrow> string \<Rightarrow> AdminCredentials result" where
  "generated_credentials random name =
     (let name = trim name in
      if name = [] then Err ''admin username must not be empty''
      else and_then (ok_or random ''generate admin password'') (\<lambda>bs.
           Ok \<lparr>admin_name = name, admin_password = hex_string bs\<rparr>))"

definition load_or_create_credentials ::
  "admin_libs \<Rightarrow> rp_ops \<Rightarrow> bytes option \<Rightarrow> path \<Rightarrow> string \<Rightarrow> fs \<Rightarrow> (AdminCredentials \<times> bool) result \<times> fs" where
  "load_or_create_credentials al ops random path name files =
     (case load_credentials al ops path files of
        Ok us \<Rightarrow> (Ok (hd us, False), files)
      | Err Cred_Missing \<Rightarrow>
          (case generated_credentials random name of
             Err e \<Rightarrow> (Err e, files)
           | Ok c \<Rightarrow> (case write_credentials al ops path [c] files of
                       (Err e, files) \<Rightarrow> (Err e, files)
                     | (Ok _, files) \<Rightarrow> (Ok (c, True), files)))
      | Err e \<Rightarrow> (Err (show_cred_error path e), files))"

text \<open>The first account of that name gets the new password; a new name is appended.\<close>

fun set_password :: "string \<Rightarrow> string \<Rightarrow> AdminCredentials list \<Rightarrow> AdminCredentials list" where
  "set_password name pass [] = []"
| "set_password name pass (u # us) =
     (if admin_name u = name then u\<lparr>admin_password := pass\<rparr> # us else u # set_password name pass us)"

definition reset_credentials ::
  "admin_libs \<Rightarrow> rp_ops \<Rightarrow> bytes option \<Rightarrow> path \<Rightarrow> string \<Rightarrow> fs \<Rightarrow> AdminCredentials result \<times> fs" where
  "reset_credentials al ops random path name files =
     (case generated_credentials random name of
        Err e \<Rightarrow> (Err e, files)
      | Ok c \<Rightarrow>
          (case (case load_credentials al ops path files of
                   Ok us \<Rightarrow> Ok us | Err Cred_Missing \<Rightarrow> Ok [] | Err e \<Rightarrow> Err (show_cred_error path e)) of
             Err e \<Rightarrow> (Err e, files)
           | Ok us \<Rightarrow>
               let us = (if list_ex (\<lambda>u. admin_name u = admin_name c) us
                         then set_password (admin_name c) (admin_password c) us else us @ [c])
               in (case write_credentials al ops path us files of
                     (Err e, files) \<Rightarrow> (Err e, files)
                   | (Ok _, files) \<Rightarrow> (Ok c, files))))"

section \<open>Sessions\<close>

abbreviation ADMIN_SESSION_COOKIE :: string where "ADMIN_SESSION_COOKIE \<equiv> ''sing_box_ser_mini_session''"
abbreviation ADMIN_SESSION_TTL_SECS :: u64 where "ADMIN_SESSION_TTL_SECS \<equiv> 86400"

definition session_signature :: "admin_libs \<Rightarrow> string \<Rightarrow> bytes \<Rightarrow> bytes result" where
  "session_signature al pass claims =
     (let key = al_digest al (as_bytes pass) in
      and_then (ensure (mac_new (al_mac al) key) ''initialize admin session signer'') (\<lambda>_.
      Ok (mac_digest (al_mac al) key claims)))"

definition issue_session_token :: "admin_libs \<Rightarrow> AdminCredentials \<Rightarrow> u64 \<Rightarrow> string result" where
  "issue_session_token al u expires_at =
     and_then (ok_or (al_claims_print al (admin_name u, expires_at)) ''serialize admin session'') (\<lambda>claims.
     and_then (session_signature al (admin_password u) claims) (\<lambda>signature.
     Ok (al_b64url_encode al claims @ ''.'' @ al_b64url_encode al signature)))"

definition validate_session_token :: "admin_libs \<Rightarrow> string \<Rightarrow> AdminCredentials list \<Rightarrow> u64 \<Rightarrow> string option" where
  "validate_session_token al token us now =
     Option.bind (split_once ''.'' token) (\<lambda>(claims, signature).
     Option.bind (al_b64url_decode al claims) (\<lambda>claims.
     Option.bind (al_b64url_decode al signature) (\<lambda>signature.
     Option.bind (al_claims_parse al claims) (\<lambda>(name, expires_at).
     if expires_at \<le> now then None
     else
       Option.bind (find (\<lambda>u. admin_name u = name) us) (\<lambda>u.
       case session_signature al (admin_password u) claims of
         Err _ \<Rightarrow> None
       | Ok expected \<Rightarrow> if signature = expected then Some name else None)))))"

text \<open>Header values: \<^verbatim>\<open>to_str\<close> accepts visible ASCII.\<close>

type_synonym headers = "(string \<times> string) list"

definition header_to_str :: "string \<Rightarrow> string option" where
  "header_to_str v = (if list_all (\<lambda>c. code c = 9 \<or> 32 \<le> code c \<and> code c < 127) v then Some v else None)"

definition header_str :: "string \<Rightarrow> headers \<Rightarrow> string" where
  "header_str name hs =
     (case Option.bind (map_of hs name) header_to_str of None \<Rightarrow> [] | Some v \<Rightarrow> v)"

definition session_cookie :: "headers \<Rightarrow> string option" where
  "session_cookie hs =
     (let values = List.map_filter (\<lambda>(name, v). if name = ''cookie'' then header_to_str v else None) hs;
          parts = concat (map (split_on (\<lambda>c. c = CHR '';'')) values)
      in map_of (List.map_filter (\<lambda>part. split_once ''='' (trim part)) parts) ADMIN_SESSION_COOKIE)"

definition decode_basic_credentials :: "admin_libs \<Rightarrow> string \<Rightarrow> (bytes \<times> bytes) option" where
  "decode_basic_credentials al authorization =
     Option.bind (strip_prefix ''Basic '' authorization) (\<lambda>encoded.
     Option.bind (al_b64_decode al encoded) (\<lambda>decoded.
     if byte_of_char (CHR '':'') \<in> set decoded
     then Some (takeWhile (\<lambda>b. b \<noteq> byte_of_char (CHR '':'')) decoded,
                drop 1 (dropWhile (\<lambda>b. b \<noteq> byte_of_char (CHR '':'')) decoded))
     else None))"

section \<open>Handlers\<close>

type_synonym 'a api = "(nat \<times> string) + 'a"

record admin_state =
  as_token :: "bytes option"
  as_credentials_path :: path

definition internal :: "string \<Rightarrow> nat \<times> string" where
  "internal m = (500, m)"

definition bad_request :: "string \<Rightarrow> nat \<times> string" where
  "bad_request m = (400, m)"

definition bearer_ok :: "admin_state \<Rightarrow> headers \<Rightarrow> bool" where
  "bearer_ok st hs =
     (case (as_token st, strip_prefix ''Bearer '' (header_str ''authorization'' hs)) of
        (Some expected, Some provided) \<Rightarrow> as_bytes provided = expected
      | _ \<Rightarrow> False)"

definition authorize ::
  "admin_libs \<Rightarrow> rp_ops \<Rightarrow> admin_state \<Rightarrow> u64 \<Rightarrow> fs \<Rightarrow> headers \<Rightarrow> unit api" where
  "authorize al ops st now files hs =
     (if bearer_ok st hs then Ok ()
      else
        and_then (if can_read ops (as_credentials_path st)
                  then ok_or (files (as_credentials_path st)) (internal ''read admin credentials'')
                  else Err (internal ''read admin credentials'')) (\<lambda>f.
        and_then (map_err internal (parse_credentials al (file_contents f))) (\<lambda>us.
        if (case session_cookie hs of None \<Rightarrow> False | Some token \<Rightarrow> validate_session_token al token us now \<noteq> None) then Ok ()
        else (case decode_basic_credentials al (header_str ''authorization'' hs) of
                Some (name, pass) \<Rightarrow>
                  if list_ex (\<lambda>u. name = as_bytes (admin_name u) \<and> pass = as_bytes (admin_password u)) us then Ok ()
                  else Err (401, ''invalid username or password'')
              | None \<Rightarrow> Err (401, ''invalid username or password'')))))"

definition set_cookie :: "string \<Rightarrow> string" where
  "set_cookie token = ADMIN_SESSION_COOKIE @ ''='' @ token @ ''; Max-Age=86400; Path=/; HttpOnly; SameSite=Strict''"

definition login ::
  "admin_libs \<Rightarrow> rp_ops \<Rightarrow> admin_state \<Rightarrow> u64 \<Rightarrow> fs \<Rightarrow> string \<Rightarrow> string \<Rightarrow> (headers \<times> string \<times> u64) api" where
  "login al ops st now files name pass =
     and_then (map_err (\<lambda>e. internal (show_cred_error (as_credentials_path st) e))
        (load_credentials al ops (as_credentials_path st) files)) (\<lambda>us.
     case find (\<lambda>u. name = admin_name u \<and> pass = admin_password u) us of
       None \<Rightarrow> Err (401, ''invalid username or password'')
     | Some u \<Rightarrow>
         let expires_at = saturating_add now ADMIN_SESSION_TTL_SECS in
         and_then (map_err internal (issue_session_token al u expires_at)) (\<lambda>token.
         let cookie = set_cookie token in
         and_then (ensure (header_to_str cookie \<noteq> None) (internal ''failed to parse header value'')) (\<lambda>_.
         Ok ([(''set-cookie'', cookie)], admin_name u, expires_at))))"

definition logout :: headers where
  "logout = [(''set-cookie'', ADMIN_SESSION_COOKIE @ ''=; Max-Age=0; Path=/; HttpOnly; SameSite=Strict'')]"

text \<open>The handlers of accounts hold one lock from loading to writing, so each is one step.\<close>

definition list_admin_users ::
  "admin_libs \<Rightarrow> rp_ops \<Rightarrow> admin_state \<Rightarrow> u64 \<Rightarrow> headers \<Rightarrow> fs \<Rightarrow> string list api" where
  "list_admin_users al ops st now hs files =
     and_then (authorize al ops st now files hs) (\<lambda>_.
     and_then (map_err (\<lambda>e. internal (show_cred_error (as_credentials_path st) e))
        (load_credentials al ops (as_credentials_path st) files)) (\<lambda>us.
     Ok (map admin_name us)))"

definition edit_accounts ::
  "admin_libs \<Rightarrow> rp_ops \<Rightarrow> admin_state \<Rightarrow> fs \<Rightarrow> (AdminCredentials list \<Rightarrow> AdminCredentials list api) \<Rightarrow> unit api \<times> fs" where
  "edit_accounts al ops st files edit =
     (case and_then (map_err (\<lambda>e. internal (show_cred_error (as_credentials_path st) e))
              (load_credentials al ops (as_credentials_path st) files)) edit of
        Err e \<Rightarrow> (Err e, files)
      | Ok us \<Rightarrow> (case write_credentials al ops (as_credentials_path st) us files of
                   (Err e, files) \<Rightarrow> (Err (internal e), files)
                 | (Ok _, files) \<Rightarrow> (Ok (), files)))"

definition add_admin_user ::
  "admin_libs \<Rightarrow> rp_ops \<Rightarrow> admin_state \<Rightarrow> u64 \<Rightarrow> headers \<Rightarrow> string \<Rightarrow> string \<Rightarrow> fs \<Rightarrow> unit api \<times> fs" where
  "add_admin_user al ops st now hs name pass files =
     (let u = \<lparr>admin_name = trim name, admin_password = pass\<rparr> in
      case and_then (authorize al ops st now files hs) (\<lambda>_. map_err bad_request (ensure_admin_user u)) of
        Err e \<Rightarrow> (Err e, files)
      | Ok _ \<Rightarrow>
          edit_accounts al ops st files (\<lambda>us.
            if list_ex (\<lambda>existing. admin_name existing = admin_name u) us then Err (409, ''admin username already exists'')
            else Ok (us @ [u])))"

definition change_admin_password ::
  "admin_libs \<Rightarrow> rp_ops \<Rightarrow> admin_state \<Rightarrow> u64 \<Rightarrow> headers \<Rightarrow> string \<Rightarrow> string \<Rightarrow> fs \<Rightarrow> unit api \<times> fs" where
  "change_admin_password al ops st now hs name pass files =
     (case authorize al ops st now files hs of
        Err e \<Rightarrow> (Err e, files)
      | Ok _ \<Rightarrow>
          edit_accounts al ops st files (\<lambda>us.
            case find (\<lambda>u. admin_name u = name) us of
              None \<Rightarrow> Err (404, ''admin user not found'')
            | Some u \<Rightarrow>
                and_then (map_err bad_request (ensure_admin_user (u\<lparr>admin_password := pass\<rparr>))) (\<lambda>_.
                Ok (set_password name pass us))))"

definition delete_admin_user ::
  "admin_libs \<Rightarrow> rp_ops \<Rightarrow> admin_state \<Rightarrow> u64 \<Rightarrow> headers \<Rightarrow> string \<Rightarrow> fs \<Rightarrow> unit api \<times> fs" where
  "delete_admin_user al ops st now hs name files =
     (case authorize al ops st now files hs of
        Err e \<Rightarrow> (Err e, files)
      | Ok _ \<Rightarrow>
          edit_accounts al ops st files (\<lambda>us.
            if length us \<le> 1 then Err (bad_request ''the last admin user cannot be deleted'')
            else
              let kept = filter (\<lambda>u. admin_name u \<noteq> name) us in
              if length kept = length us then Err (404, ''admin user not found'') else Ok kept))"

section \<open>Lemmas\<close>

subsection \<open>The credentials file\<close>

lemma check_duplicates_Ok:
  "check_duplicates seen us = Ok () \<longleftrightarrow>
   distinct (map admin_name us) \<and> set (map admin_name us) \<inter> set (map admin_name seen) = {}"
proof (induction us arbitrary: seen)
  case (Cons u us)
  then show ?case by (auto simp: list_ex_iff image_iff) metis+
qed simp

lemma collect_units_Ok: "collect_results (map f xs) = Ok us \<Longrightarrow> \<forall>x \<in> set xs. is_ok (f x)"
  by (induction xs arbitrary: us) (auto simp: result_simps)

lemma ensure_credentials_Ok:
  "ensure_credentials us = Ok () \<longleftrightarrow>
   us \<noteq> [] \<and> (\<forall>u \<in> set us. ensure_admin_user u = Ok ()) \<and> distinct (map admin_name us)"
proof
  assume l: "ensure_credentials us = Ok ()"
  then obtain xs where "collect_results (map ensure_admin_user us) = Ok xs" "check_duplicates [] us = Ok ()" "us \<noteq> []"
    by (auto simp: ensure_credentials_def result_simps split: if_splits)
  with collect_units_Ok [OF this(1)]
  show "us \<noteq> [] \<and> (\<forall>u \<in> set us. ensure_admin_user u = Ok ()) \<and> distinct (map admin_name us)"
    by (auto simp: is_ok_iff check_duplicates_Ok)
next
  assume r: "us \<noteq> [] \<and> (\<forall>u \<in> set us. ensure_admin_user u = Ok ()) \<and> distinct (map admin_name us)"
  then have "collect_results (map ensure_admin_user us) = Ok (map projr (map ensure_admin_user us))"
    by (intro collect_results_all_Ok) auto
  with r show "ensure_credentials us = Ok ()"
    by (simp add: ensure_credentials_def check_duplicates_Ok)
qed

text \<open>The accounts of a state of the file system, and the law of the TOML library the file relies on.\<close>

definition accounts :: "admin_libs \<Rightarrow> path \<Rightarrow> fs \<Rightarrow> AdminCredentials list option" where
  "accounts al path files =
     (case files path of None \<Rightarrow> None
      | Some f \<Rightarrow> (case parse_credentials al (file_contents f) of Ok us \<Rightarrow> Some us | Err _ \<Rightarrow> None))"

definition codec_ok :: "admin_libs \<Rightarrow> bool" where
  "codec_ok al =
     ((\<forall>us contents. al_toml_print al us = Some contents \<longrightarrow> al_toml_parse al contents = Some (Multiple us)) \<and>
      (\<forall>path. al_with_tmp al path \<noteq> path))"

lemma parse_credentials_Ok: "parse_credentials al contents = Ok us \<Longrightarrow> ensure_credentials us = Ok ()"
  by (auto simp: parse_credentials_def result_simps Let_def)

lemma accounts_Some: "accounts al path files = Some us \<Longrightarrow> us \<noteq> [] \<and> distinct (map admin_name us)"
  by (auto simp: accounts_def ensure_credentials_Ok dest!: parse_credentials_Ok split: option.splits sum.splits)

lemma load_credentials_Ok: "load_credentials al ops path files = Ok us \<Longrightarrow> accounts al path files = Some us"
  by (auto simp: load_credentials_def accounts_def result_simps split: if_splits option.splits)

lemma write_credentials_Ok:
  assumes "write_credentials al ops path us files = (Ok (), files')" "codec_ok al"
  shows "accounts al path files' = Some us"
proof -
  obtain contents where c: "ensure_credentials us = Ok ()" "al_toml_print al us = Some contents"
    "write_private ''admin credentials '' (al_with_tmp al) ops path contents files = (Ok (), files')"
    using assms(1) by (auto simp: write_credentials_def result_simps split: sum.splits)
  have t: "al_with_tmp al path \<noteq> path" using assms(2) by (simp add: codec_ok_def)
  from write_private_Ok [OF c(3) t] c assms(2) show ?thesis
    by (auto simp: accounts_def parse_credentials_def codec_ok_def)
qed

lemma write_credentials_Err:
  assumes "write_credentials al ops path us files = (Err e, files')" "codec_ok al"
  shows "accounts al path files' = accounts al path files"
proof -
  have "al_with_tmp al path \<noteq> path" using assms(2) by (simp add: codec_ok_def)
  then have "files' path = files path"
    using assms(1) by (auto simp: write_credentials_def split: sum.splits dest: write_private_Err)
  then show ?thesis by (simp add: accounts_def)
qed

text \<open>An edit that succeeds replaces the accounts by its result; one that fails leaves them.\<close>

lemma edit_accounts_spec:
  assumes "edit_accounts al ops st files edit = (r, files')" "codec_ok al"
  shows "if is_ok r then \<exists>us us'. accounts al (as_credentials_path st) files = Some us \<and> edit us = Ok us' \<and>
      accounts al (as_credentials_path st) files' = Some us'
    else accounts al (as_credentials_path st) files' = accounts al (as_credentials_path st) files"
proof (cases "and_then (map_err (\<lambda>e. internal (show_cred_error (as_credentials_path st) e))
      (load_credentials al ops (as_credentials_path st) files)) edit")
  case (Inl e)
  with assms(1) show ?thesis by (auto simp: edit_accounts_def)
next
  case (Inr us')
  then obtain us where us: "accounts al (as_credentials_path st) files = Some us" "edit us = Ok us'"
    by (auto simp: result_simps dest: load_credentials_Ok)
  obtain w where w: "write_credentials al ops (as_credentials_path st) us' files = (w, files')"
    "is_ok r \<longleftrightarrow> is_ok w"
    using assms(1) Inr by (auto simp: edit_accounts_def split: prod.splits sum.splits)
  show ?thesis
  proof (cases w)
    case (Inl e)
    with w write_credentials_Err [OF _ assms(2)] show ?thesis by simp
  next
    case (Inr u)
    with w write_credentials_Ok [OF _ assms(2)] us show ?thesis by simp
  qed
qed

lemma set_password_eq:
  assumes "distinct (map admin_name us)"
  shows "set_password name pass us = map (\<lambda>u. if admin_name u = name then u\<lparr>admin_password := pass\<rparr> else u) us"
  using assms
proof (induction us)
  case (Cons u us)
  show ?case
  proof (cases "admin_name u = name")
    case True
    then have "name \<notin> admin_name ` set us" using Cons.prems by simp
    then have "\<forall>v \<in> set us. admin_name v \<noteq> name" by blast
    then have "map (\<lambda>u. if admin_name u = name then u\<lparr>admin_password := pass\<rparr> else u) us = us" by (simp add: map_idI)
    with True show ?thesis by simp
  qed (use Cons in simp)
qed simp

subsection \<open>Runs of the management interface\<close>

text \<open>The file over the life of an installation: created or found at the start, then changed by handlers
  and by resets in any order, authorized or not, with file operations that may fail.\<close>

inductive accounts_reach :: "admin_libs \<Rightarrow> admin_state \<Rightarrow> fs \<Rightarrow> bool" for al st where
  created: "load_or_create_credentials al ops random (as_credentials_path st) name files = (Ok c, files') \<Longrightarrow>
     accounts_reach al st files'"
| added: "accounts_reach al st files \<Longrightarrow> add_admin_user al ops st now hs name pass files = (r, files') \<Longrightarrow>
     accounts_reach al st files'"
| changed: "accounts_reach al st files \<Longrightarrow> change_admin_password al ops st now hs name pass files = (r, files') \<Longrightarrow>
     accounts_reach al st files'"
| deleted: "accounts_reach al st files \<Longrightarrow> delete_admin_user al ops st now hs name files = (r, files') \<Longrightarrow>
     accounts_reach al st files'"
| was_reset: "accounts_reach al st files \<Longrightarrow> reset_credentials al ops random (as_credentials_path st) name files = (r', files') \<Longrightarrow>
     accounts_reach al st files'"

lemma edit_keeps:
  assumes "edit_accounts al ops st files edit = (r, files')" "codec_ok al"
    and "accounts al (as_credentials_path st) files \<noteq> None"
  shows "accounts al (as_credentials_path st) files' \<noteq> None"
  using edit_accounts_spec [OF assms(1,2)] assms(3) by (auto split: if_splits)

lemma accounts_reach_Some:
  assumes "accounts_reach al st files" "codec_ok al"
  shows "accounts al (as_credentials_path st) files \<noteq> None"
  using assms(1)
proof (induction rule: accounts_reach.induct)
  case (created ops random name files c files')
  then show ?case
    by (auto simp: load_or_create_credentials_def split: sum.splits cred_error.splits prod.splits
        dest!: load_credentials_Ok write_credentials_Ok [OF _ assms(2), unfolded unit_eq])
next
  case (added files ops now hs name pass r files')
  then show ?case by (auto simp: add_admin_user_def Let_def split: sum.splits dest!: edit_keeps [OF _ assms(2)])
next
  case (changed files ops now hs name pass r files')
  then show ?case by (auto simp: change_admin_password_def split: sum.splits dest!: edit_keeps [OF _ assms(2)])
next
  case (deleted files ops now hs name r files')
  then show ?case by (auto simp: delete_admin_user_def split: sum.splits dest!: edit_keeps [OF _ assms(2)])
next
  case (was_reset files ops random name r' files')
  then show ?case
    by (auto simp: reset_credentials_def Let_def split: sum.splits cred_error.splits prod.splits if_splits
        dest!: write_credentials_Ok [OF _ assms(2), unfolded unit_eq] write_credentials_Err [OF _ assms(2)])
qed

subsection \<open>Sessions\<close>

lemma find_key: "distinct (map f xs) \<Longrightarrow> x \<in> set xs \<Longrightarrow> find (\<lambda>v. f v = f x) xs = Some x"
  by (induction xs) (auto simp: image_iff)

lemma split_once_char: "c \<notin> set a \<Longrightarrow> split_once [c] (a @ c # b) = Some (a, b)"
  by (induction a) (auto simp: starts_with_def)

definition token_char :: "char \<Rightarrow> bool" where
  "token_char c = (is_ascii_alphanumeric c \<or> c = CHR ''-'' \<or> c = CHR ''_'')"

lemma token_char_codes:
  "token_char c \<Longrightarrow> is_ascii_graphic c" "\<not> token_char (CHR ''.'')" "\<not> token_char (CHR '';'')" "\<not> token_char (CHR ''='')"
  by (auto simp: token_char_def is_ascii_alphanumeric_def is_ascii_digit_def is_ascii_graphic_def code_def)

text \<open>The laws of the encodings a session relies on.\<close>

definition session_codec_ok :: "admin_libs \<Rightarrow> bool" where
  "session_codec_ok al =
     ((\<forall>bs. al_b64url_decode al (al_b64url_encode al bs) = Some bs \<and> list_all token_char (al_b64url_encode al bs)) \<and>
      (\<forall>c bs. al_claims_print al c = Some bs \<longrightarrow> al_claims_parse al bs = Some c))"

lemma issued_token:
  assumes "issue_session_token al u expires_at = Ok token" "session_codec_ok al"
  shows "\<exists>claims signature. session_signature al (admin_password u) claims = Ok signature \<and>
    (\<forall>us now. validate_session_token al token us now =
       (if expires_at \<le> now then None
        else Option.bind (find (\<lambda>v. admin_name v = admin_name u) us) (\<lambda>v.
          if session_signature al (admin_password v) claims = Ok signature then Some (admin_name u) else None))) \<and>
    list_all (\<lambda>c. token_char c \<or> c = CHR ''.'') token"
proof -
  obtain claims signature where c: "al_claims_print al (admin_name u, expires_at) = Some claims"
    "session_signature al (admin_password u) claims = Ok signature"
    "token = al_b64url_encode al claims @ ''.'' @ al_b64url_encode al signature"
    using assms(1) by (auto simp: issue_session_token_def result_simps)
  have b: "al_b64url_decode al (al_b64url_encode al bs) = Some bs" "list_all token_char (al_b64url_encode al bs)" for bs
    using assms(2) by (auto simp: session_codec_ok_def)
  then have "CHR ''.'' \<notin> set (al_b64url_encode al claims)" using token_char_codes(2) by (auto simp: list_all_iff)
  then have "split_once ''.'' token = Some (al_b64url_encode al claims, al_b64url_encode al signature)"
    using split_once_char c(3) by simp
  moreover have "al_claims_parse al claims = Some (admin_name u, expires_at)"
    using assms(2) c(1) by (simp add: session_codec_ok_def)
  ultimately have "validate_session_token al token us now =
       (if expires_at \<le> now then None
        else Option.bind (find (\<lambda>v. admin_name v = admin_name u) us) (\<lambda>v.
          if session_signature al (admin_password v) claims = Ok signature then Some (admin_name u) else None))" for us now
    by (auto simp: validate_session_token_def b(1) intro!: Option.bind_cong split: sum.split)
  moreover have "list_all (\<lambda>c. token_char c \<or> c = CHR ''.'') token"
    using b(2) by (auto simp: c(3) list_all_iff)
  ultimately show ?thesis using c(2) by blast
qed

lemma cookie_found:
  assumes "list_all (\<lambda>c. token_char c \<or> c = CHR ''.'') token"
  shows "session_cookie [(''cookie'', ADMIN_SESSION_COOKIE @ ''='' @ token)] = Some token"
proof -
  let ?v = "ADMIN_SESSION_COOKIE @ ''='' @ token"
  have "list_all is_ascii_graphic (ADMIN_SESSION_COOKIE @ ''='')" by code_simp
  moreover have "is_ascii_graphic (CHR ''.'')" by code_simp
  ultimately have g: "list_all is_ascii_graphic ?v"
    using assms token_char_codes(1) by (auto simp: list_all_iff)
  then have t: "trim ?v = ?v" by (rule graphic_no_white_space)
  have h: "header_to_str ?v = Some ?v" using g by (auto simp: header_to_str_def list_all_iff is_ascii_graphic_def)
  have "CHR '';'' \<notin> set token" using assms token_char_codes(3) by (auto simp: list_all_iff)
  then have "split_on (\<lambda>c. c = CHR '';'') ?v = [?v]" by (intro split_on_none) auto
  moreover have "split_once ''='' ?v = Some (ADMIN_SESSION_COOKIE, token)"
    using split_once_char [of "CHR ''=''" ADMIN_SESSION_COOKIE token] by simp
  ultimately show ?thesis
    using h t by (simp add: session_cookie_def List.map_filter_def)
qed

section \<open>Properties\<close>

subsection \<open>Libraries for the witnesses\<close>

definition hex_value :: "char \<Rightarrow> nat" where
  "hex_value c = (if is_ascii_digit c then code c - 48 else code c - 87)"

fun unhex :: "string \<Rightarrow> bytes" where
  "unhex (a # b # s) = word_of_nat (16 * hex_value a + hex_value b) # unhex s"
| "unhex _ = []"

lemma hex_value_digit: "d < 16 \<Longrightarrow> hex_value (hex_digit d) = d"
  by (auto simp: hex_value_def hex_digit_def is_ascii_digit_def code_def)

lemma unhex_hex_string: "unhex (hex_string bs) = bs"
proof (induction bs)
  case (Cons b bs)
  have "unat b < 256" by (rule unat_u8_less)
  then have "unat b div 16 < 16" by (simp add: less_mult_imp_div_less)
  then have "16 * hex_value (hex_digit (unat b div 16)) + hex_value (hex_digit (unat b mod 16)) = unat b"
    by (simp add: hex_value_digit)
  with Cons show ?case by (simp add: hex_string_def hex02_def)
qed (simp add: hex_string_def)

definition example_admin :: AdminCredentials where
  "example_admin = \<lparr>admin_name = ''admin'', admin_password = ''secret''\<rparr>"

definition example_admin_libs :: admin_libs where
  "example_admin_libs =
     \<lparr>al_toml_parse = (\<lambda>s. if s = ''x'' then Some (Multiple [example_admin]) else None),
      al_toml_print = (\<lambda>us. if us = [example_admin] then Some ''x'' else None),
      al_b64url_encode = hex_string, al_b64url_decode = (\<lambda>s. Some (unhex s)), al_b64_decode = (\<lambda>_. None),
      al_claims_print = (\<lambda>(name, t). Some (be_bytes 8 t @ as_bytes name)),
      al_claims_parse = (\<lambda>bs. Some (str_of_bytes (drop 8 bs), from_be_bytes (take 8 bs))),
      al_digest = take 64, al_mac = example_mac, al_with_tmp = (\<lambda>p. p @ ''.tmp'')\<rparr>"

definition example_ops :: rp_ops where
  "example_ops = \<lparr>can_create_dir = True, can_open = (\<lambda>_. True), can_write = True, can_replace = True, can_read = (\<lambda>_. True)\<rparr>"

definition example_files :: fs where
  "example_files = [''a.toml'' \<mapsto> \<lparr>file_contents = ''x'', file_mode = 384\<rparr>]"

definition example_admin_state :: admin_state where
  "example_admin_state = \<lparr>as_token = None, as_credentials_path = ''a.toml''\<rparr>"

lemma example_codec: "codec_ok example_admin_libs"
  by (auto simp: codec_ok_def example_admin_libs_def split: if_splits)

lemma example_session_codec: "session_codec_ok example_admin_libs"
proof -
  have "list_all token_char (hex_string bs)" for bs
    using hex_string_alnum [of bs] by (auto simp: list_all_iff token_char_def)
  moreover have "from_be_bytes (be_bytes 8 t) = t" for t :: u64 using from_be_bytes_be_bytes [of 8 t] by simp
  ultimately show ?thesis by (auto simp: session_codec_ok_def example_admin_libs_def unhex_hex_string)
qed

lemma example_load: "load_credentials example_admin_libs example_ops ''a.toml'' example_files = Ok [example_admin]"
proof -
  have "ensure_admin_user example_admin = Ok ()"
  proof -
    have "trim ''admin'' = ''admin''" "\<not> str_contains '':'' ''admin''" "\<not> has_control ''admin''" by code_simp+
    then show ?thesis by (simp add: ensure_admin_user_def example_admin_def)
  qed
  then have "ensure_credentials [example_admin] = Ok ()" by (simp add: ensure_credentials_Ok)
  then show ?thesis
    by (simp add: load_credentials_def example_ops_def example_files_def parse_credentials_def example_admin_libs_def)
qed

lemma set_cookie_visible:
  assumes "list_all (\<lambda>c. token_char c \<or> c = CHR ''.'') token"
  shows "header_to_str (set_cookie token) \<noteq> None"
proof -
  have "list_all (\<lambda>c. 32 \<le> code c \<and> code c < 127)
      (ADMIN_SESSION_COOKIE @ ''='' @ ''; Max-Age=86400; Path=/; HttpOnly; SameSite=Strict'')" by code_simp
  moreover have "32 \<le> code c \<and> code c < 127" if "c \<in> set token" for c
  proof (cases "c = CHR ''.''")
    case False
    with that assms have "is_ascii_graphic c" using token_char_codes(1) by (auto simp: list_all_iff)
    then show ?thesis by (simp add: is_ascii_graphic_def)
  qed (simp add: code_def)
  ultimately show ?thesis by (auto simp: header_to_str_def set_cookie_def list_all_iff)
qed

subsection \<open>Statements\<close>






end
