(* ===== verification/Sublink_Store.thy ===== *)
theory Sublink_Store
  imports Sublink_Rules
begin

text \<open>
  The short-link store of \<^verbatim>\<open>src/src/sublink.rs\<close>: temporary links in memory, and permanent and expiring
  links that are also written to a file. An \<^verbatim>\<open>Instant\<close> is a number of nanoseconds, \<^verbatim>\<open>unix_time\<close> a \<open>u64\<close>
  of seconds, both arguments of the operations that read a clock; the TOML codec is the arguments
  \<open>print\<close> and \<open>parse\<close>, the file system a map from paths to contents, and the outcome of writing a file
  an argument.
\<close>

record ShortEntry =
  se_code :: string
  se_query :: string
  se_expires_at :: nat

record PersistentShortLink =
  pl_code :: string
  pl_query :: string
  pl_expires_at_unix :: "u64 option"

record ShortStore =
  entries :: "ShortEntry list"
  permanent :: "PersistentShortLink list"
  persistence_path :: "string option"
  limit :: nat
  ttl :: u64
  disabled :: bool

type_synonym files = "string \<rightharpoonup> string"
type_synonym links_print = "PersistentShortLink list \<Rightarrow> string option"
type_synonym links_parse = "string \<Rightarrow> PersistentShortLink list option"

abbreviation DEFAULT_SHORT_LINKS :: nat where "DEFAULT_SHORT_LINKS \<equiv> 512"
abbreviation DEFAULT_SHORT_TTL :: nat where "DEFAULT_SHORT_TTL \<equiv> 86400"

section \<open>Opening the store\<close>

definition positive_env :: "(string \<rightharpoonup> string) \<Rightarrow> string \<Rightarrow> nat \<Rightarrow> nat" where
  "positive_env env name fallback =
     (case Option.bind (env name) (parse_uint 64) of
        Some n \<Rightarrow> if n > 0 then n else fallback
      | None \<Rightarrow> fallback)"

text \<open>Reading the file: absent, its contents, or (\<open>readable\<close> false) another error.\<close>

definition from_env ::
  "links_parse \<Rightarrow> (string \<rightharpoonup> string) \<Rightarrow> (string \<Rightarrow> bool) \<Rightarrow> files \<Rightarrow> string option \<Rightarrow> ShortStore result" where
  "from_env parse env readable files path =
     and_then
       (case path of
          Some p \<Rightarrow>
            if \<not> readable p then Err ''read short links''
            else (case files p of
                    Some contents \<Rightarrow> ok_or (parse contents) ''parse short links''
                  | None \<Rightarrow> Ok [])
        | None \<Rightarrow> Ok []) (\<lambda>links.
     Ok \<lparr>entries = [], permanent = links, persistence_path = path,
         limit = positive_env env ''MAX_SHORT_LINKS'' DEFAULT_SHORT_LINKS,
         ttl = word_of_nat (positive_env env ''SHORT_LINK_TTL_SECONDS'' DEFAULT_SHORT_TTL),
         disabled = (case env ''DISABLE_MEMORY_KV'' of
                       Some v \<Rightarrow> eq_ignore_ascii_case v ''true'' | None \<Rightarrow> False)\<rparr>)"

section \<open>Temporary links\<close>

definition prune :: "nat \<Rightarrow> ShortStore \<Rightarrow> ShortStore" where
  "prune now st = st\<lparr>entries := filter (\<lambda>e. se_expires_at e > now) (entries st)\<rparr>"

fun remove_code :: "string \<Rightarrow> ShortEntry list \<Rightarrow> ShortEntry list" where
  "remove_code c [] = []"
| "remove_code c (e # es) = (if se_code e = c then es else e # remove_code c es)"

text \<open>The loop \<^verbatim>\<open>while entries.len() >= limit { entries.pop_back(); }\<close>, which would not end for a limit of
  zero.\<close>

partial_function (option) pop_back_while :: "nat \<Rightarrow> ShortEntry list \<Rightarrow> ShortEntry list option" where
  "pop_back_while lim es = (if length es \<ge> lim then pop_back_while lim (butlast es) else Some es)"

text \<open>\<open>now\<close> and \<open>later\<close> are the two readings of the clock.\<close>

definition put :: "nat \<Rightarrow> nat \<Rightarrow> string \<Rightarrow> string \<Rightarrow> ShortStore \<Rightarrow> (unit result \<times> ShortStore) option" where
  "put now later c q st =
     (if disabled st then Some (Err ''memory short-link storage is disabled'', st)
      else
        let st = prune now st in
        Option.bind (pop_back_while (limit st) (remove_code c (entries st))) (\<lambda>es.
        Some (Ok (), st\<lparr>entries :=
          \<lparr>se_code = c, se_query = q, se_expires_at = later + unat (ttl st) * 10 ^ 9\<rparr> # es\<rparr>)))"

section \<open>Links on file\<close>

datatype persist_io = Persist_Ok | Open_Failed | Write_Failed nat | Sync_Failed

definition persist :: "links_print \<Rightarrow> persist_io \<Rightarrow> ShortStore \<Rightarrow> files \<Rightarrow> unit result \<times> files" where
  "persist print io st files =
     (case persistence_path st of
        None \<Rightarrow> (Ok (), files)
      | Some path \<Rightarrow>
          (case print (permanent st) of
             None \<Rightarrow> (Err ''serialize short links'', files)
           | Some contents \<Rightarrow>
               (case io of
                  Open_Failed \<Rightarrow> (Err ''open short links'', files)
                | Write_Failed n \<Rightarrow> (Err ''write short links'', files(path \<mapsto> take n contents))
                | Sync_Failed \<Rightarrow> (Err ''sync short links'', files(path \<mapsto> contents))
                | Persist_Ok \<Rightarrow> (Ok (), files(path \<mapsto> contents)))))"

text \<open>Changing the first entry with the code.\<close>

fun set_link :: "string \<Rightarrow> string \<Rightarrow> u64 option \<Rightarrow> PersistentShortLink list \<Rightarrow> PersistentShortLink list option" where
  "set_link c q x [] = None"
| "set_link c q x (e # es) =
     (if pl_code e = c then Some (e\<lparr>pl_query := q, pl_expires_at_unix := x\<rparr> # es)
      else map_option ((#) e) (set_link c q x es))"

definition put_permanent ::
  "links_print \<Rightarrow> persist_io \<Rightarrow> string \<Rightarrow> string \<Rightarrow> ShortStore \<Rightarrow> files \<Rightarrow> unit result \<times> ShortStore \<times> files" where
  "put_permanent print io c q st files =
     (if disabled st then (Err ''memory short-link storage is disabled'', st, files)
      else
        let links = (case set_link c q None (permanent st) of
                Some links \<Rightarrow> links
              | None \<Rightarrow> permanent st @ [\<lparr>pl_code = c, pl_query = q, pl_expires_at_unix = None\<rparr>]);
            st = st\<lparr>permanent := links\<rparr>;
            (r, files) = persist print io st files
        in (r, st, files))"

definition unexpired :: "u64 \<Rightarrow> PersistentShortLink \<Rightarrow> bool" where
  "unexpired unix e = (case pl_expires_at_unix e of None \<Rightarrow> True | Some t \<Rightarrow> t > unix)"

definition expiring :: "PersistentShortLink list \<Rightarrow> (nat \<times> u64) list" where
  "expiring links =
     List.map_filter (\<lambda>(i, e). map_option (\<lambda>t. (i, t)) (pl_expires_at_unix e)) (enumerate 0 links)"

text \<open>\<^verbatim>\<open>Iterator::min_by_key\<close>: the first of the minima.\<close>

fun min_by_key :: "('a \<Rightarrow> 'k::linorder) \<Rightarrow> 'a list \<Rightarrow> 'a option" where
  "min_by_key f [] = None"
| "min_by_key f (x # xs) = Some (foldl (\<lambda>b y. if f y < f b then y else b) x xs)"

lemma min_by_key_in: "min_by_key f xs = Some x \<Longrightarrow> x \<in> set xs"
proof (induction xs rule: rev_induct)
  case (snoc y ys)
  then show ?case by (cases ys) (auto split: if_splits)
qed simp

lemma expiring_nth: "(i, t) \<in> set (expiring links) \<longleftrightarrow> i < length links \<and> pl_expires_at_unix (links ! i) = Some t"
proof -
  have "(i, t) \<in> set (expiring links) \<longleftrightarrow> (\<exists>e. (i, e) \<in> set (enumerate 0 links) \<and> pl_expires_at_unix e = Some t)"
    by (force simp: expiring_def map_filter_def)
  then show ?thesis by (auto simp: in_set_enumerate_eq)
qed

function evict_expiring :: "nat \<Rightarrow> PersistentShortLink list \<Rightarrow> PersistentShortLink list" where
  "evict_expiring lim links =
     (if length (filter (\<lambda>e. pl_expires_at_unix e \<noteq> None) links) \<ge> lim
      then (case min_by_key snd (expiring links) of
              None \<Rightarrow> links
            | Some (i, _) \<Rightarrow> evict_expiring lim (take i links @ drop (Suc i) links))
      else links)"
  by pat_completeness auto
termination
  by (relation "measure (length \<circ> snd)") (auto dest!: min_by_key_in simp: expiring_nth)

declare evict_expiring.simps [simp del]

definition put_persisted_expiring ::
  "links_print \<Rightarrow> persist_io \<Rightarrow> u64 \<Rightarrow> string \<Rightarrow> string \<Rightarrow> ShortStore \<Rightarrow> files \<Rightarrow> unit result \<times> ShortStore \<times> files" where
  "put_persisted_expiring print io unix c q st files =
     (if disabled st then (Err ''memory short-link storage is disabled'', st, files)
      else
        let kept = filter (unexpired unix) (permanent st);
            expires = saturating_add unix (ttl st);
            links = (case set_link c q (Some expires) kept of
                Some links \<Rightarrow> links
              | None \<Rightarrow> evict_expiring (limit st) kept @
                         [\<lparr>pl_code = c, pl_query = q, pl_expires_at_unix = Some expires\<rparr>]);
            st = st\<lparr>permanent := links\<rparr>;
            (r, files) = persist print io st files
        in (r, st, files))"

section \<open>Lookup\<close>

definition get :: "nat \<Rightarrow> u64 \<Rightarrow> string \<Rightarrow> ShortStore \<Rightarrow> string option \<times> ShortStore" where
  "get now unix c st =
     (let st = prune now st in
      (case find (\<lambda>e. pl_code e = c \<and> unexpired unix e) (permanent st) of
         Some e \<Rightarrow> Some (pl_query e)
       | None \<Rightarrow> map_option se_query (find (\<lambda>e. se_code e = c) (entries st)), st))"

section \<open>Permanent links\<close>

text \<open>The first link with the code is permanent and has the query.\<close>

definition holds :: "string \<Rightarrow> string \<Rightarrow> PersistentShortLink list \<Rightarrow> bool" where
  "holds c q links =
     (case find (\<lambda>e. pl_code e = c) links of
        Some e \<Rightarrow> pl_query e = q \<and> pl_expires_at_unix e = None
      | None \<Rightarrow> False)"

lemma holds_Nil [simp]: "\<not> holds c q []"
  by (simp add: holds_def)

lemma holds_Cons [simp]:
  "holds c q (e # es) =
     (if pl_code e = c then pl_query e = q \<and> pl_expires_at_unix e = None else holds c q es)"
  by (simp add: holds_def)

lemma holds_append: "holds c q links \<Longrightarrow> holds c q (links @ rest)"
  by (induction links) (auto split: if_splits)

lemma holds_new: "\<forall>e \<in> set links. pl_code e \<noteq> c \<Longrightarrow>
    holds c q (links @ [\<lparr>pl_code = c, pl_query = q, pl_expires_at_unix = None\<rparr>])"
  by (induction links) auto

lemma holds_filter:
  "holds c q links \<Longrightarrow> (\<And>e. pl_expires_at_unix e = None \<Longrightarrow> P e) \<Longrightarrow> holds c q (filter P links)"
  by (induction links) (auto split: if_splits)

lemma holds_remove:
  "holds c q links \<Longrightarrow> i < length links \<Longrightarrow> pl_expires_at_unix (links ! i) \<noteq> None \<Longrightarrow>
     holds c q (take i links @ drop (Suc i) links)"
proof (induction links arbitrary: i)
  case (Cons e es)
  then show ?case by (cases i) (auto split: if_splits)
qed simp

lemma set_link_None: "set_link c q x links = None \<longleftrightarrow> (\<forall>e \<in> set links. pl_code e \<noteq> c)"
  by (induction links) auto

lemma holds_set_link: "set_link c q None links = Some links' \<Longrightarrow> holds c q links'"
  by (induction links arbitrary: links') (auto split: if_splits)

lemma holds_set_other: "holds c q links \<Longrightarrow> d \<noteq> c \<Longrightarrow> set_link d q' x links = Some links' \<Longrightarrow> holds c q links'"
  by (induction links arbitrary: links') (auto split: if_splits)

lemma holds_evict: "holds c q links \<Longrightarrow> holds c q (evict_expiring lim links)"
proof (induction lim links rule: evict_expiring.induct)
  case (1 lim links)
  show ?case
  proof (cases "lim \<le> length (filter (\<lambda>e. pl_expires_at_unix e \<noteq> None) links)")
    case True
    show ?thesis
    proof (cases "min_by_key snd (expiring links)")
      case (Some p)
      obtain i t where p: "p = (i, t)" by fastforce
      have "holds c q (take i links @ drop (Suc i) links)"
        using min_by_key_in [OF Some] 1(2) by (auto simp: p expiring_nth intro: holds_remove)
      with 1(1) [OF True Some p [symmetric]] True Some p show ?thesis by (subst evict_expiring.simps) simp
    qed (use 1(2) in \<open>subst evict_expiring.simps, simp\<close>)
  qed (use 1(2) in \<open>subst evict_expiring.simps, simp\<close>)
qed

lemma get_holds: "holds c q (permanent st) \<Longrightarrow> fst (get now unix c st) = Some q"
proof -
  have "holds c q links \<Longrightarrow> \<exists>e. find (\<lambda>e. pl_code e = c \<and> unexpired unix e) links = Some e \<and> pl_query e = q" for links
    by (induction links) (auto simp: unexpired_def split: if_splits)
  then show "holds c q (permanent st) \<Longrightarrow> ?thesis" by (fastforce simp: get_def prune_def Let_def)
qed

subsection \<open>What may happen to a store\<close>

text \<open>The operations other than storing a permanent link under the code \<open>c\<close>, and a restart that opens
  the file. A write that stops half-way (\<open>Write_Failed\<close>) is left out: it truncates the file.\<close>

inductive link_step ::
  "links_print \<Rightarrow> links_parse \<Rightarrow> string \<Rightarrow> ShortStore \<times> files \<Rightarrow> ShortStore \<times> files \<Rightarrow> bool"
  for print parse c where
  temporary: "put now later d q st = Some (r, st') \<Longrightarrow> link_step print parse c (st, files) (st', files)"
| lasting: "d \<noteq> c \<Longrightarrow> \<forall>n. io \<noteq> Write_Failed n \<Longrightarrow> put_permanent print io d q st files = (r, st', files') \<Longrightarrow>
    link_step print parse c (st, files) (st', files')"
| passing: "d \<noteq> c \<Longrightarrow> \<forall>n. io \<noteq> Write_Failed n \<Longrightarrow>
    put_persisted_expiring print io unix d q st files = (r, st', files') \<Longrightarrow>
    link_step print parse c (st, files) (st', files')"
| lookup: "get now unix d st = (r, st') \<Longrightarrow> link_step print parse c (st, files) (st', files)"
| restart: "persistence_path st = Some p \<Longrightarrow> from_env parse env readable files (Some p) = Ok st' \<Longrightarrow>
    link_step print parse c (st, files) (st', files)"

text \<open>The link is in memory and on file, under a codec that reads back what it writes.\<close>

definition stored ::
  "links_print \<Rightarrow> links_parse \<Rightarrow> string \<Rightarrow> string \<Rightarrow> ShortStore \<times> files \<Rightarrow> bool" where
  "stored print parse c q w =
     ((\<forall>ls s. print ls = Some s \<longrightarrow> parse s = Some ls) \<and> holds c q (permanent (fst w)) \<and>
      (\<forall>p. persistence_path (fst w) = Some p \<longrightarrow>
         (\<exists>s ls. snd w p = Some s \<and> parse s = Some ls \<and> holds c q ls)))"

text \<open>What a client of the store relies on: a stored link is found, and stays stored.\<close>

locale link_keeper =
  fixes kept :: "string \<Rightarrow> string \<Rightarrow> 'w \<Rightarrow> bool"
    and step :: "string \<Rightarrow> 'w \<Rightarrow> 'w \<Rightarrow> bool"
    and found :: "string \<Rightarrow> 'w \<Rightarrow> string option \<Rightarrow> bool"
  assumes step_keeps: "kept c q w \<Longrightarrow> step c w w' \<Longrightarrow> kept c q w'"
    and kept_found: "kept c q w \<Longrightarrow> found c w r \<Longrightarrow> r = Some q"
begin

lemma steps_keep: "(step c)\<^sup>*\<^sup>* w w' \<Longrightarrow> kept c q w \<Longrightarrow> kept c q w'"
  by (induction rule: rtranclp_induct) (auto intro: step_keeps)

lemma survives: "kept c q w \<Longrightarrow> (step c)\<^sup>*\<^sup>* w w' \<Longrightarrow> found c w' r \<Longrightarrow> r = Some q"
  using steps_keep kept_found by blast

end

lemma persist_file:
  assumes "persist print io st files = (r, files')" "\<forall>n. io \<noteq> Write_Failed n"
    and "\<forall>ls s. print ls = Some s \<longrightarrow> parse s = Some ls" "persistence_path st = Some p"
  shows "files' p = files p \<or> (\<exists>s. files' p = Some s \<and> parse s = Some (permanent st))"
  using assms by (auto simp: persist_def split: option.splits persist_io.splits)

lemma persist_stored:
  assumes "persist print io st' files = (r, files')" "\<forall>n. io \<noteq> Write_Failed n"
    and "stored print parse c q (st, files)" "holds c q (permanent st')" "persistence_path st' = persistence_path st"
  shows "stored print parse c q (st', files')"
proof -
  have rt: "\<forall>ls s. print ls = Some s \<longrightarrow> parse s = Some ls" using assms(3) by (simp add: stored_def)
  have "\<exists>s ls. files' p = Some s \<and> parse s = Some ls \<and> holds c q ls" if "persistence_path st' = Some p" for p
    using persist_file [OF assms(1,2) rt that] assms(3-5) that by (auto simp: stored_def)
  with rt assms(4) show ?thesis by (simp add: stored_def)
qed

lemma put_permanent_eq:
  assumes "put_permanent print io d q st files = (r, st', files')"
  shows "(disabled st \<and> st' = st \<and> files' = files \<and> \<not> is_ok r) \<or>
    (\<exists>links. st' = st\<lparr>permanent := links\<rparr> \<and> persist print io st' files = (r, files') \<and>
       (set_link d q None (permanent st) = Some links \<or> (\<forall>e \<in> set (permanent st). pl_code e \<noteq> d) \<and>
          links = permanent st @ [\<lparr>pl_code = d, pl_query = q, pl_expires_at_unix = None\<rparr>]))"
  using assms
  by (auto simp: put_permanent_def Let_def set_link_None is_ok_def split: if_splits option.splits prod.splits)

lemma put_expiring_eq:
  assumes "put_persisted_expiring print io unix d q st files = (r, st', files')"
  shows "(st' = st \<and> files' = files) \<or>
    (\<exists>links x. st' = st\<lparr>permanent := links\<rparr> \<and> persist print io st' files = (r, files') \<and>
       (set_link d q (Some x) (filter (unexpired unix) (permanent st)) = Some links \<or>
        links = evict_expiring (limit st) (filter (unexpired unix) (permanent st)) @
          [\<lparr>pl_code = d, pl_query = q, pl_expires_at_unix = Some x\<rparr>]))"
  using assms
  by (auto simp: put_persisted_expiring_def Let_def split: if_splits option.splits prod.splits)

lemma link_step_stored:
  assumes "link_step print parse c w w'" "stored print parse c q w"
  shows "stored print parse c q w'"
  using assms
proof cases
  case (temporary now later d q' st r st' files)
  then show ?thesis
    using assms(2) by (auto simp: put_def prune_def Let_def stored_def bind_eq_Some_conv split: if_splits)
next
  case (lasting d io q' st files r st' files')
  have "holds c q (permanent st)" using assms(2) lasting by (simp add: stored_def)
  then have "st' = st \<and> files' = files \<or> persist print io st' files = (r, files') \<and>
      holds c q (permanent st') \<and> persistence_path st' = persistence_path st"
    using put_permanent_eq [OF lasting(5)] holds_set_other [OF _ lasting(3), of q "permanent st"]
      holds_append [of c q "permanent st"] by auto
  with lasting(1,2,4) assms(2) persist_stored [of print io st' files r files' parse c q st] show ?thesis by blast
next
  case (passing d io unix q' st files r st' files')
  have "holds c q (filter (unexpired unix) (permanent st))"
    using assms(2) passing by (auto simp: stored_def unexpired_def intro: holds_filter)
  then have "st' = st \<and> files' = files \<or> persist print io st' files = (r, files') \<and>
      holds c q (permanent st') \<and> persistence_path st' = persistence_path st"
    using put_expiring_eq [OF passing(5)]
      holds_set_other [OF _ passing(3), of q "filter (unexpired unix) (permanent st)"]
      holds_append [OF holds_evict [of c q "filter (unexpired unix) (permanent st)"]] by fastforce
  with passing(1,2,4) assms(2) persist_stored [of print io st' files r files' parse c q st] show ?thesis by blast
next
  case (lookup now unix d st r st' files)
  then show ?thesis using assms(2) by (auto simp: get_def prune_def Let_def stored_def)
next
  case (restart st p env readable files st')
  then show ?thesis using assms(2)
    by (auto simp: from_env_def stored_def result_simps split: if_splits option.splits)
qed

interpretation store: link_keeper "stored print parse" "link_step print parse"
  "\<lambda>c w r. \<exists>now unix. fst (get now unix c (fst w)) = r" for print parse
proof
  show "stored print parse c q w \<Longrightarrow> link_step print parse c w w' \<Longrightarrow> stored print parse c q w'" for c q w w'
    by (rule link_step_stored)
  show "stored print parse c q w \<Longrightarrow> \<exists>now unix. fst (get now unix c (fst w)) = r \<Longrightarrow> r = Some q" for c q w r
    using get_holds by (fastforce simp: stored_def)
qed

lemma put_permanent_stored:
  assumes "\<forall>ls s. print ls = Some s \<longrightarrow> parse s = Some ls"
    and "put_permanent print io c q st files = (Ok (), st', files')"
  shows "stored print parse c q (st', files')"
proof -
  from put_permanent_eq [OF assms(2)] obtain links where
    l: "st' = st\<lparr>permanent := links\<rparr>" "persist print io st' files = (Ok (), files')"
    and "set_link c q None (permanent st) = Some links \<or> (\<forall>e \<in> set (permanent st). pl_code e \<noteq> c) \<and>
      links = permanent st @ [\<lparr>pl_code = c, pl_query = q, pl_expires_at_unix = None\<rparr>]"
    by (auto simp: is_ok_def)
  then have h: "holds c q links" using holds_set_link holds_new by blast
  with l assms(1) show ?thesis
    by (auto simp: stored_def persist_def split: option.splits persist_io.splits)
qed

section \<open>Temporary links\<close>

text \<open>The specification: the links put so far, most recent first, one per code, still fresh, at most
  \<open>lim\<close> of them.\<close>

fun latest :: "ShortEntry list \<Rightarrow> ShortEntry list" where
  "latest [] = []"
| "latest (e # es) = e # filter (\<lambda>x. se_code x \<noteq> se_code e) (latest es)"

definition recent :: "nat \<Rightarrow> nat \<Rightarrow> ShortEntry list \<Rightarrow> ShortEntry list" where
  "recent lim now hist = take lim (filter (\<lambda>e. se_expires_at e > now) (latest hist))"

text \<open>Runs of the store: puts and lookups at given clock readings.\<close>

datatype link_event = Put nat nat string string | Get nat string

fun event_times :: "link_event \<Rightarrow> nat list" where
  "event_times (Put now later c q) = [now, later]"
| "event_times (Get now c) = [now]"

fun link_run :: "u64 \<Rightarrow> link_event list \<Rightarrow> ShortStore \<Rightarrow> ShortStore option" where
  "link_run unix [] st = Some st"
| "link_run unix (Put now later c q # es) st =
     Option.bind (put now later c q st) (\<lambda>(_, st). link_run unix es st)"
| "link_run unix (Get now c # es) st = link_run unix es (snd (get now unix c st))"

fun history :: "u64 \<Rightarrow> link_event list \<Rightarrow> ShortEntry list \<Rightarrow> ShortEntry list" where
  "history t [] hist = hist"
| "history t (Put now later c q # es) hist =
     history t es (\<lparr>se_code = c, se_query = q, se_expires_at = later + unat t * 10 ^ 9\<rparr> # hist)"
| "history t (Get now c # es) hist = history t es hist"

lemma pop_back_while_take: "0 < lim \<Longrightarrow> pop_back_while lim es = Some (take (lim - 1) es)"
proof (induction "length es" arbitrary: es)
  case (Suc n)
  show ?case
  proof (cases "lim \<le> length es")
    case True
    then have "take (lim - 1) (butlast es) = take (lim - 1) es"
      using Suc.prems by (simp add: butlast_conv_take take_take min_def)
    with Suc True show ?thesis by (subst pop_back_while.simps) simp
  qed (subst pop_back_while.simps, use Suc.prems in simp)
qed (subst pop_back_while.simps, simp)

lemma filter_take_sorted:
  "sorted_wrt (\<lambda>x y. P y \<longrightarrow> P x) xs \<Longrightarrow> filter P (take n xs) = take n (filter P xs)"
proof (induction xs arbitrary: n)
  case (Cons x xs)
  show ?case
  proof (cases n)
    case (Suc m)
    show ?thesis
    proof (cases "P x")
      case False
      then have "\<forall>y \<in> set xs. \<not> P y" using Cons.prems by auto
      then have "filter P xs = []" "filter P (take m xs) = []" by (auto simp: filter_empty_conv dest: in_set_takeD)
      with False Suc show ?thesis by simp
    qed (use Cons Suc in simp)
  qed simp
qed simp

lemma take_remove_code:
  "distinct (map se_code xs) \<Longrightarrow>
     take n (remove_code c (take (Suc n) xs)) = take n (filter (\<lambda>e. se_code e \<noteq> c) xs)"
proof (induction xs arbitrary: n)
  case (Cons x xs)
  show ?case
  proof (cases "se_code x = c")
    case True
    then have "se_code e \<noteq> c" if "e \<in> set xs" for e
      using Cons.prems imageI [OF that, of se_code] by auto
    then have "filter (\<lambda>e. se_code e \<noteq> c) xs = xs" by (simp add: filter_id_conv)
    with True show ?thesis by simp
  next
    case False
    with Cons show ?thesis by (cases n) simp_all
  qed
qed simp

lemma latest_subset: "set (latest hist) \<subseteq> set hist"
  by (induction hist) auto

lemma latest_distinct: "distinct (map se_code (latest hist))"
  by (induction hist) (auto simp: distinct_map inj_on_def intro: distinct_filter)

lemma latest_sorted: "sorted_wrt R hist \<Longrightarrow> sorted_wrt R (latest hist)"
  using latest_subset by (induction hist) (force simp: sorted_wrt_filter)+

text \<open>The simulation: the entries are those the specification lists at the time of the last pruning.\<close>

definition sim :: "ShortEntry list \<Rightarrow> nat \<Rightarrow> ShortStore \<Rightarrow> bool" where
  "sim hist t st =
     (entries st = recent (limit st) t hist \<and> sorted_wrt (\<lambda>x y. se_expires_at y \<le> se_expires_at x) hist \<and>
      0 < limit st \<and> \<not> disabled st \<and> 0 < ttl st)"

lemma sim_prune:
  assumes "sim hist t st" "t \<le> now"
  shows "sim hist now (prune now st)"
proof -
  let ?D = "filter (\<lambda>e. se_expires_at e > t) (latest hist)"
  have "sorted_wrt (\<lambda>x y. se_expires_at y \<le> se_expires_at x) ?D"
    using assms(1) by (auto simp: sim_def intro: sorted_wrt_filter latest_sorted)
  then have "sorted_wrt (\<lambda>x y. now < se_expires_at y \<longrightarrow> now < se_expires_at x) ?D"
    by (rule sorted_wrt_mono_rel [rotated]) linarith
  from filter_take_sorted [OF this, of "limit st"]
  have "filter (\<lambda>e. se_expires_at e > now) (recent (limit st) t hist) = recent (limit st) now hist"
    using assms(2) by (auto simp: recent_def intro!: arg_cong [of _ _ "take (limit st)"] filter_cong)
  with assms(1) show ?thesis by (simp add: sim_def prune_def)
qed

lemma sim_put:
  fixes c q :: string
  assumes "sim hist t st" "t \<le> now" "now \<le> later" "\<forall>e \<in> set hist. se_expires_at e \<le> later + unat (ttl st) * 10 ^ 9"
  defines "e \<equiv> \<lparr>se_code = c, se_query = q, se_expires_at = later + unat (ttl st) * 10 ^ 9\<rparr>"
  shows "\<exists>st'. put now later c q st = Some (Ok (), st') \<and> sim (e # hist) now st' \<and>
    limit st' = limit st \<and> ttl st' = ttl st \<and> permanent st' = permanent st"
proof -
  note p = sim_prune [OF assms(1,2)]
  let ?es = "entries (prune now st)"
  let ?fresh = "\<lambda>e. se_expires_at e > now"
  have st: "limit (prune now st) = limit st" "ttl (prune now st) = ttl st" "permanent (prune now st) = permanent st"
    by (simp_all add: prune_def)
  have l: "0 < limit st" "\<not> disabled st" "0 < unat (ttl st)" using assms(1) by (simp_all add: sim_def word_less_nat_alt)
  then obtain n where n: "limit st = Suc n" using gr0_implies_Suc by blast
  have "distinct (map se_code (filter ?fresh (latest hist)))"
    using latest_distinct by (rule distinct_map_filter)
  from take_remove_code [OF this, of n c]
  have "take n (remove_code c ?es) = take n (filter ?fresh (filter (\<lambda>x. se_code x \<noteq> c) (latest hist)))"
    using p n by (simp add: sim_def recent_def prune_def conj_commute)
  moreover have "?fresh e" using l(3) assms(3) by (simp add: e_def)
  ultimately have es: "e # take n (remove_code c ?es) = recent (limit st) now (e # hist)"
    by (simp add: recent_def n e_def)
  have "put now later c q st = Some (Ok (), (prune now st)\<lparr>entries := e # take n (remove_code c ?es)\<rparr>)"
    using l(2) pop_back_while_take [OF l(1)] by (simp add: put_def Let_def st n e_def)
  moreover have "sim (e # hist) now ((prune now st)\<lparr>entries := e # take n (remove_code c ?es)\<rparr>)"
    using p es assms(4) by (simp add: sim_def st e_def)
  ultimately show ?thesis using st by simp
qed

lemma sim_run:
  assumes "sim hist t0 st" "t0 \<le> t" "sorted (t # concat (map event_times es) @ [now])"
    and "\<forall>e \<in> set hist. se_expires_at e \<le> t + unat (ttl st) * 10 ^ 9"
  shows "\<exists>st' t'. link_run unix es st = Some st' \<and> sim (history (ttl st) es hist) t' st' \<and>
    t' \<le> now \<and> limit st' = limit st \<and> permanent st' = permanent st"
  using assms
proof (induction es arbitrary: st hist t0 t)
  case (Cons ev es)
  show ?case
  proof (cases ev)
    case (Put now1 later c q)
    let ?e = "\<lparr>se_code = c, se_query = q, se_expires_at = later + unat (ttl st) * 10 ^ 9\<rparr>"
    have le: "t0 \<le> now1" "now1 \<le> later" "t \<le> later" using Cons.prems(2,3) Put by auto
    have old: "\<forall>e \<in> set hist. se_expires_at e \<le> later + unat (ttl st) * 10 ^ 9" using Cons.prems(4) le by force
    from sim_put [OF Cons.prems(1) le(1,2) this, of c q] obtain st1 where
      st1: "put now1 later c q st = Some (Ok (), st1)"
      "sim (?e # hist) now1 st1" "limit st1 = limit st" "ttl st1 = ttl st" "permanent st1 = permanent st"
      by blast
    have "sorted (later # concat (map event_times es) @ [now])" using Cons.prems(3) Put by auto
    moreover have "\<forall>e \<in> set (?e # hist). se_expires_at e \<le> later + unat (ttl st1) * 10 ^ 9"
      using old st1(4) by simp
    ultimately show ?thesis using Cons.IH [OF st1(2) le(2)] st1 Put by simp
  next
    case (Get now1 c)
    have le: "t0 \<le> now1" "t \<le> now1" "sorted (now1 # concat (map event_times es) @ [now])"
      using Cons.prems(2,3) Get by auto
    have st: "snd (get now1 unix c st) = prune now1 st" by (simp add: get_def Let_def)
    have "\<forall>e \<in> set hist. se_expires_at e \<le> now1 + unat (ttl (prune now1 st)) * 10 ^ 9"
      using Cons.prems(4) le by (force simp: prune_def)
    from Cons.IH [OF sim_prune [OF Cons.prems(1) le(1)] order.refl le(3) this] show ?thesis
      unfolding Get link_run.simps history.simps st by (simp add: prune_def)
  qed
qed auto

section \<open>Properties\<close>

text \<open>C25: permanent links. Once \<open>put_permanent\<close> has stored a query under a code, every lookup of the code
  returns that query, whatever temporary, expiring and permanent links are stored under other codes
  or temporary ones under the same code, whatever expires or is evicted, whether later writes of the
  file succeed, fail to open it or to sync it, and also after restarts that read the file back. The
  TOML reader reads what the writer wrote.\<close>

theorem permanent_link_survives:
  assumes "\<forall>ls s. print ls = Some s \<longrightarrow> parse s = Some ls"
    and "put_permanent print io c q st files = (Ok (), st1, files1)"
    and "(link_step print parse c)\<^sup>*\<^sup>* (st1, files1) (st2, files2)"
  shows "fst (get now unix c st2) = Some q"
  using store.survives [OF put_permanent_stored [OF assms(1,2)] assms(3)] by auto

text \<open>A store with a file, and a codec that handles one list of links.\<close>

definition example_links :: "PersistentShortLink list" where
  "example_links = [\<lparr>pl_code = ''a'', pl_query = ''?x'', pl_expires_at_unix = None\<rparr>]"

definition example_print :: links_print where
  "example_print ls = (if ls = example_links then Some ''a=?x'' else None)"

definition example_parse :: links_parse where
  "example_parse s = (if s = ''a=?x'' then Some example_links else None)"

definition example_store :: ShortStore where
  "example_store = \<lparr>entries = [], permanent = [], persistence_path = Some ''f'', limit = 2, ttl = 1, disabled = False\<rparr>"

theorem permanent_link_survives_witness:
  "\<exists>st2 files2. put_permanent example_print Persist_Ok ''a'' ''?x'' example_store Map.empty =
       (Ok (), example_store\<lparr>permanent := example_links\<rparr>, [''f'' \<mapsto> ''a=?x'']) \<and>
     from_env example_parse Map.empty (\<lambda>_. True) [''f'' \<mapsto> ''a=?x''] (Some ''f'') = Ok st2 \<and>
     fst (get 0 0 ''a'' st2) = Some ''?x''"
proof -
  let ?st1 = "example_store\<lparr>permanent := example_links\<rparr>"
  let ?files = "[''f'' \<mapsto> ''a=?x''] :: files"
  have rt: "\<forall>ls s. example_print ls = Some s \<longrightarrow> example_parse s = Some ls"
    by (simp add: example_print_def example_parse_def)
  have p: "put_permanent example_print Persist_Ok ''a'' ''?x'' example_store Map.empty = (Ok (), ?st1, ?files)"
    by (simp add: put_permanent_def example_store_def persist_def example_print_def example_links_def)
  obtain st2 where r: "from_env example_parse Map.empty (\<lambda>_. True) ?files (Some ''f'') = Ok st2"
    by (simp add: from_env_def example_parse_def)
  have "link_step example_print example_parse ''a'' (?st1, ?files) (st2, ?files)"
    by (rule link_step.restart [OF _ r]) (simp add: example_store_def)
  then have "(link_step example_print example_parse ''a'')\<^sup>*\<^sup>* (?st1, ?files) (st2, ?files)" by blast
  with p r permanent_link_survives [OF rt p] show ?thesis by blast
qed

text \<open>C14: temporary links. For every run of puts and lookups in clock order on a store whose limit and
  lifetime are positive (as the environment's settings always are) every put ends, and a lookup at a
  later time finds exactly what the specification lists: the most recent query of the code, if it has
  not expired and fewer than \<open>limit\<close> other codes are more recent.\<close>

theorem temporary_links_refine:
  assumes "0 < limit st" "0 < ttl st" "\<not> disabled st" "entries st = []" "permanent st = []"
    and "sorted (concat (map event_times es) @ [now])"
  shows "\<exists>st'. link_run unix es st = Some st' \<and>
    fst (get now unix c st') =
      map_option se_query (find (\<lambda>e. se_code e = c) (recent (limit st) now (history (ttl st) es [])))"
proof -
  have "sim [] 0 st" using assms(1-4) by (simp add: sim_def recent_def)
  moreover have "sorted (0 # concat (map event_times es) @ [now])" using assms(6) by simp
  ultimately obtain st' t' where r: "link_run unix es st = Some st'" "sim (history (ttl st) es []) t' st'"
    "t' \<le> now" "limit st' = limit st" "permanent st' = []"
    using sim_run [of "[]" 0 st 0 es now unix] assms(5) by auto
  have "entries (prune now st') = recent (limit st) now (history (ttl st) es [])"
    using sim_prune [OF r(2,3)] r(4) by (simp add: sim_def prune_def)
  then show ?thesis using r(1,5) by (simp add: get_def Let_def prune_def)
qed

theorem temporary_links_refine_witness:
  "\<exists>st'. link_run 0 [Put 1 2 ''a'' ''?x'', Get 3 ''a'', Put 4 4 ''b'' ''?y'', Put 5 6 ''c'' ''?z'']
       (example_store\<lparr>persistence_path := None\<rparr>) = Some st' \<and>
     fst (get 7 0 ''a'' st') = None"
proof -
  let ?es = "[Put 1 2 ''a'' ''?x'', Get 3 ''a'', Put 4 4 ''b'' ''?y'', Put 5 6 ''c'' ''?z'']"
  let ?st = "example_store\<lparr>persistence_path := None\<rparr>"
  have "0 < limit ?st" "0 < ttl ?st" "\<not> disabled ?st" "entries ?st = []" "permanent ?st = []"
    "sorted (concat (map event_times ?es) @ [7])"
    by (simp_all add: example_store_def)
  from temporary_links_refine [OF this, of 0 "''a''"] show ?thesis
    by (simp add: recent_def example_store_def)
qed

end
