(* ===== verification/Sublink_Parse.thy ===== *)
theory Sublink_Parse
  imports Sublink_Rules Net_Addr
begin

text \<open>
  Proxy URIs and subscription inputs, from \<^verbatim>\<open>src/src/sublink.rs\<close>. The libraries the parser calls are the
  fields of \<open>sub_libs\<close>: the URL parser, percent-decoding, the four Base64 decoders in the order they
  are tried, the Base64 encoder and the JSON codec. A parsed URL is what the parser's accessors return.
\<close>

abbreviation MAX_INPUT_BYTES :: nat where "MAX_INPUT_BYTES \<equiv> 32 * 1024"
abbreviation MAX_NODES :: nat where "MAX_NODES \<equiv> 128"
abbreviation MAX_NESTING :: nat where "MAX_NESTING \<equiv> 2"

section \<open>Libraries\<close>

record Url =
  url_host_str :: "string option"
  url_port :: "u16 option"
  url_username :: string
  url_password :: "string option"
  url_path :: string
  url_query :: "string option"
  url_query_pairs :: "(string \<times> string) list"
  url_fragment :: "string option"
  url_origin :: string

text \<open>\<^verbatim>\<open>serde_json::Value\<close>: numbers are integers or something \<^verbatim>\<open>as_u64\<close> rejects.\<close>

datatype Value =
    VNull
  | VBool bool
  | VNumber int
  | VFloat
  | VString string
  | VArray "Value list"
  | VObject "(string \<times> Value) list"

record sub_libs =
  url_parse :: "string \<Rightarrow> Url option"
  percent_decode :: "string \<Rightarrow> bytes"
  base64_engines :: "(string \<Rightarrow> bytes option) list"
  base64_encode :: "bytes \<Rightarrow> string"
  json_parse :: "bytes \<Rightarrow> Value option"
  json_print :: "Value \<Rightarrow> string option"
  host_parse :: "string \<Rightarrow> url_host option"
  blake2s :: "bytes \<Rightarrow> bytes"
  form_serialize :: "(string \<times> string) list \<Rightarrow> string"
  url_set_host :: "Url \<Rightarrow> string \<Rightarrow> Url option"
  url_set_port :: "Url \<Rightarrow> u16 \<Rightarrow> Url option"
  url_to_string :: "Url \<Rightarrow> string"

fun value_get :: "string \<Rightarrow> Value \<Rightarrow> Value option" where
  "value_get k (VObject kvs) = map_of kvs k"
| "value_get k _ = None"

fun as_str :: "Value \<Rightarrow> string option" where
  "as_str (VString s) = Some s"
| "as_str _ = None"

fun as_u64 :: "Value \<Rightarrow> nat option" where
  "as_u64 (VNumber n) = (if 0 \<le> n \<and> n < 2 ^ 64 then Some (nat n) else None)"
| "as_u64 _ = None"

section \<open>Nodes\<close>

record Node =
  kind :: string
  node_name :: string
  node_server :: string
  node_port :: u16
  username :: string
  password :: string
  private_key :: string
  host_key :: string
  cipher_method :: string
  uuid :: string
  network :: string
  node_path :: string
  node_host :: string
  service_name :: string
  sni :: string
  node_obfs :: string
  obfs_password :: string
  flow :: string
  packet_encoding :: string
  node_udp :: bool
  original :: string
  node_tls :: bool
  insecure :: bool

definition Node_empty :: "string \<Rightarrow> string \<Rightarrow> Node" where
  "Node_empty k uri =
     \<lparr>kind = k, node_name = [], node_server = [], node_port = 443, username = [], password = [],
      private_key = [], host_key = [], cipher_method = [], uuid = [], network = ''tcp'', node_path = [],
      node_host = [], service_name = [], sni = [], node_obfs = [], obfs_password = [], flow = [],
      packet_encoding = [], node_udp = False, original = uri, node_tls = False, insecure = False\<rparr>"

section \<open>Helpers\<close>

definition decode_component :: "sub_libs \<Rightarrow> string \<Rightarrow> string" where
  "decode_component L v = from_utf8_lossy (percent_decode L v)"

definition query_value_optional :: "Url \<Rightarrow> string list \<Rightarrow> string option" where
  "query_value_optional url names =
     map_option snd (find (\<lambda>(k, _). list_ex (eq_ignore_ascii_case k) names) (url_query_pairs url))"

definition query_value :: "Url \<Rightarrow> string list \<Rightarrow> string" where
  "query_value url names = unwrap_or_default (query_value_optional url names)"

definition query_bool :: "Url \<Rightarrow> string list \<Rightarrow> bool" where
  "query_bool url names =
     (eq_ignore_ascii_case (trim (query_value url names)) ''true'' \<or> trim (query_value url names) = ''1'')"

text \<open>The characters that are not white space.\<close>

function remove_white_space :: "string \<Rightarrow> string" where
  "remove_white_space [] = []"
| "remove_white_space (c # cs) =
     (case find (\<lambda>w. w \<noteq> [] \<and> starts_with w (c # cs)) white_space of
        Some w \<Rightarrow> remove_white_space (drop (length w) (c # cs))
      | None \<Rightarrow> c # remove_white_space cs)"
  by pat_completeness auto
termination
  by (relation "measure length") (auto simp: find_Some_iff)

definition find_map :: "('a \<Rightarrow> 'b option) \<Rightarrow> 'a list \<Rightarrow> 'b option" where
  "find_map f xs = Option.bind (find (\<lambda>x. f x \<noteq> None) xs) f"

definition decode_base64 :: "sub_libs \<Rightarrow> string \<Rightarrow> bytes option" where
  "decode_base64 L v = find_map (\<lambda>engine. engine (remove_white_space v)) (base64_engines L)"

definition decoded_subscription :: "sub_libs \<Rightarrow> string \<Rightarrow> string option" where
  "decoded_subscription L input =
     (if str_contains ''://'' input then None
      else Option.bind (decode_base64 L input) (\<lambda>bs.
           Option.bind (from_utf8 bs) (\<lambda>decoded.
           if str_contains ''://'' decoded then Some decoded else None)))"

section \<open>Proxy URIs\<close>

definition nonempty_or :: "string option \<Rightarrow> string \<Rightarrow> string" where
  "nonempty_or v fallback = (case v of Some s \<Rightarrow> if s \<noteq> [] then s else fallback | None \<Rightarrow> fallback)"

text \<open>The credentials of each kind.\<close>

definition with_credentials :: "string \<Rightarrow> string \<Rightarrow> Url \<Rightarrow> Node \<Rightarrow> Node" where
  "with_credentials k url_pw url n =
     (if k = ''vless'' then n\<lparr>uuid := username n\<rparr>
      else if k = ''tuic'' then n\<lparr>uuid := username n, password := url_pw\<rparr>
      else if k = ''hysteria2'' then
        n\<lparr>password := (if url_pw = [] then username n else username n @ '':'' @ url_pw)\<rparr>
      else if k = ''ssh'' then
        n\<lparr>password := url_pw, private_key := query_value url [''private-key'', ''privateKey''],
          host_key := query_value url [''host-key'', ''hostKey'']\<rparr>
      else n)"

text \<open>The query parameters, in the order they are read.\<close>

definition with_transport :: "Url \<Rightarrow> Node \<Rightarrow> Node" where
  "with_transport url n =
     n\<lparr>network := nonempty_or (Some (query_value url [''type''])) ''tcp'',
       node_path := query_value url [''path''], node_host := query_value url [''host''],
       service_name := query_value url [''serviceName''], sni := query_value url [''sni''],
       flow := query_value url [''flow'']\<rparr>"

definition with_packet_encoding :: "Url \<Rightarrow> Node \<Rightarrow> Node" where
  "with_packet_encoding url n =
     (case query_value_optional url [''packetEncoding'', ''packet-encoding''] of
        Some e \<Rightarrow> n\<lparr>packet_encoding := e, node_udp := True\<rparr> | None \<Rightarrow> n)"

definition with_obfs :: "Url \<Rightarrow> Node \<Rightarrow> Node" where
  "with_obfs url n =
     n\<lparr>node_obfs := query_value url [''obfs''],
       obfs_password := query_value url [''obfs-password'', ''obfsPassword'']\<rparr>"

definition with_security :: "string \<Rightarrow> Url \<Rightarrow> Node \<Rightarrow> Node" where
  "with_security k url n =
     (let security = query_value url [''security''];
          skip = query_value url [''allowInsecure'', ''insecure'']
      in n\<lparr>node_tls := (if security \<noteq> [] then to_ascii_lowercase security \<notin> {''none'', ''false''}
                       else k \<notin> {''vless'', ''vmess'', ''ssh''}),
           insecure := (skip = ''1'' \<or> eq_ignore_ascii_case skip ''true'')\<rparr>)"

definition with_sni :: "Node \<Rightarrow> Node" where
  "with_sni n =
     (let n = (if sni n = [] \<and> node_host n \<noteq> [] then n\<lparr>sni := node_host n\<rparr> else n)
      in if sni n = [] \<and> node_tls n then n\<lparr>sni := node_server n\<rparr> else n)"

definition with_options :: "string \<Rightarrow> Url \<Rightarrow> Node \<Rightarrow> Node" where
  "with_options k url n =
     with_sni (with_security k url (with_obfs url (with_packet_encoding url (with_transport url n))))"

definition parse_url_node :: "sub_libs \<Rightarrow> string \<Rightarrow> string \<Rightarrow> Node result" where
  "parse_url_node L uri k =
     and_then (ok_or (url_parse L uri) ''invalid proxy URI'') (\<lambda>url.
     and_then (ok_or (url_host_str url) ''proxy server is missing'') (\<lambda>server.
     let n = (Node_empty k uri)\<lparr>node_server := server,
                node_port := (case url_port url of Some p \<Rightarrow> p | None \<Rightarrow> 443),
                node_name := nonempty_or (map_option (decode_component L) (url_fragment url)) server,
                username := decode_component L (url_username url)\<rparr>;
         url_pw = unwrap_or_default (map_option (decode_component L) (url_password url));
         n = with_options k url (with_credentials k url_pw url n)
     in and_then (ensure
          (\<not> (k \<in> {''vless'', ''tuic''} \<and> uuid n = [] \<or>
              k = ''hysteria2'' \<and> password n = [] \<or>
              k = ''ssh'' \<and> (username n = [] \<or> private_key n = [])))
          ''proxy credentials are missing'') (\<lambda>_. Ok n)))"

definition split_server_port :: "sub_libs \<Rightarrow> string \<Rightarrow> (string \<times> u16) result" where
  "split_server_port L v =
     and_then (ok_or (url_parse L (''tcp://'' @ v)) ''invalid proxy server address'') (\<lambda>url.
     and_then (ok_or (url_host_str url) ''proxy server is missing'') (\<lambda>server.
     Ok (server, case url_port url of Some p \<Rightarrow> p | None \<Rightarrow> 443)))"

definition shadowsocks_authority :: "sub_libs \<Rightarrow> string \<Rightarrow> (string \<times> string) result" where
  "shadowsocks_authority L authority =
     (case rsplit_once CHR ''@'' authority of
        Some (credentials, server) \<Rightarrow>
          let decoded = decode_component L credentials in
          and_then
            (if CHR '':'' \<in> set decoded then Ok decoded
             else and_then (ok_or (decode_base64 L decoded) ''invalid Shadowsocks credentials'') (\<lambda>bs.
                  ok_or (from_utf8 bs) ''invalid utf-8 sequence'')) (\<lambda>credentials.
          Ok (credentials, server))
      | None \<Rightarrow>
          and_then (ok_or (decode_base64 L authority) ''invalid Shadowsocks URI'') (\<lambda>bs.
          and_then (ok_or (from_utf8 bs) ''invalid utf-8 sequence'') (\<lambda>decoded.
          ok_or (rsplit_once CHR ''@'' decoded) ''invalid Shadowsocks URI'')))"

definition parse_shadowsocks :: "sub_libs \<Rightarrow> string \<Rightarrow> Node result" where
  "parse_shadowsocks L uri =
     and_then (ok_or (strip_prefix ''ss://'' uri) ''invalid Shadowsocks URI'') (\<lambda>rest.
     let fragment = map_option (\<lambda>(_, v). decode_component L v) (split_once ''#'' rest);
         without_fragment = hd (split_on (\<lambda>c. c = CHR ''#'') rest);
         authority = hd (split_on (\<lambda>c. c = CHR ''?'') without_fragment)
     in and_then (shadowsocks_authority L authority) (\<lambda>(credentials, server_port).
        and_then (ok_or (split_once '':'' credentials) ''invalid Shadowsocks credentials'') (\<lambda>(m, pw).
        and_then (split_server_port L server_port) (\<lambda>(server, port).
        and_then (ensure (m \<noteq> [] \<and> pw \<noteq> []) ''invalid Shadowsocks credentials'') (\<lambda>_.
        Ok ((Node_empty ''shadowsocks'' uri)\<lparr>node_name := nonempty_or fragment server, node_server := server,
              node_port := port, cipher_method := m, password := pw\<rparr>))))))"

definition vmess_port :: "Value \<Rightarrow> u16" where
  "vmess_port v =
     (case value_get ''port'' v of
        None \<Rightarrow> 443
      | Some p \<Rightarrow>
          (case (case as_u64 p of
                   Some n \<Rightarrow> if n < 65536 then Some n else None | None \<Rightarrow> None) of
             Some n \<Rightarrow> word_of_nat n
           | None \<Rightarrow> (case Option.bind (as_str p) (parse_uint 16) of Some n \<Rightarrow> word_of_nat n | None \<Rightarrow> 443)))"

definition vmess_node :: "sub_libs \<Rightarrow> string \<Rightarrow> Value \<Rightarrow> Node" where
  "vmess_node L uri v =
     (let get = (\<lambda>k. unwrap_or_default (Option.bind (value_get k v) as_str));
          server = get ''add'';
          name = nonempty_or (map_option (\<lambda>(_, name). decode_component L name) (split_once ''#'' uri)) (get ''ps'');
          n = (Node_empty ''vmess'' uri)\<lparr>node_server := server, node_port := vmess_port v, uuid := get ''id'',
                node_name := (if name = [] then server else name),
                network := (if get ''net'' = [] then ''tcp'' else get ''net''),
                node_path := get ''path'', node_host := get ''host'', sni := get ''sni'',
                node_tls := (to_ascii_lowercase (get ''tls'') \<notin> {[], ''none''})\<rparr>
      in if sni n = [] \<and> node_tls n then n\<lparr>sni := server\<rparr> else n)"

definition parse_vmess :: "sub_libs \<Rightarrow> string \<Rightarrow> Node result" where
  "parse_vmess L uri =
     and_then (ok_or (strip_prefix ''vmess://'' uri) ''invalid VMess URI'') (\<lambda>encoded.
     let encoded = hd (split_on (\<lambda>c. c = CHR ''#'') encoded) in
     and_then (ok_or (decode_base64 L encoded) ''invalid VMess payload'') (\<lambda>decoded.
     and_then (ok_or (json_parse L decoded) ''invalid VMess JSON'') (\<lambda>v.
     let n = vmess_node L uri v in
     and_then (ensure (node_server n \<noteq> [] \<and> uuid n \<noteq> []) ''VMess server or UUID is missing'') (\<lambda>_. Ok n))))"

definition parse_node :: "sub_libs \<Rightarrow> string \<Rightarrow> Node result" where
  "parse_node L uri =
     and_then (ok_or (split_once ''://'' uri) ''invalid proxy URI'') (\<lambda>(scheme, _).
     let scheme = to_ascii_lowercase scheme in
     if scheme = ''ss'' then parse_shadowsocks L uri
     else if scheme = ''vmess'' then parse_vmess L uri
     else if scheme \<in> {''vless'', ''hysteria2'', ''tuic'', ''ssh''} then parse_url_node L uri scheme
     else if scheme \<in> {''hy2'', ''hysteria''} then parse_url_node L uri ''hysteria2''
     else Err ''unsupported proxy URI'')"

section \<open>Subscription inputs\<close>

function (sequential) parse_input_recursive :: "sub_libs \<Rightarrow> string \<Rightarrow> nat \<Rightarrow> Node list \<Rightarrow> Node list result"
  and parse_lines :: "sub_libs \<Rightarrow> nat \<Rightarrow> string list \<Rightarrow> Node list \<Rightarrow> Node list result" where
  "parse_input_recursive L input depth nodes =
     (if depth > MAX_NESTING then Err ''input nesting is too deep''
      else if length input > MAX_INPUT_BYTES then Err ''config input is too large''
      else (case decoded_subscription L input of
              Some decoded \<Rightarrow> parse_input_recursive L decoded (depth + 1) nodes
            | None \<Rightarrow> parse_lines L depth (map trim (str_lines input)) nodes))"
| "parse_lines L depth [] nodes = Ok nodes"
| "parse_lines L depth (line # ls) nodes =
     (if line = [] \<or> starts_with ''#'' line then parse_lines L depth ls nodes
      else if starts_with ''http://'' line \<or> starts_with ''https://'' line
      then Err ''remote HTTP(S) subscriptions are not supported''
      else if \<not> str_contains ''://'' line then
        and_then (parse_input_recursive L line (depth + 1) nodes) (\<lambda>nodes. parse_lines L depth ls nodes)
      else if length nodes \<ge> MAX_NODES then Err ''too many proxy nodes''
      else and_then (parse_node L line) (\<lambda>n. parse_lines L depth ls (nodes @ [n])))"
  by pat_completeness auto
termination
  by (relation "inv_image (less_than <*lex*> less_than <*lex*> less_than)
        (\<lambda>x. case x of Inl (L, i, d, n) \<Rightarrow> if d > 2 then (0, 0, 0) else (3 - d, 2, 0)
                     | Inr (L, d, ls, n) \<Rightarrow> (3 - d, 1, length ls))")
    auto

declare parse_input_recursive.simps [simp del]

definition parse_input :: "sub_libs \<Rightarrow> string \<Rightarrow> Node list result" where
  "parse_input L input =
     (let trimmed = trim input in
      and_then (ensure (trimmed \<noteq> []) ''no supported proxy nodes found'') (\<lambda>_.
      if starts_with ''{'' trimmed \<or> starts_with ''proxies:'' (to_ascii_lowercase trimmed)
         \<or> starts_with ''[proxy]'' (to_ascii_lowercase trimmed)
      then Err ''only proxy URIs and Base64 subscriptions are supported''
      else and_then (parse_input_recursive L trimmed 0 []) (\<lambda>nodes.
           and_then (ensure (nodes \<noteq> []) ''no supported proxy nodes found'') (\<lambda>_. Ok nodes))))"

definition rewrite_node :: "sub_libs \<Rightarrow> string option \<Rightarrow> u16 option \<Rightarrow> Node \<Rightarrow> string result" where
  "rewrite_node L server port n =
     and_then (ok_or (url_parse L (original n)) ''invalid proxy URI'') (\<lambda>url.
     and_then
       (case (server, port) of
          (Some s, Some p) \<Rightarrow>
            and_then (ok_or (url_set_host L url s) ''invalid subscription server override'') (\<lambda>url.
            ok_or (url_set_port L url p) ''invalid subscription port override'')
        | _ \<Rightarrow> Ok url) (\<lambda>url.
     Ok (url_to_string L url)))"

definition rewrite_subscription_input ::
  "sub_libs \<Rightarrow> string \<Rightarrow> string option \<Rightarrow> u16 option \<Rightarrow> bool \<Rightarrow> string result" where
  "rewrite_subscription_input L input server port tcp_only =
     and_then (ensure ((server \<noteq> None) = (port \<noteq> None))
        ''subscription server and port overrides must be used together'') (\<lambda>_.
     and_then (parse_input L input) (\<lambda>nodes.
     and_then (collect_results (map (rewrite_node L server port)
        (filter (\<lambda>n. \<not> (tcp_only \<and> kind n \<notin> {''vless'', ''ssh''})) nodes))) (\<lambda>rewritten.
     and_then (ensure (rewritten \<noteq> []) ''subscription contains no compatible TCP nodes'') (\<lambda>_.
     Ok (join [CHR 0x0A] rewritten)))))"

definition subscription_name :: "Node list \<Rightarrow> string" where
  "subscription_name nodes =
     (let node = (case find (\<lambda>n. kind n = ''hysteria2'') nodes of
                    Some n \<Rightarrow> Some n | None \<Rightarrow> (case nodes of [] \<Rightarrow> None | n # _ \<Rightarrow> Some n));
          name = nonempty_or (map_option (\<lambda>n. trim (node_name n)) node) ''subscription''
      in case strip_suffix ''-VLESS'' name of
           Some s \<Rightarrow> s
         | None \<Rightarrow> (case strip_suffix ''-SSH'' name of Some s \<Rightarrow> s | None \<Rightarrow> name))"

section \<open>Lemmas\<close>

text \<open>What a parsed node has.\<close>

definition node_ok :: "Node \<Rightarrow> bool" where
  "node_ok n =
     (kind n \<in> {''shadowsocks'', ''vmess'', ''vless'', ''hysteria2'', ''tuic'', ''ssh''} \<and>
      (kind n \<in> {''vless'', ''vmess'', ''tuic''} \<longrightarrow> uuid n \<noteq> []) \<and>
      (kind n \<in> {''shadowsocks'', ''hysteria2''} \<longrightarrow> password n \<noteq> []) \<and>
      (kind n = ''shadowsocks'' \<longrightarrow> cipher_method n \<noteq> []) \<and>
      (kind n = ''ssh'' \<longrightarrow> username n \<noteq> [] \<and> private_key n \<noteq> []) \<and>
      (node_tls n \<and> node_server n \<noteq> [] \<longrightarrow> sni n \<noteq> []))"

text \<open>The fields the query parameters do not touch.\<close>

definition core :: "Node \<Rightarrow> string \<times> string \<times> string \<times> string \<times> string \<times> string \<times> string" where
  "core n = (kind n, original n, uuid n, password n, username n, private_key n, node_server n)"

lemma core_steps:
  "core (with_transport url n) = core n" "core (with_packet_encoding url n) = core n"
  "core (with_obfs url n) = core n" "core (with_security k url n) = core n" "core (with_sni n) = core n"
  by (simp_all add: core_def with_transport_def with_packet_encoding_def with_obfs_def with_security_def
      with_sni_def Let_def split: option.split)

lemma core_with_options: "core (with_options k url n) = core n"
  by (simp add: with_options_def core_steps)

lemmas with_options_fields = core_with_options [unfolded core_def prod.inject, THEN conjunct1]
  core_with_options [unfolded core_def prod.inject, THEN conjunct2, THEN conjunct1]
  core_with_options [unfolded core_def prod.inject, THEN conjunct2, THEN conjunct2]

lemma with_sni_set: "node_tls (with_sni n) \<Longrightarrow> node_server (with_sni n) \<noteq> [] \<Longrightarrow> sni (with_sni n) \<noteq> []"
  by (auto simp: with_sni_def Let_def split: if_splits)

lemma with_credentials_fields:
  "kind (with_credentials k pw url n) = kind n" "original (with_credentials k pw url n) = original n"
  "node_server (with_credentials k pw url n) = node_server n"
  by (simp_all add: with_credentials_def)

lemma parse_url_node_ok:
  assumes "parse_url_node L uri k = Ok n" "k \<in> {''vless'', ''hysteria2'', ''tuic'', ''ssh''}"
  shows "node_ok n \<and> original n = uri"
proof -
  from assms(1) obtain url server n0 pw where n: "n = with_options k url (with_credentials k pw url n0)"
    and n0: "kind n0 = k" "original n0 = uri"
    and c: "\<not> (k \<in> {''vless'', ''tuic''} \<and> uuid n = [] \<or> k = ''hysteria2'' \<and> password n = [] \<or>
              k = ''ssh'' \<and> (username n = [] \<or> private_key n = []))"
    by (auto simp: parse_url_node_def result_simps Let_def Node_empty_def)
  have "kind n = k" "original n = uri" using n n0 by (simp_all add: with_options_fields with_credentials_fields)
  moreover have "node_tls n \<and> node_server n \<noteq> [] \<longrightarrow> sni n \<noteq> []"
    unfolding n with_options_def using with_sni_set by blast
  ultimately show ?thesis using c assms(2) by (auto simp: node_ok_def)
qed

lemma parse_shadowsocks_ok: "parse_shadowsocks L uri = Ok n \<Longrightarrow> node_ok n \<and> original n = uri"
  by (auto simp: parse_shadowsocks_def result_simps Let_def Node_empty_def node_ok_def)

lemma vmess_node_fields:
  "kind (vmess_node L uri v) = ''vmess''" "original (vmess_node L uri v) = uri"
  "node_tls (vmess_node L uri v) \<and> node_server (vmess_node L uri v) \<noteq> [] \<longrightarrow> sni (vmess_node L uri v) \<noteq> []"
  by (auto simp: vmess_node_def Let_def Node_empty_def)

lemma parse_vmess_ok: "parse_vmess L uri = Ok n \<Longrightarrow> node_ok n \<and> original n = uri"
  using vmess_node_fields by (auto simp: parse_vmess_def result_simps Let_def node_ok_def)

lemma parse_node_ok:
  assumes "parse_node L uri = Ok n"
  shows "node_ok n \<and> original n = uri"
proof -
  from assms obtain k where "parse_shadowsocks L uri = Ok n \<or> parse_vmess L uri = Ok n \<or>
      parse_url_node L uri k = Ok n \<and> k \<in> {''vless'', ''hysteria2'', ''tuic'', ''ssh''}"
    by (auto simp: parse_node_def result_simps Let_def split: if_splits)
  then show ?thesis using parse_shadowsocks_ok parse_vmess_ok parse_url_node_ok by blast
qed

text \<open>A line that the parser takes as a proxy URI.\<close>

definition uri_line :: "string \<Rightarrow> bool" where
  "uri_line l = (l \<noteq> [] \<and> trim l = l \<and> CHR 0x0A \<notin> set l \<and> \<not> starts_with ''#'' l \<and>
     \<not> starts_with ''http://'' l \<and> \<not> starts_with ''https://'' l \<and> str_contains ''://'' l)"

lemma parse_recursive_sound:
  "parse_input_recursive L input depth nodes = Ok nodes' \<Longrightarrow>
     \<exists>new. nodes' = nodes @ new \<and> (length nodes \<le> MAX_NODES \<longrightarrow> length nodes' \<le> MAX_NODES) \<and>
       (\<forall>n \<in> set new. uri_line (original n) \<and> parse_node L (original n) = Ok n)"
  "parse_lines L depth ls nodes = Ok nodes' \<Longrightarrow> \<forall>l \<in> set ls. trim l = l \<and> CHR 0x0A \<notin> set l \<Longrightarrow>
     \<exists>new. nodes' = nodes @ new \<and> (length nodes \<le> MAX_NODES \<longrightarrow> length nodes' \<le> MAX_NODES) \<and>
       (\<forall>n \<in> set new. uri_line (original n) \<and> parse_node L (original n) = Ok n)"
proof (induction L input depth nodes and L depth ls nodes arbitrary: nodes' and nodes'
    rule: parse_input_recursive_parse_lines.induct)
  case (1 L input depth nodes)
  note eq = parse_input_recursive.simps [of L input depth nodes]
  have d: "\<not> depth > MAX_NESTING" and l: "\<not> length input > MAX_INPUT_BYTES"
    using "1.prems" unfolding eq by (auto split: if_splits)
  show ?case
  proof (cases "decoded_subscription L input")
    case None
    have "CHR 0x0A \<notin> set (trim x)" if "x \<in> set (str_lines input)" for x
      using str_lines_no_LF [OF that] set_trim by blast
    then have ls: "\<forall>l \<in> set (map trim (str_lines input)). trim l = l \<and> CHR 0x0A \<notin> set l" by auto
    have "parse_lines L depth (map trim (str_lines input)) nodes = Ok nodes'"
      using "1.prems" d l None unfolding eq by simp
    from "1.IH"(1) [OF d l None this ls] show ?thesis .
  next
    case (Some decoded)
    with "1.IH"(2) [OF d l Some] "1.prems" d l show ?thesis unfolding eq by simp
  qed
next
  case (2 L depth nodes)
  then show ?case by simp
next
  case (3 L depth line ls nodes)
  have rest: "\<forall>l \<in> set ls. trim l = l \<and> CHR 0x0A \<notin> set l" using "3.prems"(2) by simp
  consider (skip) "line = [] \<or> starts_with ''#'' line"
    | (nested) "\<not> (line = [] \<or> starts_with ''#'' line)" "\<not> str_contains ''://'' line"
    | (uri) "\<not> (line = [] \<or> starts_with ''#'' line)" "str_contains ''://'' line" by blast
  then show ?case
  proof cases
    case skip
    then show ?thesis using "3.IH"(1) "3.prems"(1) rest by simp
  next
    case nested
    then have h: "\<not> (starts_with ''http://'' line \<or> starts_with ''https://'' line)"
      using "3.prems"(1) by (auto split: if_splits)
    with nested "3.prems"(1) obtain mid where m: "parse_input_recursive L line (depth + 1) nodes = Ok mid"
      "parse_lines L depth ls mid = Ok nodes'" by (auto simp: result_simps)
    from "3.IH"(2) [OF nested(1) h nested(2) m(1)] obtain new1 where n1: "mid = nodes @ new1"
      "length nodes \<le> MAX_NODES \<longrightarrow> length mid \<le> MAX_NODES"
      "\<forall>n \<in> set new1. uri_line (original n) \<and> parse_node L (original n) = Ok n" by blast
    from "3.IH"(3) [OF nested(1) h nested(2) m(2) rest] obtain new2 where n2: "nodes' = mid @ new2"
      "length mid \<le> MAX_NODES \<longrightarrow> length nodes' \<le> MAX_NODES"
      "\<forall>n \<in> set new2. uri_line (original n) \<and> parse_node L (original n) = Ok n" by blast
    from n1 n2 show ?thesis by (intro exI [of _ "new1 @ new2"]) auto
  next
    case uri
    then have h: "\<not> (starts_with ''http://'' line \<or> starts_with ''https://'' line)"
      "\<not> length nodes \<ge> MAX_NODES"
      using "3.prems"(1) by (auto split: if_splits)
    with uri "3.prems"(1) obtain n where n: "parse_node L line = Ok n" "parse_lines L depth ls (nodes @ [n]) = Ok nodes'"
      by (auto simp: result_simps)
    have "uri_line line" using uri h "3.prems"(2) by (auto simp: uri_line_def)
    moreover have "original n = line" using parse_node_ok [OF n(1)] by blast
    moreover obtain new where "nodes' = (nodes @ [n]) @ new"
      "length (nodes @ [n]) \<le> MAX_NODES \<longrightarrow> length nodes' \<le> MAX_NODES"
      "\<forall>n \<in> set new. uri_line (original n) \<and> parse_node L (original n) = Ok n"
      using "3.IH"(4) [OF uri(1) h(1) _ h(2) n(2) rest] uri(2) by auto
    ultimately show ?thesis using n(1) h(2) by (intro exI [of _ "n # new"]) auto
  qed
qed

subsection \<open>Printed subscriptions\<close>

text \<open>What the Base64 library documents: the encoder's output is in the standard alphabet, and the
  first decoder, the standard one, reverses it.\<close>

definition is_base64_char :: "char \<Rightarrow> bool" where
  "is_base64_char c = (is_ascii_alphanumeric c \<or> c \<in> {CHR ''+'', CHR ''/'', CHR ''=''})"

definition base64_ok :: "sub_libs \<Rightarrow> bool" where
  "base64_ok L =
     (\<exists>standard others. base64_engines L = standard # others \<and>
        (\<forall>bs. list_all is_base64_char (base64_encode L bs) \<and> standard (base64_encode L bs) = Some bs \<and>
           (base64_encode L bs = [] \<longrightarrow> bs = [])))"

lemma base64_char_graphic: "is_base64_char c \<Longrightarrow> is_ascii_graphic c"
  by (auto simp: is_base64_char_def is_ascii_alphanumeric_def is_ascii_digit_def is_ascii_graphic_def code_def)

lemma not_base64_char: "c \<in> {CHR '':'', CHR ''{'', CHR ''['', CHR '']''} \<Longrightarrow> \<not> is_base64_char c"
  by (auto simp: is_base64_char_def is_ascii_alphanumeric_def is_ascii_digit_def code_def)

lemma to_ascii_lowercase_other:
  assumes "c \<in> {CHR '':'', CHR ''[''}" "c \<in> set (to_ascii_lowercase s)"
  shows "c \<in> set s"
proof -
  obtain d where d: "d \<in> set s" "ascii_lower d = c" using assms(2) by (auto simp: to_ascii_lowercase_def)
  have "code c = (if 65 \<le> code d \<and> code d \<le> 90 then code d + 32 else code d)"
    using d(2) by (auto simp: ascii_lower_def code_def)
  moreover have "code c \<in> {58, 91}" using assms(1) by (auto simp: code_def)
  ultimately have "code d = code c" by (auto split: if_splits)
  then have "d = c" by (simp add: code_def)
  with d(1) show ?thesis by simp
qed

lemma remove_white_space_graphic: "list_all is_ascii_graphic s \<Longrightarrow> remove_white_space s = s"
proof (induction s)
  case (Cons c s)
  have "find (\<lambda>w. w \<noteq> [] \<and> starts_with w (c # s)) white_space = None"
    using starts_with_hd [of _ "c # s"] white_space_ends Cons.prems by (auto simp: find_None_iff list_all_iff)
  with Cons show ?case by simp
qed simp

lemma encoded_subscription:
  assumes "base64_ok L" "valid_str text" "str_contains ''://'' text"
  shows "decoded_subscription L (base64_encode L (as_bytes text)) = Some text"
    "trim (base64_encode L (as_bytes text)) = base64_encode L (as_bytes text)"
    "\<forall>c \<in> set (base64_encode L (as_bytes text)). is_base64_char c"
proof -
  let ?e = "base64_encode L (as_bytes text)"
  obtain standard others where s: "base64_engines L = standard # others" "standard ?e = Some (as_bytes text)"
    and a: "list_all is_base64_char ?e" using assms(1) by (auto simp: base64_ok_def)
  show al: "\<forall>c \<in> set ?e. is_base64_char c" using a by (simp add: list_all_iff)
  have g: "list_all is_ascii_graphic ?e" using al base64_char_graphic by (auto simp: list_all_iff)
  show "trim ?e = ?e" using g by (rule graphic_no_white_space)
  have "CHR '':'' \<notin> set ?e" using al not_base64_char by blast
  then have "\<not> str_contains ''://'' ?e" by (auto simp: str_contains_iff)
  moreover have "decode_base64 L ?e = Some (as_bytes text)"
    using s remove_white_space_graphic [OF g] by (simp add: decode_base64_def find_map_def)
  ultimately show "decoded_subscription L ?e = Some text"
    using assms(2,3) by (simp add: decoded_subscription_def)
qed

lemma parse_lines_uris:
  "\<forall>n \<in> set ns. uri_line (original n) \<and> parse_node L (original n) = Ok n \<Longrightarrow> length nodes + length ns \<le> MAX_NODES \<Longrightarrow>
     parse_lines L depth (map original ns) nodes = Ok (nodes @ ns)"
  by (induction ns arbitrary: nodes) (auto simp: uri_line_def)

lemma uri_line_last: "uri_line l \<Longrightarrow> last l \<noteq> CHR 0x0D"
proof
  assume l: "uri_line l" and cr: "last l = CHR 0x0D"
  have "find (\<lambda>w. w \<noteq> [] \<and> starts_with w (rev l)) (map rev white_space) = None"
    using strip_leading_stops [of "map rev white_space" "rev (trim_start l)"] l
    by (metis rev_rev_ident trim_def trim_end_def uri_line_def)
  then have "\<forall>w \<in> set (map rev white_space). \<not> (w \<noteq> [] \<and> starts_with w (rev l))"
    by (simp add: find_None_iff)
  moreover have "[CHR 0x0D] \<in> set (map rev white_space)" by code_simp
  ultimately have "\<not> starts_with [CHR 0x0D] (rev l)" by blast
  moreover have "rev l = CHR 0x0D # rev (butlast l)"
    using l cr append_butlast_last_id [of l] by (metis rev_eq_Cons_iff rev_rev_ident uri_line_def)
  ultimately show False by (simp add: starts_with_def)
qed

lemma parse_encoded_nodes:
  assumes "base64_ok L" "ns \<noteq> []" "length ns \<le> MAX_NODES"
    and "\<forall>n \<in> set ns. uri_line (original n) \<and> parse_node L (original n) = Ok n"
    and "valid_str (join [CHR 0x0A] (map original ns))"
    and "length (base64_encode L (as_bytes (join [CHR 0x0A] (map original ns)))) \<le> MAX_INPUT_BYTES"
    and "length (join [CHR 0x0A] (map original ns)) \<le> MAX_INPUT_BYTES"
  shows "parse_input L (base64_encode L (as_bytes (join [CHR 0x0A] (map original ns)))) = Ok ns"
proof -
  let ?text = "join [CHR 0x0A] (map original ns)"
  let ?e = "base64_encode L (as_bytes ?text)"
  obtain n where n: "n \<in> set ns" using assms(2) by (meson list.set_sel(1))
  then have c: "str_contains ''://'' ?text"
    using assms(4) by (intro str_contains_join [of "original n"]) (auto simp: uri_line_def)
  note e = encoded_subscription [OF assms(1,5) c]
  have "?text \<noteq> []" using c by auto
  then have ne: "?e \<noteq> []" using assms(1) by (auto simp: base64_ok_def)
  have lines: "map trim (str_lines ?text) = map original ns"
  proof -
    have "str_lines ?text = map original ns"
      using assms(2,4) uri_line_last by (intro str_lines_join) (auto simp: uri_line_def)
    then show ?thesis using assms(4) by (auto simp: uri_line_def)
  qed
  have "decoded_subscription L ?text = None" using c by (simp add: decoded_subscription_def)
  then have "parse_input_recursive L ?text 1 [] = Ok ns"
    using assms(3,7) lines parse_lines_uris [OF assms(4), of "[]" 1]
    by (subst parse_input_recursive.simps) simp
  then have r: "parse_input_recursive L ?e 0 [] = Ok ns"
    using e(1) assms(6) by (subst parse_input_recursive.simps) simp
  have "CHR '':'' \<notin> set ?e" "CHR ''{'' \<notin> set ?e" "CHR ''['' \<notin> set ?e"
    using e(3) not_base64_char by blast+
  then have "\<not> starts_with ''{'' ?e" "\<not> starts_with ''proxies:'' (to_ascii_lowercase ?e)"
    "\<not> starts_with ''[proxy]'' (to_ascii_lowercase ?e)"
    using to_ascii_lowercase_other [of _ ?e] by (fastforce simp: starts_with_iff)+
  with ne r assms(2) show ?thesis by (simp add: parse_input_def e(2) Let_def)
qed

subsection \<open>An example of the libraries\<close>

text \<open>One URL is known; Base64 is the hexadecimal encoding, whose alphabet is part of Base64's.\<close>

definition example_url :: Url where
  "example_url = \<lparr>url_host_str = Some ''h'', url_port = None, url_username = ''u'', url_password = None,
     url_path = [], url_query = None, url_query_pairs = [(''sni'', ''s'')], url_fragment = None, url_origin = ''o''\<rparr>"

definition hex_nibble :: "char \<Rightarrow> nat" where
  "hex_nibble c = (if code c < 58 then code c - 48 else code c - 87)"

fun hex_decode :: "string \<Rightarrow> bytes option" where
  "hex_decode [] = Some []"
| "hex_decode [c] = None"
| "hex_decode (c # d # cs) = map_option ((#) (word_of_nat (16 * hex_nibble c + hex_nibble d))) (hex_decode cs)"

definition example_sub_libs :: sub_libs where
  "example_sub_libs = \<lparr>url_parse = (\<lambda>s. if s = ''hy2://u@h'' then Some example_url else None),
     percent_decode = as_bytes, base64_engines = [hex_decode], base64_encode = hex_string,
     json_parse = (\<lambda>_. None), json_print = (\<lambda>_. Some ''json''), host_parse = (\<lambda>d. Some (Host_Domain d)),
     blake2s = (\<lambda>_. replicate 32 7), form_serialize = (\<lambda>_. ''config=x''), url_set_host = (\<lambda>u _. Some u),
     url_set_port = (\<lambda>u _. Some u), url_to_string = (\<lambda>_. ''hy2://u@h'')\<rparr>"

lemma hex_nibble_digit: "d < 16 \<Longrightarrow> hex_nibble (hex_digit d) = d"
  by (auto simp: hex_nibble_def hex_digit_def code_def)

lemma hex_decode_string: "hex_decode (hex_string bs) = Some bs"
proof (induction bs)
  case (Cons b bs)
  have "unat b div 16 < 16" "unat b mod 16 < 16" using unat_u8_less [of b] by auto
  moreover have "word_of_nat (16 * (unat b div 16) + unat b mod 16) = b" by (simp add: mult.commute)
  ultimately show ?case using Cons by (simp add: hex_string_def hex02_def hex_nibble_digit)
qed (simp add: hex_string_def)

lemma example_base64_ok: "base64_ok example_sub_libs"
  unfolding base64_ok_def
proof (intro exI [of _ hex_decode] exI [of _ "[]"] conjI allI impI)
  show "list_all is_base64_char (base64_encode example_sub_libs bs)" for bs
    using hex_string_alnum [of bs] by (auto simp: example_sub_libs_def is_base64_char_def list_all_iff)
  show "base64_encode example_sub_libs bs = [] \<Longrightarrow> bs = []" for bs
    using length_hex_string [of bs] by (auto simp: example_sub_libs_def simp del: length_hex_string)
qed (simp_all add: example_sub_libs_def hex_decode_string)

lemma example_trim: "trim ''hy2://u@h'' = ''hy2://u@h''"
  by (rule graphic_no_white_space) code_simp

lemma parse_example_node:
  assumes "url_parse L ''hy2://u@h'' = Some example_url" "percent_decode L = as_bytes"
  shows "\<exists>n. parse_node L ''hy2://u@h'' = Ok n \<and> original n = ''hy2://u@h'' \<and> kind n = ''hysteria2''"
proof -
  have "from_utf8_lossy (as_bytes ''u'') = ''u''" by code_simp
  then have u: "decode_component L ''u'' = ''u''" by (simp add: decode_component_def assms(2))
  have s: "split_once ''://'' ''hy2://u@h'' = Some (''hy2'', ''u@h'')" "to_ascii_lowercase ''hy2'' = ''hy2''" by code_simp+
  have "parse_node L ''hy2://u@h'' = parse_url_node L ''hy2://u@h'' ''hysteria2''"
    unfolding parse_node_def s(1) by (simp add: s(2) Let_def)
  moreover have "\<exists>n. parse_url_node L ''hy2://u@h'' ''hysteria2'' = Ok n \<and> kind n = ''hysteria2''"
    using u by (simp add: parse_url_node_def assms(1) example_url_def Let_def with_options_fields with_credentials_def
        unwrap_or_default_def Node_empty_def ensure_def)
  ultimately show ?thesis using parse_node_ok by fastforce
qed

lemma example_uri_line: "uri_line ''hy2://u@h''"
  unfolding uri_line_def example_trim by code_simp

lemma parse_example_input:
  assumes "url_parse L ''hy2://u@h'' = Some example_url" "percent_decode L = as_bytes"
  shows "\<exists>n. parse_input L ''hy2://u@h'' = Ok [n] \<and> original n = ''hy2://u@h'' \<and> kind n = ''hysteria2''"
proof -
  obtain n where n: "parse_node L ''hy2://u@h'' = Ok n" "original n = ''hy2://u@h''" "kind n = ''hysteria2''"
    using parse_example_node [OF assms] by blast
  have "str_contains ''://'' ''hy2://u@h''" by code_simp
  then have "decoded_subscription L ''hy2://u@h'' = None" by (simp add: decoded_subscription_def)
  moreover have "map trim (str_lines ''hy2://u@h'') = [''hy2://u@h'']" by (simp add: str_lines_def Let_def example_trim)
  moreover have "parse_lines L 0 [''hy2://u@h''] [] = Ok [n]"
    using parse_lines_uris [of "[n]" L "[]" 0] n example_uri_line by simp
  ultimately have "parse_input_recursive L ''hy2://u@h'' 0 [] = Ok [n]"
    by (subst parse_input_recursive.simps) simp
  moreover have "\<not> starts_with ''{'' ''hy2://u@h''" "\<not> starts_with ''proxies:'' (to_ascii_lowercase ''hy2://u@h'')"
    "\<not> starts_with ''[proxy]'' (to_ascii_lowercase ''hy2://u@h'')"
    by code_simp+
  ultimately show ?thesis using n by (simp add: parse_input_def example_trim Let_def)
qed

lemma example_parse_input:
  "\<exists>n. parse_input example_sub_libs ''hy2://u@h'' = Ok [n] \<and> original n = ''hy2://u@h'' \<and> kind n = ''hysteria2''"
  by (rule parse_example_input) (simp_all add: example_sub_libs_def)

section \<open>Properties\<close>



end
