(* ===== verification/Sublink_Render.thy ===== *)
theory Sublink_Render
  imports Sublink_Parse
begin

text \<open>
  The subscription documents of \<^verbatim>\<open>src/src/sublink.rs\<close>: \<^verbatim>\<open>render_singbox\<close> as a JSON value, \<^verbatim>\<open>render_clash\<close> and
  \<^verbatim>\<open>render_surge\<close> as text. The code appends to a string; here each piece is the text it appends.
\<close>

section \<open>Names and policies\<close>

definition proxy_node_names :: "Node list \<Rightarrow> string list" where
  "proxy_node_names nodes =
     (if list_ex (\<lambda>n. kind n = ''ssh'') nodes then
        map node_name (filter (\<lambda>n. kind n = ''ssh'') nodes @ filter (\<lambda>n. kind n = ''vless'') nodes @
          filter (\<lambda>n. kind n \<notin> {''ssh'', ''vless''}) nodes)
      else
        let shared_tcp_fallback =
              (length nodes \<ge> 2 \<and> list_ex (\<lambda>n. kind n = ''hysteria2'') nodes \<and>
               list_ex (\<lambda>n. kind n = ''vless'') nodes \<and>
               list_all (\<lambda>n. node_server n = node_server (nodes ! 0) \<and> node_port n = node_port (nodes ! 0)) nodes)
        in if \<not> shared_tcp_fallback then map node_name nodes
           else map node_name (filter (\<lambda>n. kind n = ''vless'') nodes @ filter (\<lambda>n. kind n = ''hysteria2'') nodes))"

fun rule_policy :: "RuleAction \<Rightarrow> string" where
  "rule_policy Proxy = ''PROXY''"
| "rule_policy Direct = ''DIRECT''"
| "rule_policy Reject = ''REJECT''"

abbreviation SITE_RULE_BASE :: string where
  "SITE_RULE_BASE \<equiv> ''https://gh-proxy.com/https://github.com/MetaCubeX/meta-rules-dat/raw/refs/heads/meta/geo/geosite/''"
abbreviation IP_RULE_BASE :: string where
  "IP_RULE_BASE \<equiv> ''https://gh-proxy.com/https://github.com/MetaCubeX/meta-rules-dat/raw/refs/heads/meta/geo/geoip/''"
abbreviation SINGBOX_SITE_RULE_BASE :: string where
  "SINGBOX_SITE_RULE_BASE \<equiv> ''https://gh-proxy.com/https://github.com/MetaCubeX/meta-rules-dat/raw/refs/heads/sing/geo/geosite/''"
abbreviation SINGBOX_IP_RULE_BASE :: string where
  "SINGBOX_IP_RULE_BASE \<equiv> ''https://gh-proxy.com/https://github.com/MetaCubeX/meta-rules-dat/raw/refs/heads/sing/geo/geoip/''"
abbreviation SURGE_SITE_RULE_BASE :: string where
  "SURGE_SITE_RULE_BASE \<equiv> ''https://gh-proxy.com/https://github.com/NSZA156/surge-geox-rules/raw/refs/heads/release/geo/geosite/''"
abbreviation SURGE_IP_RULE_BASE :: string where
  "SURGE_IP_RULE_BASE \<equiv> ''https://gh-proxy.com/https://github.com/NSZA156/surge-geox-rules/raw/refs/heads/release/geo/geoip/''"

section \<open>sing-box\<close>

text \<open>The packet encoding that is written: \<^verbatim>\<open>none\<close> becomes the empty string.\<close>

definition written_packet_encoding :: "Node \<Rightarrow> string" where
  "written_packet_encoding n = (if eq_ignore_ascii_case (packet_encoding n) ''none'' then [] else packet_encoding n)"

definition singbox_transport :: "Node \<Rightarrow> Value" where
  "singbox_transport n =
     VObject ([(''type'', VString (network n))] @
       (if node_path n \<noteq> [] then [(''path'', VString (node_path n))] else []) @
       (if node_host n \<noteq> [] then [(''headers'', VObject [(''Host'', VString (node_host n))])] else []) @
       (if service_name n \<noteq> [] then [(''service_name'', VString (service_name n))] else []))"

definition singbox_credentials :: "Node \<Rightarrow> (string \<times> Value) list" where
  "singbox_credentials n =
     (if kind n = ''shadowsocks'' then
        [(''method'', VString (cipher_method n)), (''password'', VString (password n))]
      else if kind n = ''vmess'' then [(''uuid'', VString (uuid n))]
      else if kind n = ''vless'' then
        [(''uuid'', VString (uuid n))] @
        (if flow n \<noteq> [] then [(''flow'', VString (flow n))] else []) @
        (if node_udp n then [(''packet_encoding'', VString (written_packet_encoding n))] else [])
      else if kind n = ''tuic'' then [(''uuid'', VString (uuid n)), (''password'', VString (password n))]
      else [(''password'', VString (password n))])"

definition singbox_node :: "Node \<Rightarrow> Value" where
  "singbox_node n =
     VObject ([(''type'', VString (kind n)), (''tag'', VString (node_name n)),
               (''server'', VString (node_server n)), (''server_port'', VNumber (int (unat (node_port n))))] @
       singbox_credentials n @
       (if node_tls n then
          [(''tls'', VObject [(''enabled'', VBool True), (''server_name'', VString (sni n)),
                              (''insecure'', VBool (insecure n))])] else []) @
       (if kind n = ''hysteria2'' \<and> node_obfs n = ''salamander'' then
          [(''obfs'', VObject [(''type'', VString ''salamander''), (''password'', VString (obfs_password n))])] else []) @
       (if network n \<noteq> ''tcp'' \<and> kind n \<noteq> ''shadowsocks'' then [(''transport'', singbox_transport n)] else []))"

fun domain_rule_fields :: "DomainRule list \<Rightarrow> string list \<times> string list" where
  "domain_rule_fields [] = ([], [])"
| "domain_rule_fields (Exact d # rs) = (let (e, s) = domain_rule_fields rs in (d # e, s))"
| "domain_rule_fields (Suffix d # rs) = (let (e, s) = domain_rule_fields rs in (e, d # s))"

definition strings :: "string list \<Rightarrow> Value" where
  "strings xs = VArray (map VString xs)"

definition domain_fields :: "DomainRule list \<Rightarrow> (string \<times> Value) list" where
  "domain_fields rules =
     (let (exact, suffix) = domain_rule_fields rules in
      (if exact \<noteq> [] then [(''domain'', strings exact)] else []) @
      (if suffix \<noteq> [] then [(''domain_suffix'', strings suffix)] else []))"

text \<open>The field a routing rule gets from its action.\<close>

fun action_field :: "RuleAction \<Rightarrow> string \<times> Value" where
  "action_field Proxy = (''outbound'', VString ''PROXY'')"
| "action_field Direct = (''outbound'', VString ''DIRECT'')"
| "action_field Reject = (''action'', VString ''reject'')"

definition push_singbox_custom_rule :: "DomainRule list \<Rightarrow> RuleAction \<Rightarrow> Value list" where
  "push_singbox_custom_rule rules action =
     (if rules = [] then [] else [VObject (domain_fields rules @ [action_field action])])"

definition push_singbox_dns_rule :: "DomainRule list \<Rightarrow> string \<Rightarrow> string option \<Rightarrow> Value list" where
  "push_singbox_dns_rule rules action server =
     (if rules = [] then []
      else [VObject ([(''action'', VString action)] @ domain_fields rules @
              (case server of Some s \<Rightarrow> [(''server'', VString s)] | None \<Rightarrow> []))])"

definition remote_rule_set :: "string \<Rightarrow> string \<Rightarrow> Value" where
  "remote_rule_set tag url =
     VObject [(''type'', VString ''remote''), (''tag'', VString tag), (''format'', VString ''binary''),
              (''url'', VString url), (''download_detour'', VString ''DIRECT'')]"

definition singbox_rule_sets :: "RuleSpec list \<Rightarrow> Value list" where
  "singbox_rule_sets rules =
     concat (map (\<lambda>r.
       map (\<lambda>site. remote_rule_set site (SINGBOX_SITE_RULE_BASE @ site @ ''.srs'')) (sites r) @
       map (\<lambda>ip. remote_rule_set (ip @ ''-ip'') (SINGBOX_IP_RULE_BASE @ ip @ ''.srs'')) (ips r)) rules)"

definition singbox_route_rules :: "RuleSpec list \<Rightarrow> CustomRules \<Rightarrow> Value list" where
  "singbox_route_rules rules custom =
     push_singbox_custom_rule (blacklist custom) Reject @
     push_singbox_custom_rule (whitelist custom) Direct @
     map (\<lambda>r. VObject [(''rule_set'', strings (sites r @ map (\<lambda>ip. ip @ ''-ip'') (ips r))),
                       action_field (rule_action r)]) rules"

definition china_dns_servers :: "Value list" where
  "china_dns_servers =
     [VObject [(''type'', VString ''local''), (''tag'', VString ''dns-local'')],
      VObject [(''type'', VString ''https''), (''tag'', VString ''dns-cn-ali''),
               (''server'', VString ''dns.alidns.com''), (''domain_resolver'', VString ''dns-local'')],
      VObject [(''type'', VString ''https''), (''tag'', VString ''dns-cn-tencent''),
               (''server'', VString ''doh.pub''), (''domain_resolver'', VString ''dns-local'')],
      VObject [(''type'', VString ''https''), (''tag'', VString ''dns-global''), (''server'', VString ''1.1.1.1''),
               (''tls'', VObject [(''enabled'', VBool True), (''server_name'', VString ''cloudflare-dns.com'')]),
               (''detour'', VString ''PROXY'')]]"

definition china_dns_rules :: "CustomRules \<Rightarrow> Value list" where
  "china_dns_rules custom =
     push_singbox_dns_rule (blacklist custom) ''reject'' None @
     push_singbox_dns_rule (whitelist custom) ''route'' (Some ''dns-cn-ali'') @
     [VObject [(''rule_set'', VString ''private''), (''action'', VString ''route''), (''server'', VString ''dns-local'')],
      VObject [(''rule_set'', strings [''apple-cn'', ''microsoft@cn'', ''steam@cn'', ''category-games@cn'', ''bilibili'']),
               (''action'', VString ''route''), (''server'', VString ''dns-cn-ali'')],
      VObject [(''rule_set'', strings [''geolocation-cn'', ''cn'']),
               (''action'', VString ''route''), (''server'', VString ''dns-cn-tencent'')]]"

definition singbox_dns :: "CustomRules \<Rightarrow> bool \<Rightarrow> Value" where
  "singbox_dns custom china =
     (if china then
        VObject [(''servers'', VArray china_dns_servers), (''rules'', VArray (china_dns_rules custom)),
                 (''final'', VString ''dns-global'')]
      else
        VObject [(''servers'', VArray [VObject [(''type'', VString ''udp''), (''tag'', VString ''dns''),
                                              (''server'', VString ''223.5.5.5'')]]),
                 (''final'', VString ''dns'')])"

definition singbox_outbounds :: "Node list \<Rightarrow> Value list" where
  "singbox_outbounds nodes =
     map singbox_node nodes @
     [VObject [(''type'', VString ''selector''), (''tag'', VString ''PROXY''),
               (''outbounds'', strings (proxy_node_names nodes))],
      VObject [(''type'', VString ''direct''), (''tag'', VString ''DIRECT'')]]"

definition singbox_route :: "RuleSpec list \<Rightarrow> CustomRules \<Rightarrow> bool \<Rightarrow> Value" where
  "singbox_route rules custom china =
     VObject ([(''rules'', VArray (singbox_route_rules rules custom)),
               (''rule_set'', VArray (singbox_rule_sets rules)), (''final'', VString ''PROXY'')] @
              (if china then [(''default_domain_resolver'', VString ''dns-local'')] else []))"

definition singbox_config :: "Node list \<Rightarrow> RuleSpec list \<Rightarrow> CustomRules \<Rightarrow> bool \<Rightarrow> Value" where
  "singbox_config nodes rules custom china =
     VObject [(''log'', VObject [(''level'', VString ''warn'')]), (''dns'', singbox_dns custom china),
              (''inbounds'', VArray []), (''outbounds'', VArray (singbox_outbounds nodes)),
              (''route'', singbox_route rules custom china)]"

definition render_singbox ::
  "sub_libs \<Rightarrow> Node list \<Rightarrow> RuleSpec list \<Rightarrow> CustomRules \<Rightarrow> bool \<Rightarrow> string result" where
  "render_singbox L nodes rules custom china =
     ok_or (json_print L (singbox_config nodes rules custom china)) ''serialize sing-box configuration''"

section \<open>Clash\<close>

abbreviation LF :: char where "LF \<equiv> CHR 0x0A"

text \<open>One line, and several.\<close>

definition eol :: "string \<Rightarrow> string" where
  "eol l = l @ [LF]"

definition eols :: "string list \<Rightarrow> string" where
  "eols ls = concat (map eol ls)"

definition yaml_quote :: "string \<Rightarrow> string" where
  "yaml_quote v =
     [CHR 0x27] @ replace_chars (\<lambda>c. c = CHR 0x0D \<or> c = LF) '' ''
        (replace_chars (\<lambda>c. c = CHR 0x27) [CHR 0x27, CHR 0x27] v) @ [CHR 0x27]"

definition yaml_field :: "string \<Rightarrow> string \<Rightarrow> string" where
  "yaml_field key v = eol (''    '' @ key @ '': '' @ yaml_quote v)"

definition yaml_block_field :: "string \<Rightarrow> string \<Rightarrow> string" where
  "yaml_block_field key v =
     eol (''    '' @ key @ '': |-'') @
     eols (map (\<lambda>l. ''      '' @ l) (str_lines (replace_chars (\<lambda>c. c = CHR 0x0D) [] v)))"

definition show_kind :: "Node \<Rightarrow> string" where
  "show_kind n = (if kind n = ''shadowsocks'' then ''ss'' else kind n)"

definition clash_credentials :: "Node \<Rightarrow> string" where
  "clash_credentials n =
     (if kind n = ''ssh'' then
        yaml_field ''username'' (username n) @ yaml_block_field ''private-key'' (private_key n) @
        (if trim (host_key n) \<noteq> [] then
           eol ''    host-key:'' @
           eols (map (\<lambda>k. ''      - '' @ yaml_quote k) (filter (\<lambda>l. l \<noteq> []) (map trim (str_lines (host_key n)))))
         else []) @
        eol ''    udp: false''
      else if kind n = ''shadowsocks'' then
        yaml_field ''cipher'' (cipher_method n) @ yaml_field ''password'' (password n)
      else if kind n \<in> {''vmess'', ''vless''} then
        yaml_field ''uuid'' (uuid n) @
        (if kind n = ''vless'' then
           eol (''    udp: '' @ (if node_udp n then ''true'' else ''false'')) @
           (if node_udp n then yaml_field ''packet-encoding'' (written_packet_encoding n) else [])
         else [])
      else if kind n = ''tuic'' then yaml_field ''uuid'' (uuid n) @ yaml_field ''password'' (password n)
      else yaml_field ''password'' (password n))"

definition clash_tls :: "Node \<Rightarrow> string" where
  "clash_tls n =
     (if node_tls n then
        (if kind n = ''hysteria2'' then yaml_field ''sni'' (sni n) @ eols [''    alpn:'', ''      - h3'']
         else eol ''    tls: true'' @ yaml_field ''servername'' (sni n)) @
        (if insecure n then eol ''    skip-cert-verify: true'' else [])
      else [])"

definition clash_network :: "Node \<Rightarrow> string" where
  "clash_network n =
     (if network n \<noteq> ''tcp'' \<and> kind n \<noteq> ''shadowsocks'' then
        yaml_field ''network'' (network n) @
        (if network n \<in> {''ws'', ''http''} then
           eol (''    '' @ network n @ ''-opts:'') @
           (if node_path n \<noteq> [] then eol (''      path: '' @ yaml_quote (node_path n)) else []) @
           (if node_host n \<noteq> [] then eols [''      headers:'', ''        Host: '' @ yaml_quote (node_host n)] else [])
         else [])
      else [])"

definition clash_node :: "Node \<Rightarrow> string" where
  "clash_node n =
     eol (''  - name: '' @ yaml_quote (node_name n)) @
     yaml_field ''type'' (show_kind n) @ yaml_field ''server'' (node_server n) @
     eol (''    port: '' @ show_nat (unat (node_port n))) @
     clash_credentials n @ clash_tls n @
     (if kind n = ''hysteria2'' \<and> node_obfs n = ''salamander'' then
        yaml_field ''obfs'' (node_obfs n) @ yaml_field ''obfs-password'' (obfs_password n) else []) @
     clash_network n"

fun clash_domain_rule :: "DomainRule \<Rightarrow> string \<Rightarrow> string \<Rightarrow> string" where
  "clash_domain_rule (Exact d) policy pre = pre @ ''DOMAIN,'' @ d @ '','' @ policy"
| "clash_domain_rule (Suffix d) policy pre = pre @ ''DOMAIN-SUFFIX,'' @ d @ '','' @ policy"

definition write_clash_domain_rule :: "DomainRule \<Rightarrow> string \<Rightarrow> string \<Rightarrow> string" where
  "write_clash_domain_rule r policy pre = eol (clash_domain_rule r policy pre)"

definition rule_set_key :: "string \<Rightarrow> string" where
  "rule_set_key s = [CHR 0x27] @ ''rule-set:'' @ s @ [CHR 0x27] @ '':''"

definition clash_dns_head :: "string list" where
  "clash_dns_head =
     [''dns:'',
      ''  enable: true'',
      ''  ipv6: true'',
      ''  cache-algorithm: arc'',
      ''  enhanced-mode: fake-ip'',
      ''  fake-ip-range: 198.18.0.1/16'',
      ''  fake-ip-filter-mode: rule'',
      ''  fake-ip-filter:'',
      ''    - RULE-SET,private,real-ip'',
      ''    - RULE-SET,cn,real-ip'']"

definition clash_dns_tail :: "string list" where
  "clash_dns_tail =
     [''    - MATCH,fake-ip'',
      ''  default-nameserver:'',
      ''    - 223.5.5.5'',
      ''    - 119.29.29.29'',
      ''  proxy-server-nameserver:'',
      ''    - https://dns.alidns.com/dns-query'',
      ''    - https://doh.pub/dns-query'',
      ''  direct-nameserver:'',
      ''    - https://dns.alidns.com/dns-query'',
      ''    - https://doh.pub/dns-query'',
      ''  direct-nameserver-follow-policy: true'',
      ''  nameserver:'',
      ''    - https://1.1.1.1/dns-query#PROXY'',
      ''    - https://8.8.8.8/dns-query#PROXY'',
      ''  nameserver-policy:'',
      ''    '' @ rule_set_key ''private'',
      ''      - system'',
      ''    '' @ rule_set_key ''apple-cn'',
      ''      - https://dns.alidns.com/dns-query'',
      ''      - https://doh.pub/dns-query'',
      ''    '' @ rule_set_key ''microsoft@cn'',
      ''      - https://dns.alidns.com/dns-query'',
      ''      - https://doh.pub/dns-query'',
      ''    '' @ rule_set_key ''steam@cn'',
      ''      - https://dns.alidns.com/dns-query'',
      ''      - https://doh.pub/dns-query'',
      ''    '' @ rule_set_key ''category-games@cn'',
      ''      - https://dns.alidns.com/dns-query'',
      ''      - https://doh.pub/dns-query'',
      ''    '' @ rule_set_key ''bilibili'',
      ''      - https://dns.alidns.com/dns-query'',
      ''      - https://doh.pub/dns-query'',
      ''    '' @ rule_set_key ''geolocation-cn'',
      ''      - https://dns.alidns.com/dns-query'',
      ''      - https://doh.pub/dns-query'',
      ''    '' @ rule_set_key ''cn'',
      ''      - https://dns.alidns.com/dns-query'',
      ''      - https://doh.pub/dns-query'',
      ''    '' @ rule_set_key ''geolocation-!cn'',
      ''      - https://1.1.1.1/dns-query#PROXY'',
      ''      - https://8.8.8.8/dns-query#PROXY'']"

definition clash_provider :: "string \<Rightarrow> string \<Rightarrow> string \<Rightarrow> string \<Rightarrow> bool \<Rightarrow> string" where
  "clash_provider name behavior url format china =
     eols ([''  '' @ name @ '':'', ''    type: http'', ''    behavior: '' @ behavior, ''    format: '' @ format,
           ''    url: '' @ yaml_quote url, ''    path: '' @ yaml_quote (''./ruleset/'' @ name @ ''.'' @ format),
           ''    interval: 86400''] @ (if china then [''    proxy: DIRECT''] else []))"

definition clash_providers :: "RuleSpec list \<Rightarrow> string \<Rightarrow> bool \<Rightarrow> string" where
  "clash_providers rules format china =
     concat (map (\<lambda>r.
       concat (map (\<lambda>site. clash_provider site ''domain'' (SITE_RULE_BASE @ site @ ''.'' @ format) format china) (sites r)) @
       concat (map (\<lambda>ip. clash_provider (ip @ ''-ip'') ''ipcidr'' (IP_RULE_BASE @ ip @ ''.'' @ format) format china) (ips r)))
       rules)"

definition clash_rule_lines :: "RuleSpec list \<Rightarrow> CustomRules \<Rightarrow> string list" where
  "clash_rule_lines rules custom =
     map (\<lambda>r. clash_domain_rule r ''REJECT'' ''  - '') (blacklist custom) @
     map (\<lambda>r. clash_domain_rule r ''DIRECT'' ''  - '') (whitelist custom) @
     concat (map (\<lambda>r.
       map (\<lambda>site. ''  - RULE-SET,'' @ site @ '','' @ rule_policy (rule_action r)) (sites r) @
       map (\<lambda>ip. ''  - RULE-SET,'' @ ip @ ''-ip,'' @ rule_policy (rule_action r) @ '',no-resolve'') (ips r)) rules) @
     [''  - MATCH,PROXY'']"

definition render_clash :: "Node list \<Rightarrow> RuleSpec list \<Rightarrow> CustomRules \<Rightarrow> bool \<Rightarrow> bool \<Rightarrow> string" where
  "render_clash nodes rules custom use_mrs china =
     eols [''mixed-port: 7890'', ''mode: rule'', ''allow-lan: false'', ''log-level: warning'', ''proxies:''] @
     concat (map clash_node nodes) @
     eols [''proxy-groups:'', ''  - name: PROXY'', ''    type: select'', ''    proxies:''] @
     eols (map (\<lambda>name. ''      - '' @ yaml_quote name) (proxy_node_names nodes)) @
     eol ''      - DIRECT'' @
     (if china \<and> use_mrs then
        eols clash_dns_head @
        concat (map (\<lambda>r. write_clash_domain_rule r ''real-ip'' ''    - '') (whitelist custom)) @
        eols clash_dns_tail
      else []) @
     (if rules \<noteq> [] then
        eol ''rule-providers:'' @ clash_providers rules (if use_mrs then ''mrs'' else ''yaml'') china
      else []) @
     eol ''rules:'' @ eols (clash_rule_lines rules custom)"

section \<open>Surge\<close>

definition surge_value :: "string \<Rightarrow> string" where
  "surge_value v = replace_chars (\<lambda>c. c \<in> {CHR 0x0D, LF, CHR '',''}) ''_'' v"

definition surge_node :: "Node \<Rightarrow> string" where
  "surge_node n =
     surge_value (node_name n) @ '' = '' @ show_kind n @ '','' @ surge_value (node_server n) @ '','' @
     show_nat (unat (node_port n)) @
     (if kind n = ''shadowsocks'' then
        '',encrypt-method='' @ surge_value (cipher_method n) @ '',password='' @ surge_value (password n)
      else if kind n \<in> {''vmess'', ''vless''} then '',username='' @ surge_value (uuid n)
      else '',password='' @ surge_value (password n)) @
     (if node_tls n then '',tls=true'' else []) @
     (if sni n \<noteq> [] then '',sni='' @ surge_value (sni n) else [])"

definition surge_rule_lines :: "RuleSpec list \<Rightarrow> CustomRules \<Rightarrow> string list" where
  "surge_rule_lines rules custom =
     map (\<lambda>r. clash_domain_rule r ''REJECT'' []) (blacklist custom) @
     map (\<lambda>r. clash_domain_rule r ''DIRECT'' []) (whitelist custom) @
     concat (map (\<lambda>r.
       map (\<lambda>site. ''RULE-SET,'' @ SURGE_SITE_RULE_BASE @ site @ ''.conf,'' @ rule_policy (rule_action r)) (sites r) @
       map (\<lambda>ip. ''RULE-SET,'' @ SURGE_IP_RULE_BASE @ ip @ ''.txt,'' @ rule_policy (rule_action r) @ '',no-resolve'') (ips r))
       rules) @
     [''FINAL,PROXY'']"

definition render_surge :: "Node list \<Rightarrow> RuleSpec list \<Rightarrow> CustomRules \<Rightarrow> bool \<Rightarrow> string" where
  "render_surge nodes rules custom china =
     eols [''[General]'', ''loglevel = notify''] @
     (if china then eol ''dns-server = 223.5.5.5, 119.29.29.29'' else []) @
     eols [[], ''[Proxy]''] @
     eols (map surge_node nodes) @
     eols [[], ''[Proxy Group]''] @
     eol (''PROXY = select,'' @ join '','' (map surge_value (proxy_node_names nodes)) @ '',DIRECT'') @
     eols [[], ''[Rule]''] @
     eols (surge_rule_lines rules custom)"

section \<open>Lines of a document\<close>

abbreviation doc_lines :: "string \<Rightarrow> string list" where
  "doc_lines \<equiv> split_on (\<lambda>c. c = LF)"

lemma doc_lines_eol: "LF \<notin> set l \<Longrightarrow> doc_lines (eol l @ rest) = l # doc_lines rest"
  using split_on_none [of l "\<lambda>c. c = LF"] by (auto simp: eol_def split_on_append_sep)

lemma doc_lines_eols: "\<forall>l \<in> set ls. LF \<notin> set l \<Longrightarrow> doc_lines (eols ls @ rest) = ls @ doc_lines rest"
  by (induction ls) (simp_all add: eols_def doc_lines_eol)

lemma set_replace_chars: "set (replace_chars p r s) \<subseteq> {c \<in> set s. \<not> p c} \<union> set r"
  by (auto simp: replace_chars_def split: if_splits)

lemma LF_yaml_quote [simp]: "LF \<notin> set (yaml_quote v)"
proof -
  have "LF \<notin> set (replace_chars (\<lambda>c. c = CHR 0x0D \<or> c = LF) '' '' w)" for w
    using set_replace_chars [of "\<lambda>c. c = CHR 0x0D \<or> c = LF" "'' ''" w] by auto
  then show ?thesis by (simp add: yaml_quote_def)
qed

lemma surge_value_chars: "c \<in> set (surge_value v) \<Longrightarrow> c \<notin> {CHR 0x0D, LF, CHR '',''}"
  using set_replace_chars [of "\<lambda>c. c \<in> {CHR 0x0D, LF, CHR '',''}" "''_''" v] by (auto simp: surge_value_def)

lemma LF_surge_value [simp]: "LF \<notin> set (surge_value v)"
  using surge_value_chars by blast

lemma show_nat_chars: "c \<in> set (show_nat n) \<Longrightarrow> is_ascii_digit c"
  using show_nat_digits [of n] by (auto simp: list_all_iff)

lemma LF_show_nat [simp]: "LF \<notin> set (show_nat n)" "CHR '','' \<notin> set (show_nat n)"
  using show_nat_chars [of LF n] show_nat_chars [of "CHR '',''" n] by (auto simp: is_ascii_digit_def code_def)

subsection \<open>Outlines\<close>

text \<open>The lines of a document that are indented by less than four blanks: its keys and list items down
  to the second level.\<close>

definition outer :: "string \<Rightarrow> string list" where
  "outer s = filter (\<lambda>l. l \<noteq> [] \<and> \<not> starts_with ''    '' l) (doc_lines s)"

text \<open>A piece of text that contributes exactly the lines \<open>ls\<close> to the outline of what it is put into.\<close>

definition piece :: "string \<Rightarrow> string list \<Rightarrow> bool" where
  "piece s ls = (\<forall>rest. outer (s @ rest) = ls @ outer rest)"

named_theorems pieces \<open>outlines of the pieces of a document\<close>

lemma outer_piece: "piece s ls \<Longrightarrow> outer s = ls"
proof -
  assume "piece s ls"
  then have "outer (s @ []) = ls @ outer []" unfolding piece_def by blast
  then show ?thesis by (simp add: outer_def)
qed

lemma piece_Nil [pieces]: "piece [] []"
  by (simp add: piece_def)

lemma piece_append: "piece s ls \<Longrightarrow> piece t ms \<Longrightarrow> piece (s @ t) (ls @ ms)"
  by (simp add: piece_def)

lemma piece_if: "(b \<Longrightarrow> piece s ls) \<Longrightarrow> (\<not> b \<Longrightarrow> piece t ms) \<Longrightarrow> piece (if b then s else t) (if b then ls else ms)"
  by simp

lemma piece_eol: "LF \<notin> set l \<Longrightarrow> piece (eol l) (if l \<noteq> [] \<and> \<not> starts_with ''    '' l then [l] else [])"
  by (simp add: piece_def outer_def doc_lines_eol)

lemma piece_eols:
  "\<forall>l \<in> set ls. LF \<notin> set l \<Longrightarrow> piece (eols ls) (filter (\<lambda>l. l \<noteq> [] \<and> \<not> starts_with ''    '' l) ls)"
  by (simp add: piece_def outer_def doc_lines_eols)

lemma piece_concat: "(\<And>x. x \<in> set xs \<Longrightarrow> piece (f x) (g x)) \<Longrightarrow> piece (concat (map f xs)) (concat (map g xs))"
  by (induction xs) (auto intro: piece_Nil piece_append)

text \<open>Text that is indented and therefore contributes nothing.\<close>

abbreviation inner :: "string \<Rightarrow> bool" where
  "inner s \<equiv> piece s []"

lemma inner_append [pieces]: "inner s \<Longrightarrow> inner t \<Longrightarrow> inner (s @ t)"
  using piece_append [of s "[]" t "[]"] by simp

lemma inner_concat: "(\<And>x. x \<in> set xs \<Longrightarrow> inner (f x)) \<Longrightarrow> inner (concat (map f xs))"
  by (induction xs) (auto intro: piece_Nil inner_append)

lemma inner_if [pieces]: "(b \<Longrightarrow> inner s) \<Longrightarrow> (\<not> b \<Longrightarrow> inner t) \<Longrightarrow> inner (if b then s else t)"
  by simp

lemma inner_eol [pieces]: "LF \<notin> set l \<Longrightarrow> starts_with ''    '' l \<Longrightarrow> inner (eol l)"
  using piece_eol [of l] by simp

lemma inner_eols [pieces]: "(\<And>l. l \<in> set ls \<Longrightarrow> LF \<notin> set l \<and> starts_with ''    '' l) \<Longrightarrow> inner (eols ls)"
  using piece_eols [of ls] by (simp add: filter_empty_conv)

lemma inner_yaml_field [pieces]: "LF \<notin> set key \<Longrightarrow> inner (yaml_field key v)"
  unfolding yaml_field_def by (rule inner_eol) (simp_all add: starts_with_def)

lemma inner_yaml_block_field [pieces]: "LF \<notin> set key \<Longrightarrow> inner (yaml_block_field key v)"
  unfolding yaml_block_field_def
  by (intro pieces) (auto simp: starts_with_def dest: str_lines_no_LF)

lemma inner_clash_credentials [pieces]: "inner (clash_credentials n)"
  unfolding clash_credentials_def
  by (intro pieces) (auto simp: starts_with_def)

lemma inner_clash_tls [pieces]: "inner (clash_tls n)"
  unfolding clash_tls_def by (intro pieces) (auto simp: starts_with_def)

lemma inner_clash_network [pieces]: "inner (clash_network n)"
  unfolding clash_network_def by (intro pieces) (auto simp: starts_with_def)

lemma piece_clash_node: "piece (clash_node n) [''  - name: '' @ yaml_quote (node_name n)]"
proof -
  have "piece (eol (''  - name: '' @ yaml_quote (node_name n))) [''  - name: '' @ yaml_quote (node_name n)]"
    using piece_eol [of "''  - name: '' @ yaml_quote (node_name n)"] by (simp add: starts_with_def)
  moreover have "inner (yaml_field ''type'' (show_kind n) @ yaml_field ''server'' (node_server n) @
     eol (''    port: '' @ show_nat (unat (node_port n))) @
     clash_credentials n @ clash_tls n @
     (if kind n = ''hysteria2'' \<and> node_obfs n = ''salamander'' then
        yaml_field ''obfs'' (node_obfs n) @ yaml_field ''obfs-password'' (obfs_password n) else []) @
     clash_network n)"
    by (intro pieces) (auto simp: starts_with_def)
  ultimately show ?thesis unfolding clash_node_def using piece_append by fastforce
qed

text \<open>What the lists contain: names without line breaks, in the tables also without blanks.\<close>

fun domain_of :: "DomainRule \<Rightarrow> string" where
  "domain_of (Exact d) = d"
| "domain_of (Suffix d) = d"

definition custom_ok :: "CustomRules \<Rightarrow> bool" where
  "custom_ok custom = (\<forall>r \<in> set (whitelist custom) \<union> set (blacklist custom). LF \<notin> set (domain_of r))"

definition specs_ok :: "RuleSpec list \<Rightarrow> bool" where
  "specs_ok rules = (\<forall>r \<in> set rules. \<forall>s \<in> set (sites r) \<union> set (ips r). LF \<notin> set s \<and> CHR '' '' \<notin> set s)"

lemma specs_ok_selected: "specs_ok (selected_rule_specs preset ad_block)"
proof -
  have "list_all (\<lambda>r. list_all (\<lambda>s. LF \<notin> set s \<and> CHR '' '' \<notin> set s) (sites r @ ips r)) (RULES @ CHINA_RULES)" by code_simp
  moreover have "set (selected_rule_specs preset ad_block) \<subseteq> set RULES \<union> set CHINA_RULES"
    by (auto simp: selected_rule_specs_def split: if_splits)
  ultimately show ?thesis by (fastforce simp: specs_ok_def list_all_iff)
qed

lemma LF_clash_domain_rule:
  "LF \<notin> set (domain_of r) \<Longrightarrow> LF \<notin> set policy \<Longrightarrow> LF \<notin> set pre \<Longrightarrow> LF \<notin> set (clash_domain_rule r policy pre)"
  by (cases r) simp_all

lemma LF_rule_policy [simp]: "LF \<notin> set (rule_policy a)"
  by (cases a) simp_all

lemma LF_clash_rule_lines: "specs_ok rules \<Longrightarrow> custom_ok custom \<Longrightarrow> l \<in> set (clash_rule_lines rules custom) \<Longrightarrow> LF \<notin> set l"
  by (auto simp: clash_rule_lines_def specs_ok_def custom_ok_def LF_clash_domain_rule)

lemma LF_surge_rule_lines: "specs_ok rules \<Longrightarrow> custom_ok custom \<Longrightarrow> l \<in> set (surge_rule_lines rules custom) \<Longrightarrow> LF \<notin> set l"
  by (auto simp: surge_rule_lines_def specs_ok_def custom_ok_def LF_clash_domain_rule)

definition provider_names :: "RuleSpec list \<Rightarrow> string list" where
  "provider_names rules = concat (map rule_tags rules)"

definition clash_outline :: "Node list \<Rightarrow> RuleSpec list \<Rightarrow> CustomRules \<Rightarrow> bool \<Rightarrow> bool \<Rightarrow> string list" where
  "clash_outline nodes rules custom use_mrs china =
     [''mixed-port: 7890'', ''mode: rule'', ''allow-lan: false'', ''log-level: warning'', ''proxies:''] @
     map (\<lambda>n. ''  - name: '' @ yaml_quote (node_name n)) nodes @ [''proxy-groups:'', ''  - name: PROXY''] @
     (if china \<and> use_mrs then filter (\<lambda>l. \<not> starts_with ''    '' l) (clash_dns_head @ clash_dns_tail) else []) @
     (if rules \<noteq> [] then ''rule-providers:'' # map (\<lambda>s. ''  '' @ s @ '':'') (provider_names rules) else []) @
     [''rules:''] @ clash_rule_lines rules custom"

lemma piece_provider:
  assumes "LF \<notin> set name" "LF \<notin> set behavior" "LF \<notin> set format" "CHR '' '' \<notin> set name"
  shows "piece (clash_provider name behavior url format china) [''  '' @ name @ '':'']"
proof -
  have "\<not> starts_with ''    '' (''  '' @ name @ '':'')"
    using assms(4) by (cases name; cases "tl name") (auto simp: starts_with_def)
  then show ?thesis
    using assms(1-3) piece_eols [of "[''  '' @ name @ '':'', ''    type: http'', ''    behavior: '' @ behavior, ''    format: '' @ format,
           ''    url: '' @ yaml_quote url, ''    path: '' @ yaml_quote (''./ruleset/'' @ name @ ''.'' @ format),
           ''    interval: 86400''] @ (if china then [''    proxy: DIRECT''] else [])"]
    unfolding clash_provider_def by (simp add: starts_with_def)
qed

lemma piece_providers:
  assumes "specs_ok rules" "LF \<notin> set format"
  shows "piece (clash_providers rules format china) (map (\<lambda>s. ''  '' @ s @ '':'') (provider_names rules))"
proof -
  let ?line = "\<lambda>s. [''  '' @ s @ '':'']"
  have "piece (concat (map (\<lambda>site. clash_provider site ''domain'' (SITE_RULE_BASE @ site @ ''.'' @ format) format china) (sites r)) @
       concat (map (\<lambda>ip. clash_provider (ip @ ''-ip'') ''ipcidr'' (IP_RULE_BASE @ ip @ ''.'' @ format) format china) (ips r)))
      (concat (map ?line (sites r)) @ concat (map (\<lambda>ip. ?line (ip @ ''-ip'')) (ips r)))" if "r \<in> set rules" for r
    using assms that by (intro piece_append piece_concat piece_provider) (auto simp: specs_ok_def)
  then have "piece (clash_providers rules format china)
      (concat (map (\<lambda>r. concat (map ?line (sites r)) @ concat (map (\<lambda>ip. ?line (ip @ ''-ip'')) (ips r))) rules))"
    unfolding clash_providers_def by (rule piece_concat)
  moreover have "concat (map (\<lambda>r. concat (map ?line (sites r)) @ concat (map (\<lambda>ip. ?line (ip @ ''-ip'')) (ips r))) rules) =
      map (\<lambda>s. ''  '' @ s @ '':'') (provider_names rules)"
    by (simp add: provider_names_def rule_tags_def map_concat concat_map_singleton o_def)
  ultimately show ?thesis by simp
qed

lemma piece_dns:
  assumes "custom_ok custom"
  shows "piece (eols clash_dns_head @
        concat (map (\<lambda>r. write_clash_domain_rule r ''real-ip'' ''    - '') (whitelist custom)) @ eols clash_dns_tail)
      (filter (\<lambda>l. \<not> starts_with ''    '' l) (clash_dns_head @ clash_dns_tail))"
proof -
  have ne: "list_all (\<lambda>l. l \<noteq> [] \<and> LF \<notin> set l) clash_dns_head" "list_all (\<lambda>l. l \<noteq> [] \<and> LF \<notin> set l) clash_dns_tail"
    by code_simp+
  have f: "piece (eols ls) (filter (\<lambda>l. \<not> starts_with ''    '' l) ls)" if "list_all (\<lambda>l. l \<noteq> [] \<and> LF \<notin> set l) ls" for ls
  proof -
    have "filter (\<lambda>l. l \<noteq> [] \<and> \<not> starts_with ''    '' l) ls = filter (\<lambda>l. \<not> starts_with ''    '' l) ls"
      using that by (intro filter_cong) (auto simp: list_all_iff)
    with piece_eols [of ls] that show ?thesis by (simp add: list_all_iff)
  qed
  have "inner (write_clash_domain_rule r ''real-ip'' ''    - '')" if "r \<in> set (whitelist custom)" for r
    unfolding write_clash_domain_rule_def
  proof (rule inner_eol)
    show "LF \<notin> set (clash_domain_rule r ''real-ip'' ''    - '')"
      using assms that by (intro LF_clash_domain_rule) (auto simp: custom_ok_def)
    show "starts_with ''    '' (clash_domain_rule r ''real-ip'' ''    - '')" by (cases r) (simp_all add: starts_with_def)
  qed
  then have "inner (concat (map (\<lambda>r. write_clash_domain_rule r ''real-ip'' ''    - '') (whitelist custom)))"
    by (rule inner_concat)
  from piece_append [OF f [OF ne(1)] piece_append [OF this f [OF ne(2)]]] show ?thesis by simp
qed

lemma clash_rule_lines_outer:
  assumes "specs_ok rules" "custom_ok custom"
  shows "piece (eols (clash_rule_lines rules custom)) (clash_rule_lines rules custom)"
proof -
  have "\<not> starts_with ''    '' (clash_domain_rule r p ''  - '')" for r p by (cases r) (simp_all add: starts_with_def)
  moreover have "clash_domain_rule r p ''  - '' \<noteq> []" for r p by (cases r) simp_all
  ultimately have "filter (\<lambda>l. l \<noteq> [] \<and> \<not> starts_with ''    '' l) (clash_rule_lines rules custom) = clash_rule_lines rules custom"
    by (auto simp: filter_id_conv clash_rule_lines_def starts_with_def)
  with piece_eols [of "clash_rule_lines rules custom"] LF_clash_rule_lines [OF assms] show ?thesis by simp
qed

lemma clash_outer:
  assumes "specs_ok rules" "custom_ok custom"
  shows "outer (render_clash nodes rules custom use_mrs china) = clash_outline nodes rules custom use_mrs china"
proof -
  have head: "piece (eols [''mixed-port: 7890'', ''mode: rule'', ''allow-lan: false'', ''log-level: warning'', ''proxies:''])
      [''mixed-port: 7890'', ''mode: rule'', ''allow-lan: false'', ''log-level: warning'', ''proxies:'']"
    using piece_eols [of "[''mixed-port: 7890'', ''mode: rule'', ''allow-lan: false'', ''log-level: warning'', ''proxies:'']"]
    by (simp add: starts_with_def)
  have group: "piece (eols [''proxy-groups:'', ''  - name: PROXY'', ''    type: select'', ''    proxies:''])
      [''proxy-groups:'', ''  - name: PROXY'']"
    using piece_eols [of "[''proxy-groups:'', ''  - name: PROXY'', ''    type: select'', ''    proxies:'']"]
    by (simp add: starts_with_def)
  have nodes: "piece (concat (map clash_node nodes)) (map (\<lambda>n. ''  - name: '' @ yaml_quote (node_name n)) nodes)"
    using piece_concat [of nodes clash_node, OF piece_clash_node] by (simp add: concat_map_singleton)
  have names: "inner (eols (map (\<lambda>name. ''      - '' @ yaml_quote name) (proxy_node_names nodes)))" "inner (eol ''      - DIRECT'')"
    by (auto intro!: pieces simp: starts_with_def)
  have rules: "piece (eol ''rules:'') [''rules:'']" "piece (eol ''rule-providers:'') [''rule-providers:'']"
    using piece_eol [of "''rules:''"] piece_eol [of "''rule-providers:''"] by (simp_all add: starts_with_def)
  have "LF \<notin> set (if use_mrs then ''mrs'' else ''yaml'')" by simp
  note prov = piece_providers [OF assms(1) this, of china]
  have dns: "piece (if china \<and> use_mrs then eols clash_dns_head @
        concat (map (\<lambda>r. write_clash_domain_rule r ''real-ip'' ''    - '') (whitelist custom)) @ eols clash_dns_tail else [])
      (if china \<and> use_mrs then filter (\<lambda>l. \<not> starts_with ''    '' l) (clash_dns_head @ clash_dns_tail) else [])"
    by (intro piece_if piece_dns [OF assms(2)] piece_Nil)
  have provs: "piece (if rules \<noteq> [] then eol ''rule-providers:'' @ clash_providers rules (if use_mrs then ''mrs'' else ''yaml'') china else [])
      (if rules \<noteq> [] then ''rule-providers:'' # map (\<lambda>s. ''  '' @ s @ '':'') (provider_names rules) else [])"
    using piece_append [OF rules(2) prov] by (simp add: piece_Nil)
  note last = clash_rule_lines_outer [OF assms]
  show ?thesis
    unfolding render_clash_def clash_outline_def
    by (rule outer_piece)
      (use piece_append [OF head piece_append [OF nodes piece_append [OF group piece_append [OF names(1)
         piece_append [OF names(2) piece_append [OF dns piece_append [OF provs piece_append [OF rules(1) last]]]]]]]]
       in simp)
qed

subsection \<open>Surge lines\<close>

lemma length_split_on: "length (split_on p s) = Suc (length (filter p s))"
  by (induction s) (auto split: list.splits)

lemma set_join: "set (join sep xs) \<subseteq> set sep \<union> (\<Union>x \<in> set xs. set x)"
  by (induction sep xs rule: join.induct) auto

lemma show_kind_chars: "node_ok n \<Longrightarrow> c \<in> set (show_kind n) \<Longrightarrow> c \<notin> {LF, CHR '',''}"
proof -
  assume "node_ok n"
  then have "show_kind n \<in> set [''ss'', ''vmess'', ''vless'', ''hysteria2'', ''tuic'', ''ssh'']"
    by (auto simp: node_ok_def show_kind_def)
  moreover have "list_all (list_all (\<lambda>c. c \<notin> {LF, CHR '',''})) [''ss'', ''vmess'', ''vless'', ''hysteria2'', ''tuic'', ''ssh'']"
    by code_simp
  ultimately show "c \<in> set (show_kind n) \<Longrightarrow> c \<notin> {LF, CHR '',''}" unfolding list_all_iff by blast
qed

lemma no_comma [simp]: "filter (\<lambda>c. c = CHR '','') (surge_value v) = []" "filter (\<lambda>c. c = CHR '','') (show_nat k) = []"
  using surge_value_chars [of "CHR '',''" v] LF_show_nat(2) [of k] by (auto simp: filter_empty_conv)

lemma LF_surge_node: "node_ok n \<Longrightarrow> LF \<notin> set (surge_node n)"
  using show_kind_chars [of n LF] by (auto simp: surge_node_def)

text \<open>The number of comma-separated fields of a node's line.\<close>

definition surge_fields :: "Node \<Rightarrow> nat" where
  "surge_fields n = 3 + (if kind n = ''shadowsocks'' then 2 else 1) + (if node_tls n then 1 else 0) +
     (if sni n \<noteq> [] then 1 else 0)"

lemma surge_node_fields:
  assumes "node_ok n"
  shows "length (split_on (\<lambda>c. c = CHR '','') (surge_node n)) = surge_fields n"
proof -
  have "filter (\<lambda>c. c = CHR '','') (show_kind n) = []"
    using show_kind_chars [OF assms, of "CHR '',''"] by (auto simp: filter_empty_conv)
  then show ?thesis by (simp add: length_split_on surge_node_def surge_fields_def)
qed

definition surge_outline :: "Node list \<Rightarrow> RuleSpec list \<Rightarrow> CustomRules \<Rightarrow> bool \<Rightarrow> string list" where
  "surge_outline nodes rules custom china =
     [''[General]'', ''loglevel = notify''] @ (if china then [''dns-server = 223.5.5.5, 119.29.29.29''] else []) @
     [[], ''[Proxy]''] @ map surge_node nodes @ [[], ''[Proxy Group]''] @
     [''PROXY = select,'' @ join '','' (map surge_value (proxy_node_names nodes)) @ '',DIRECT''] @
     [[], ''[Rule]''] @ surge_rule_lines rules custom @ [[]]"

lemma surge_lines:
  assumes "specs_ok rules" "custom_ok custom" "\<forall>n \<in> set nodes. node_ok n"
  shows "doc_lines (render_surge nodes rules custom china) = surge_outline nodes rules custom china"
proof -
  let ?group = "''PROXY = select,'' @ join '','' (map surge_value (proxy_node_names nodes)) @ '',DIRECT''"
  have eq: "render_surge nodes rules custom china =
      eols ([''[General]'', ''loglevel = notify''] @ (if china then [''dns-server = 223.5.5.5, 119.29.29.29''] else []) @
        [[], ''[Proxy]''] @ map surge_node nodes @ [[], ''[Proxy Group]''] @ [?group] @
        [[], ''[Rule]''] @ surge_rule_lines rules custom) @ []"
    by (simp add: render_surge_def eols_def)
  have "LF \<notin> set ?group" using set_join [of "'',''" "map surge_value (proxy_node_names nodes)"] by auto
  then have "\<forall>l \<in> set ([''[General]'', ''loglevel = notify''] @ (if china then [''dns-server = 223.5.5.5, 119.29.29.29''] else []) @
        [[], ''[Proxy]''] @ map surge_node nodes @ [[], ''[Proxy Group]''] @ [?group] @
        [[], ''[Rule]''] @ surge_rule_lines rules custom). LF \<notin> set l"
    using assms LF_surge_node LF_surge_rule_lines [OF assms(1,2)] by (auto split: if_splits)
  from doc_lines_eols [OF this, of "[]"] show ?thesis unfolding eq surge_outline_def by simp
qed

section \<open>References in a sing-box configuration\<close>

fun value_strings :: "Value \<Rightarrow> string list" where
  "value_strings (VString s) = [s]"
| "value_strings (VArray vs) = concat (map (\<lambda>v. case v of VString s \<Rightarrow> [s] | _ \<Rightarrow> []) vs)"
| "value_strings _ = []"

text \<open>The strings under a key of some objects.\<close>

definition mentions :: "string \<Rightarrow> Value list \<Rightarrow> string list" where
  "mentions k vs = concat (map (\<lambda>v. case value_get k v of Some x \<Rightarrow> value_strings x | None \<Rightarrow> []) vs)"

lemma mentions_Nil [simp]: "mentions k [] = []"
  by (simp add: mentions_def)

lemma mentions_Cons [simp]:
  "mentions k (v # vs) = (case value_get k v of Some x \<Rightarrow> value_strings x | None \<Rightarrow> []) @ mentions k vs"
  by (simp add: mentions_def)

lemma mentions_append [simp]: "mentions k (vs @ ws) = mentions k vs @ mentions k ws"
  by (simp add: mentions_def)

lemma value_strings_strings [simp]: "value_strings (strings xs) = xs"
  by (induction xs) (simp_all add: strings_def)

lemma rule_set_tags: "mentions ''tag'' (singbox_rule_sets rules) = provider_names rules"
proof -
  have "mentions ''tag'' (map (\<lambda>x. remote_rule_set (f x) (g x)) xs) = map f xs" for f g :: "string \<Rightarrow> string" and xs
    by (induction xs) (simp_all add: remote_rule_set_def)
  from this [of "\<lambda>x. x"] this [of "\<lambda>ip. ip @ ''-ip''"] show ?thesis
    by (induction rules) (simp_all add: singbox_rule_sets_def provider_names_def rule_tags_def)
qed

lemma domain_fields_keys: "k \<notin> {''domain'', ''domain_suffix''} \<Longrightarrow> map_of (domain_fields rs) k = None"
  by (auto simp: domain_fields_def split: prod.splits)

lemma custom_rule_mentions:
  "mentions ''rule_set'' (push_singbox_custom_rule rs a) = []"
  "set (mentions ''outbound'' (push_singbox_custom_rule rs a)) \<subseteq> {''PROXY'', ''DIRECT''}"
  by (cases a, simp_all add: push_singbox_custom_rule_def domain_fields_keys map_add_def)
     (cases a, simp_all add: push_singbox_custom_rule_def domain_fields_keys map_add_def)

lemma dns_rule_mentions:
  "mentions ''rule_set'' (push_singbox_dns_rule rs act server) = []"
  "set (mentions ''server'' (push_singbox_dns_rule rs act server)) \<subseteq> set_option server"
  by (cases server; simp add: push_singbox_dns_rule_def domain_fields_keys map_add_def)
     (cases server; simp add: push_singbox_dns_rule_def domain_fields_keys map_add_def)

lemma route_rule_mentions:
  "mentions ''rule_set'' (singbox_route_rules rules custom) = provider_names rules"
  "set (mentions ''outbound'' (singbox_route_rules rules custom)) \<subseteq> {''PROXY'', ''DIRECT''}"
proof -
  have a: "fst (action_field act) \<noteq> ''rule_set''" for act by (cases act) simp_all
  have r: "mentions ''rule_set'' (map (\<lambda>r. VObject [(''rule_set'', strings (sites r @ map (\<lambda>ip. ip @ ''-ip'') (ips r))),
                       action_field (rule_action r)]) rules) = provider_names rules"
    by (induction rules) (simp_all add: provider_names_def rule_tags_def)
  then show "mentions ''rule_set'' (singbox_route_rules rules custom) = provider_names rules"
    by (simp add: singbox_route_rules_def custom_rule_mentions)
  have "set (mentions ''outbound'' (map (\<lambda>r. VObject [(''rule_set'', strings (sites r @ map (\<lambda>ip. ip @ ''-ip'') (ips r))),
                       action_field (rule_action r)]) rules)) \<subseteq> {''PROXY'', ''DIRECT''}"
  proof (induction rules)
    case (Cons r rules)
    then show ?case by (cases "rule_action r") simp_all
  qed simp
  then show "set (mentions ''outbound'' (singbox_route_rules rules custom)) \<subseteq> {''PROXY'', ''DIRECT''}"
    using custom_rule_mentions(2) by (auto simp: singbox_route_rules_def)
qed

lemma outbound_tags: "mentions ''tag'' (singbox_outbounds nodes) = map node_name nodes @ [''PROXY'', ''DIRECT'']"
proof -
  have "mentions ''tag'' (map singbox_node nodes) = map node_name nodes"
    by (induction nodes) (simp_all add: singbox_node_def)
  then show ?thesis by (simp add: singbox_outbounds_def)
qed

lemma provider_names_distinct: "distinct (provider_names (selected_rule_specs preset ad_block))"
  unfolding provider_names_def by (rule selected_tags_distinct)

lemma china_tags:
  "set (mentions ''rule_set'' (china_dns_rules custom)) \<subseteq> set (provider_names (selected_rule_specs (Some China) ad_block))"
proof -
  have "list_all (\<lambda>b. list_all (\<lambda>t. t \<in> set (provider_names (selected_rule_specs (Some China) b)))
     [''private'', ''apple-cn'', ''microsoft@cn'', ''steam@cn'', ''category-games@cn'', ''bilibili'', ''geolocation-cn'', ''cn''])
     [True, False]" by code_simp
  then have "list_all (\<lambda>t. t \<in> set (provider_names (selected_rule_specs (Some China) ad_block)))
     [''private'', ''apple-cn'', ''microsoft@cn'', ''steam@cn'', ''category-games@cn'', ''bilibili'', ''geolocation-cn'', ''cn'']"
    by (cases ad_block) simp_all
  then show ?thesis by (simp add: china_dns_rules_def dns_rule_mentions)
qed

lemma china_servers: "set (mentions ''server'' (china_dns_rules custom)) \<subseteq> set (mentions ''tag'' china_dns_servers)"
  using dns_rule_mentions(2) by (fastforce simp: china_dns_rules_def china_dns_servers_def)

lemma proxy_node_names_set:
  "set (proxy_node_names nodes) \<subseteq> set (map node_name nodes)"
  "n \<in> set nodes \<Longrightarrow> kind n \<in> {''ssh'', ''vless'', ''hysteria2''} \<Longrightarrow> node_name n \<in> set (proxy_node_names nodes)"
  by (auto simp: proxy_node_names_def Let_def list_ex_iff)

section \<open>Properties\<close>


definition hostile_node :: Node where
  "hostile_node = (Node_empty ''hysteria2'' [])\<lparr>node_name := [LF] @ ''rules:'' @ [LF] @ ''  - MATCH,DIRECT'',
     password := [CHR '','', LF], node_server := ''h''\<rparr>"




end
