(* ===== verification/Sublink_Service.thy ===== *)
theory Sublink_Service
  imports Sublink_Store Sublink_Render
begin

text \<open>
  The subscription service of \<^verbatim>\<open>src/src/sublink.rs\<close>: conversion of an input to a document, and the short
  links over the store. The store's mutex makes each operation one step on the store and the file
  system.
\<close>

section \<open>Formats and codes\<close>

definition FORMATS :: "string list" where
  "FORMATS = [''singbox'', ''clash'', ''surge'', ''xray'']"

definition format_for_prefix :: "string \<Rightarrow> string option" where
  "format_for_prefix p =
     (if p = ''b'' then Some ''singbox'' else if p = ''c'' then Some ''clash''
      else if p = ''s'' then Some ''surge'' else if p = ''x'' then Some ''xray'' else None)"

definition auto_format :: "string \<Rightarrow> string \<Rightarrow> string" where
  "auto_format user_agent accept =
     (let ua = to_ascii_lowercase user_agent; accept = to_ascii_lowercase accept in
      if list_ex (\<lambda>p. str_contains p ua) [''clash'', ''mihomo'', ''verge'', ''stash'', ''flclash'', ''nyanpasu'',
           ''clashmi'', ''sparkle'', ''surfboard''] then ''clash''
      else if str_contains ''surge'' ua then ''surge''
      else if str_contains ''sing-box'' ua \<or> str_contains ''singbox'' ua \<or> starts_with ''sfa/'' ua \<or>
           starts_with ''sfi/'' ua \<or> starts_with ''sfm/'' ua then ''singbox''
      else if str_contains ''yaml'' accept \<or> str_contains ''yml'' accept then ''clash''
      else if str_contains ''json'' accept then ''singbox''
      else ''xray'')"

definition normalize_format :: "string \<Rightarrow> string result" where
  "normalize_format format =
     (let f = to_ascii_lowercase (trim format) in
      if f \<in> {''singbox'', ''sing-box'', ''json''} then Ok ''singbox''
      else if f \<in> {''clash'', ''mihomo'', ''yaml'', ''yml''} then Ok ''clash''
      else if f = ''surge'' then Ok ''surge''
      else if f \<in> {''xray'', ''v2ray'', ''base64'', ''universal''} then Ok ''xray''
      else Err ''unsupported output format'')"

definition supports_mrs_format :: "string \<Rightarrow> bool" where
  "supports_mrs_format user_agent =
     (let ua = to_ascii_lowercase user_agent in
      if list_ex (\<lambda>p. str_contains p ua) [''mihomo'', ''meta'', ''clash-verge'', ''verge'', ''stash'', ''flclash'',
           ''nyanpasu'', ''clashmi'', ''sparkle''] then True
      else \<not> str_contains ''merlin'' ua \<and> \<not> str_contains ''clashforwindows'' ua \<and>
           \<not> str_contains ''clashforandroid'' ua \<and> \<not> str_contains ''clash/'' ua)"

definition valid_code :: "string \<Rightarrow> bool" where
  "valid_code c =
     (c \<noteq> [] \<and> length c \<le> 32 \<and> list_all (\<lambda>b. is_ascii_alphanumeric b \<or> b \<in> {CHR ''-'', CHR ''_''}) c)"

definition split_short_path :: "string \<Rightarrow> (string \<times> string) result" where
  "split_short_path path =
     (case split_on (\<lambda>c. c = CHR ''/'') (trim_start_matches CHR ''/'' path) of
        [pre, c] \<Rightarrow> if pre \<noteq> [] \<and> valid_code c then Ok (pre, c) else Err ''invalid short URL''
      | _ \<Rightarrow> Err ''invalid short URL'')"

definition CODE_ALPHABET :: string where
  "CODE_ALPHABET = ''ABCDEFGHIJKLMNOPQRSTUVWXYZabcdefghijklmnopqrstuvwxyz0123456789''"

text \<open>\<open>random\<close> is the result of filling seven bytes.\<close>

definition random_code :: "bytes option \<Rightarrow> string result" where
  "random_code random =
     and_then (ok_or random ''generate short code'') (\<lambda>bs.
     Ok (map (\<lambda>b. CODE_ALPHABET ! (unat b mod length CODE_ALPHABET)) bs))"

definition stable_code :: "sub_libs \<Rightarrow> bytes \<Rightarrow> string" where
  "stable_code L v = hex_string (take 10 (blake2s L v))"

section \<open>Conversion\<close>

record SublinkOutput =
  content_type :: string
  body :: string
  profile_name :: string
  file_extension :: string

definition convert_with_rule_format ::
  "sub_libs \<Rightarrow> string \<Rightarrow> string \<Rightarrow> string option \<Rightarrow> bool \<Rightarrow> string option \<Rightarrow> string option \<Rightarrow> bool \<Rightarrow>
   SublinkOutput result" where
  "convert_with_rule_format L format input selected ad_block white black clash_mrs =
     and_then (parse_input L input) (\<lambda>nodes.
     let compatible = (if format = ''clash'' then nodes else filter (\<lambda>n. kind n \<noteq> ''ssh'') nodes) in
     and_then (ensure (compatible \<noteq> []) ''output format does not support any subscription nodes'') (\<lambda>_.
     and_then (case selected of None \<Rightarrow> Ok None | Some s \<Rightarrow> map_sum id Some (parse_rule_preset s)) (\<lambda>preset.
     let rules = selected_rule_specs preset ad_block in
     and_then (parse_custom_rules (host_parse L) white black) (\<lambda>custom.
     let china = (preset = Some China);
         name = subscription_name nodes;
         out = (\<lambda>ct b ext. \<lparr>content_type = ct, body = b, profile_name = name, file_extension = ext\<rparr>)
     in if format = ''singbox'' then
          and_then (render_singbox L compatible rules custom china) (\<lambda>b.
          Ok (out ''application/json; charset=utf-8'' b ''json''))
        else if format = ''clash'' then
          Ok (out ''text/yaml; charset=utf-8'' (render_clash compatible rules custom clash_mrs china) ''yaml'')
        else if format = ''surge'' then
          Ok (out ''text/plain; charset=utf-8'' (render_surge compatible rules custom china) ''conf'')
        else if format = ''xray'' then
          Ok (out ''text/plain; charset=utf-8''
                (base64_encode L (as_bytes (join [CHR 0x0A] (map original compatible)))) ''txt'')
        else Err ''unsupported output format''))))"

definition convert_with_custom_rules ::
  "sub_libs \<Rightarrow> string \<Rightarrow> string \<Rightarrow> string option \<Rightarrow> bool \<Rightarrow> string option \<Rightarrow> string option \<Rightarrow> SublinkOutput result" where
  "convert_with_custom_rules L format input selected ad_block white black =
     convert_with_rule_format L format input selected ad_block white black True"

section \<open>Short links\<close>

definition convert_with_rules :: "sub_libs \<Rightarrow> string \<Rightarrow> string \<Rightarrow> string option \<Rightarrow> bool \<Rightarrow> SublinkOutput result" where
  "convert_with_rules L format input selected ad_block = convert_with_custom_rules L format input selected ad_block None None"

definition convert :: "sub_libs \<Rightarrow> string \<Rightarrow> string \<Rightarrow> SublinkOutput result" where
  "convert L format input = convert_with_rules L format input None False"

definition known_path :: "Url \<Rightarrow> bool" where
  "known_path url = list_ex (\<lambda>f. url_path url = ''/'' @ f) FORMATS"

definition nonempty_query :: "Url \<Rightarrow> string result" where
  "nonempty_query url =
     and_then (ok_or (case url_query url of Some q \<Rightarrow> if q \<noteq> [] then Some q else None | None \<Rightarrow> None)
       ''invalid URL parameter'') (\<lambda>query.
     and_then (ensure (length query \<le> MAX_INPUT_BYTES) ''URL parameter is too large'') (\<lambda>_. Ok query))"

definition shorten ::
  "sub_libs \<Rightarrow> bytes option \<Rightarrow> nat \<Rightarrow> nat \<Rightarrow> string \<Rightarrow> string option \<Rightarrow> ShortStore \<Rightarrow>
   (string result \<times> ShortStore) option" where
  "shorten L random now later raw_url requested st =
     (case and_then (ok_or (url_parse L raw_url) ''invalid URL parameter'') (\<lambda>url.
           and_then (ensure (known_path url) ''invalid URL parameter'') (\<lambda>_.
           and_then (nonempty_query url) (\<lambda>query.
           and_then (case requested of
                       Some c \<Rightarrow> and_then (ensure (valid_code c) ''invalid short code'') (\<lambda>_. Ok c)
                     | None \<Rightarrow> random_code random) (\<lambda>c.
           Ok (c, ''?'' @ query))))) of
        Err e \<Rightarrow> Some (Err e, st)
      | Ok (c, q) \<Rightarrow>
          map_option (\<lambda>(r, st). (and_then r (\<lambda>_. Ok c), st)) (put now later c q st))"

definition primary_hy2 :: "sub_libs \<Rightarrow> Url \<Rightarrow> string \<Rightarrow> string result" where
  "primary_hy2 L url config =
     (case query_value_optional url [''identity''] of
        Some identity \<Rightarrow>
          and_then (map_err (\<lambda>_. ''invalid HY2 identity parameter'') (parse_input L identity)) (\<lambda>nodes.
          and_then (ensure (length nodes = 1 \<and> kind (nodes ! 0) = ''hysteria2'') ''invalid HY2 identity parameter'') (\<lambda>_.
          Ok (trim identity)))
      | None \<Rightarrow>
          ok_or (find (starts_with ''hysteria2://'') (map trim (str_lines config))) ''invalid HY2 URL parameter'')"

definition hy2_query :: "sub_libs \<Rightarrow> string \<Rightarrow> string option \<Rightarrow> bool \<Rightarrow> string option \<Rightarrow> string option \<Rightarrow> string" where
  "hy2_query L config selected ad_block white black =
     (let given = (\<lambda>key v. case v of Some s \<Rightarrow> if trim s \<noteq> [] then [(key, s)] else [] | None \<Rightarrow> []) in
      form_serialize L ([(''config'', config)] @
        (case selected of Some s \<Rightarrow> [(''selectedRules'', s)] | None \<Rightarrow> []) @
        (if ad_block then [(''adblock'', ''true'')] else []) @
        given ''whitelist'' white @ given ''blacklist'' black))"

text \<open>The code and the query of a Hysteria link, before it is stored.\<close>

definition hy2_link :: "sub_libs \<Rightarrow> string \<Rightarrow> (string \<times> string) result" where
  "hy2_link L raw_url =
     and_then (ok_or (url_parse L raw_url) ''invalid URL parameter'') (\<lambda>url.
     and_then (ensure (url_path url = ''/xray'') ''invalid HY2 URL parameter'') (\<lambda>_.
     let config = query_value url [''config''] in
     and_then (map_err (\<lambda>_. ''invalid HY2 URL parameter'') (parse_input L config)) (\<lambda>nodes.
     and_then (ensure (nodes \<noteq> [] \<and> list_all (\<lambda>n. kind n \<in> {''hysteria2'', ''vless'', ''ssh''}) nodes)
                 ''invalid HY2 URL parameter'') (\<lambda>_.
     and_then (ensure (length config \<le> MAX_INPUT_BYTES) ''URL parameter is too large'') (\<lambda>_.
     and_then (primary_hy2 L url config) (\<lambda>primary.
     let selected = query_value_optional url [''selectedRules''];
         white = query_value_optional url [''whitelist''];
         black = query_value_optional url [''blacklist'']
     in and_then (case selected of None \<Rightarrow> Ok () | Some s \<Rightarrow> and_then (parse_rule_preset s) (\<lambda>_. Ok ())) (\<lambda>_.
        and_then (parse_custom_rules (host_parse L) white black) (\<lambda>_.
        Ok (stable_code L (as_bytes primary),
            ''?'' @ hy2_query L config selected (query_bool url [''adblock'']) white black)))))))))"

definition shorten_hy2 ::
  "sub_libs \<Rightarrow> links_print \<Rightarrow> persist_io \<Rightarrow> string \<Rightarrow> ShortStore \<Rightarrow> files \<Rightarrow> string result \<times> ShortStore \<times> files" where
  "shorten_hy2 L print io raw_url st files =
     (case hy2_link L raw_url of
        Err e \<Rightarrow> (Err e, st, files)
      | Ok (c, q) \<Rightarrow>
          (let (r, st, files) = put_permanent print io c q st files
           in (and_then r (\<lambda>_. Ok c), st, files)))"

definition auto_link :: "sub_libs \<Rightarrow> string \<Rightarrow> (string \<times> string) result" where
  "auto_link L raw_url =
     and_then (ok_or (url_parse L raw_url) ''invalid URL parameter'') (\<lambda>url.
     and_then (ensure (known_path url) ''invalid URL parameter'') (\<lambda>_.
     let config = query_value url [''config''] in
     and_then (ensure (config \<noteq> []) ''invalid URL parameter'') (\<lambda>_.
     and_then (ensure (length config \<le> MAX_INPUT_BYTES) ''URL parameter is too large'') (\<lambda>_.
     and_then (case query_value_optional url [''selectedRules''] of
                 None \<Rightarrow> Ok () | Some s \<Rightarrow> and_then (parse_rule_preset s) (\<lambda>_. Ok ())) (\<lambda>_.
     and_then (parse_custom_rules (host_parse L) (query_value_optional url [''whitelist''])
                 (query_value_optional url [''blacklist''])) (\<lambda>_.
     and_then (nonempty_query url) (\<lambda>query.
     Ok (stable_code L (as_bytes query), ''?'' @ query))))))))"

definition shorten_auto ::
  "sub_libs \<Rightarrow> links_print \<Rightarrow> persist_io \<Rightarrow> u64 \<Rightarrow> string \<Rightarrow> ShortStore \<Rightarrow> files \<Rightarrow> string result \<times> ShortStore \<times> files" where
  "shorten_auto L print io unix raw_url st files =
     (case auto_link L raw_url of
        Err e \<Rightarrow> (Err e, st, files)
      | Ok (c, q) \<Rightarrow>
          (let (r, st, files) = put_persisted_expiring print io unix c q st files
           in (and_then r (\<lambda>_. Ok c), st, files)))"

definition redirect :: "nat \<Rightarrow> u64 \<Rightarrow> string \<Rightarrow> string \<Rightarrow> ShortStore \<Rightarrow> string result \<times> ShortStore" where
  "redirect now unix pre c st =
     (case and_then (ok_or (format_for_prefix pre) ''invalid short URL'') (\<lambda>format.
           and_then (ensure (valid_code c) ''invalid short URL'') (\<lambda>_. Ok format)) of
        Err e \<Rightarrow> (Err e, st)
      | Ok format \<Rightarrow>
          (let (found, st) = get now unix c st
           in (and_then (ok_or found ''short URL not found'') (\<lambda>query. Ok (''/'' @ format @ query)), st)))"

definition auto_output ::
  "sub_libs \<Rightarrow> string \<Rightarrow> string \<Rightarrow> string \<Rightarrow> string option \<Rightarrow> string option \<Rightarrow> u16 option \<Rightarrow> bool \<Rightarrow> SublinkOutput result" where
  "auto_output L query user_agent accept requested server port tcp_only =
     and_then (ok_or (url_parse L (''https://short.local/xray'' @ query)) ''invalid short URL'') (\<lambda>url.
     and_then (if server \<noteq> None \<or> port \<noteq> None \<or> tcp_only
               then rewrite_subscription_input L (query_value url [''config'']) server port tcp_only
               else Ok (query_value url [''config''])) (\<lambda>config.
     and_then (case requested of None \<Rightarrow> Ok (auto_format user_agent accept) | Some f \<Rightarrow> normalize_format f) (\<lambda>format.
     convert_with_rule_format L format config (query_value_optional url [''selectedRules''])
       (query_bool url [''adblock'']) (query_value_optional url [''whitelist''])
       (query_value_optional url [''blacklist'']) (supports_mrs_format user_agent))))"

definition auto_with_overrides ::
  "sub_libs \<Rightarrow> nat \<Rightarrow> u64 \<Rightarrow> string \<Rightarrow> string \<Rightarrow> string \<Rightarrow> string option \<Rightarrow> string option \<Rightarrow> u16 option \<Rightarrow> bool \<Rightarrow>
   ShortStore \<Rightarrow> SublinkOutput result \<times> ShortStore" where
  "auto_with_overrides L now unix c user_agent accept requested server port tcp_only st =
     (if \<not> valid_code c then (Err ''invalid short URL'', st)
      else
        let (found, st) = get now unix c st
        in (and_then (ok_or found ''short URL not found'') (\<lambda>query.
            auto_output L query user_agent accept requested server port tcp_only), st))"

definition auto_with_format ::
  "sub_libs \<Rightarrow> nat \<Rightarrow> u64 \<Rightarrow> string \<Rightarrow> string \<Rightarrow> string \<Rightarrow> string option \<Rightarrow> ShortStore \<Rightarrow> SublinkOutput result \<times> ShortStore" where
  "auto_with_format L now unix c user_agent accept requested st =
     auto_with_overrides L now unix c user_agent accept requested None None False st"

definition auto :: "sub_libs \<Rightarrow> nat \<Rightarrow> u64 \<Rightarrow> string \<Rightarrow> string \<Rightarrow> string \<Rightarrow> ShortStore \<Rightarrow> SublinkOutput result \<times> ShortStore" where
  "auto L now unix c user_agent accept st = auto_with_format L now unix c user_agent accept None st"

definition resolve_short ::
  "sub_libs \<Rightarrow> nat \<Rightarrow> u64 \<Rightarrow> string \<Rightarrow> ShortStore \<Rightarrow> Value result \<times> ShortStore" where
  "resolve_short L now unix raw_url st =
     (case and_then (ok_or (url_parse L raw_url) ''invalid short URL'') (\<lambda>url.
           and_then (split_short_path (url_path url)) (\<lambda>(pre, c).
           and_then (ok_or (format_for_prefix pre) ''invalid short URL'') (\<lambda>format.
           Ok (url, c, format)))) of
        Err e \<Rightarrow> (Err e, st)
      | Ok (url, c, format) \<Rightarrow>
          (let (found, st) = get now unix c st
           in (and_then (ok_or found ''short URL not found'') (\<lambda>query.
               Ok (VObject [(''originalUrl'', VString (url_origin url @ ''/'' @ format @ query))])), st)))"

section \<open>Lemmas\<close>

lemma stable_code_valid:
  assumes "\<forall>bs. length (blake2s L bs) = 32"
  shows "valid_code (stable_code L v)" "length (stable_code L v) = 20"
proof -
  show "length (stable_code L v) = 20" using assms by (simp add: stable_code_def)
  moreover from this have "stable_code L v \<noteq> []" by auto
  ultimately show "valid_code (stable_code L v)"
    using hex_string_alnum [of "take 10 (blake2s L v)"]
    by (auto simp: valid_code_def stable_code_def list_all_iff)
qed

lemma hy2_link_code:
  assumes "hy2_link L raw_url = Ok (c, q)"
  shows "\<exists>v rest. c = stable_code L v \<and> q = ''?'' @ rest"
  using assms by (auto simp: hy2_link_def result_simps Let_def)

lemma shorten_hy2_Ok:
  assumes "shorten_hy2 L print io raw_url st files = (Ok c, st', files')"
  shows "\<exists>q. hy2_link L raw_url = Ok (c, q) \<and> put_permanent print io c q st files = (Ok (), st', files')"
  using assms by (auto simp: shorten_hy2_def result_simps Let_def split: sum.splits prod.splits)

lemma redirect_found:
  assumes "valid_code c" "format_for_prefix pre = Some format" "fst (get now unix c st) = Some q"
  shows "fst (redirect now unix pre c st) = Ok (''/'' @ format @ q)"
  using assms by (auto simp: redirect_def Let_def ensure_def split: prod.splits)

lemma no_custom_rules: "parse_custom_rules h None None = Ok \<lparr>whitelist = [], blacklist = []\<rparr>"
proof -
  have "trim [] = []" by (rule graphic_no_white_space) simp
  then have "parse_domain_rules h [] label = Ok []" for label
    by (simp add: parse_domain_rules_def ensure_def Let_def)
  then show ?thesis by (simp add: parse_custom_rules_def unwrap_or_default_def)
qed

section \<open>Properties\<close>

text \<open>C27: a universal subscription reads back. The Base64 document that the service produces, parsed as an
  input again, yields exactly the nodes of the original input that the format supports, unless the
  text or its encoding exceeds the input limit. The Base64 library is correct.\<close>

theorem xray_roundtrip:
  assumes "base64_ok L" "convert_with_rule_format L ''xray'' input selected ad_block white black mrs = Ok out"
    and "parse_input L input = Ok nodes"
  defines "text \<equiv> join [CHR 0x0A] (map original (filter (\<lambda>n. kind n \<noteq> ''ssh'') nodes))"
  assumes "valid_str text" "length text \<le> MAX_INPUT_BYTES" "length (body out) \<le> MAX_INPUT_BYTES"
  shows "parse_input L (body out) = Ok (filter (\<lambda>n. kind n \<noteq> ''ssh'') nodes)"
proof -
  let ?ns = "filter (\<lambda>n. kind n \<noteq> ''ssh'') nodes"
  have b: "body out = base64_encode L (as_bytes text)" "?ns \<noteq> []"
    using assms(2,3) by (auto simp: convert_with_rule_format_def result_simps Let_def text_def)
  have r: "parse_input_recursive L (trim input) 0 [] = Ok nodes"
    using assms(3) by (auto simp: parse_input_def Let_def result_simps split: if_splits)
  from parse_recursive_sound(1) [OF r]
  have n: "length nodes \<le> MAX_NODES" "\<forall>n \<in> set nodes. uri_line (original n) \<and> parse_node L (original n) = Ok n"
    by auto
  have "length ?ns \<le> MAX_NODES" using n(1) length_filter_le le_trans by blast
  then show ?thesis
    using parse_encoded_nodes [OF assms(1) b(2)] n(2) assms(5-7) b(1) unfolding text_def by simp
qed

theorem xray_roundtrip_witness:
  "\<exists>n out. convert_with_rule_format example_sub_libs ''xray'' ''hy2://u@h'' None False None None True = Ok out \<and>
     parse_input example_sub_libs (body out) = Ok [n] \<and> original n = ''hy2://u@h''"
proof -
  let ?L = example_sub_libs
  obtain n where n: "parse_input ?L ''hy2://u@h'' = Ok [n]" "original n = ''hy2://u@h''" "kind n = ''hysteria2''"
    using example_parse_input by blast
  obtain out where out: "convert_with_rule_format ?L ''xray'' ''hy2://u@h'' None False None None True = Ok out"
    "body out = base64_encode ?L (as_bytes ''hy2://u@h'')"
    using n by (simp add: convert_with_rule_format_def no_custom_rules ensure_def)
  have "valid_str ''hy2://u@h''" by code_simp
  moreover have "length (body out) \<le> MAX_INPUT_BYTES" unfolding out(2) by (simp add: example_sub_libs_def)
  ultimately have "parse_input ?L (body out) = Ok (filter (\<lambda>n. kind n \<noteq> ''ssh'') [n])"
    using n by (intro xray_roundtrip [OF example_base64_ok out(1) n(1)]) simp_all
  with out n show ?thesis by auto
qed


definition link_url :: Url where
  "link_url = example_url\<lparr>url_path := ''/xray'',
     url_query_pairs := [(''config'', ''hy2://u@h''), (''identity'', ''hy2://u@h'')]\<rparr>"

definition link_libs :: sub_libs where
  "link_libs = example_sub_libs\<lparr>url_parse :=
     (\<lambda>s. if s = ''hy2://u@h'' then Some example_url else if s = ''r'' then Some link_url else None)\<rparr>"

lemma example_hy2_link: "hy2_link link_libs ''r'' = Ok (stable_code link_libs (as_bytes ''hy2://u@h''), ''?config=x'')"
proof -
  obtain n where n: "parse_input link_libs ''hy2://u@h'' = Ok [n]" "kind n = ''hysteria2''"
    using parse_example_input [of link_libs] by (auto simp: link_libs_def example_sub_libs_def)
  have u: "url_parse link_libs ''r'' = Some link_url" by (simp add: link_libs_def)
  have q: "query_value link_url [''config''] = ''hy2://u@h''" "query_value_optional link_url [''identity''] = Some ''hy2://u@h''"
    "query_value_optional link_url [''selectedRules''] = None" "query_value_optional link_url [''whitelist''] = None"
    "query_value_optional link_url [''blacklist''] = None" "query_bool link_url [''adblock''] = False"
    "url_path link_url = ''/xray''"
    by code_simp+
  have "primary_hy2 link_libs link_url ''hy2://u@h'' = Ok ''hy2://u@h''"
    using n by (simp add: primary_hy2_def q example_trim ensure_def)
  then show ?thesis
    using n by (simp add: hy2_link_def u q no_custom_rules ensure_def hy2_query_def Let_def)
      (simp add: link_libs_def example_sub_libs_def)
qed


end
