(* ===== verification/Admin_Api.thy ===== *)
theory Admin_Api
  imports Admin_Auth Sublink_Service
begin

text \<open>
  The rest of the management interface (\<^verbatim>\<open>src/src/admin.rs\<close>): the addresses a shared configuration
  advertises, reading and saving the configuration, the loop that restarts the proxy on a reload, the
  status page, and the subscription endpoints with their response headers. Network probes, the query
  parser, Base64 and percent encoding are arguments.
\<close>

section \<open>Addresses\<close>

text \<open>The predicates of \<^verbatim>\<open>std::net::Ipv4Addr\<close> and \<^verbatim>\<open>Ipv6Addr\<close>.\<close>

definition octets4 :: "u32 \<Rightarrow> nat list" where
  "octets4 a = map unat (be_bytes 4 a)"

definition is_private4 :: "u32 \<Rightarrow> bool" where
  "is_private4 a =
     (let q = octets4 a in
      q ! 0 = 10 \<or> q ! 0 = 172 \<and> 16 \<le> q ! 1 \<and> q ! 1 \<le> 31 \<or> q ! 0 = 192 \<and> q ! 1 = 168)"

definition is_link_local4 :: "u32 \<Rightarrow> bool" where
  "is_link_local4 a = (octets4 a ! 0 = 169 \<and> octets4 a ! 1 = 254)"

definition is_multicast6 :: "128 word \<Rightarrow> bool" where
  "is_multicast6 a = (segments a ! 0 AND 0xff00 = 0xff00)"

definition ipv4_scope :: "u32 \<Rightarrow> string" where
  "ipv4_scope a =
     (let q = octets4 a;
          carrier_nat = (q ! 0 = 100 \<and> 64 \<le> q ! 1 \<and> q ! 1 \<le> 127);
          documentation = (q ! 0 = 192 \<and> q ! 1 = 0 \<and> q ! 2 = 2 \<or> q ! 0 = 198 \<and> q ! 1 = 51 \<and> q ! 2 = 100 \<or>
                           q ! 0 = 203 \<and> q ! 1 = 0 \<and> q ! 2 = 113)
      in if is_private4 a \<or> is_link_local4 a \<or> carrier_nat \<or> documentation then ''private''
         else if is_loopback (IpV4 a) \<or> is_unspecified (IpV4 a) then ''local''
         else ''public'')"

definition is_public_ipv6 :: "128 word \<Rightarrow> bool" where
  "is_public_ipv6 a =
     (let s = segments a in
      \<not> (is_unspecified (IpV6 a) \<or> is_loopback (IpV6 a) \<or> is_multicast6 a \<or> s ! 0 AND 0xfe00 = 0xfc00 \<or>
         s ! 0 AND 0xffc0 = 0xfe80 \<or> s ! 0 = 0x2001 \<and> s ! 1 = 0x0db8))"

definition ipv6_scope :: "128 word \<Rightarrow> string" where
  "ipv6_scope a =
     (if is_public_ipv6 a then ''public''
      else if segments a ! 0 AND 0xfe00 = 0xfc00 \<or> segments a ! 0 AND 0xffc0 = 0xfe80 then ''private''
      else ''local'')"

text \<open>The local address of a probing socket, if binding and connecting it succeeds.\<close>

record probes =
  pr_local4 :: "IpAddr option"
  pr_local6 :: "IpAddr option"

definition probe_ipv4_route :: "probes \<Rightarrow> u32 option" where
  "probe_ipv4_route pr =
     (case pr_local4 pr of Some (IpV4 a) \<Rightarrow> if is_unspecified (IpV4 a) then None else Some a | _ \<Rightarrow> None)"

definition probe_ipv6_route :: "probes \<Rightarrow> (128 word) option" where
  "probe_ipv6_route pr =
     (case pr_local6 pr of Some (IpV6 a) \<Rightarrow> if is_unspecified (IpV6 a) then None else Some a | _ \<Rightarrow> None)"

definition detect_network_addresses :: "probes \<Rightarrow> SocketAddr \<Rightarrow> u32 option \<times> (128 word) option" where
  "detect_network_addresses pr addr =
     (case ip_of addr of
        IpV4 a \<Rightarrow> if \<not> is_unspecified (IpV4 a) then (Some a, None) else (probe_ipv4_route pr, None)
      | IpV6 a \<Rightarrow> if \<not> is_unspecified (IpV6 a) then (None, Some a) else (probe_ipv4_route pr, probe_ipv6_route pr))"

definition merge_auto_ipv4_address :: "string \<Rightarrow> u32 option \<Rightarrow> string" where
  "merge_auto_ipv4_address existing detected =
     (if trim existing \<noteq> [] then existing else (case detected of None \<Rightarrow> [] | Some a \<Rightarrow> show_ipv4 a))"

definition merge_auto_ipv6_address :: "string \<Rightarrow> (128 word) option \<Rightarrow> string" where
  "merge_auto_ipv6_address existing detected =
     (if trim existing \<noteq> [] then existing
      else (case detected of Some a \<Rightarrow> if is_public_ipv6 a then show_ipv6 a else [] | None \<Rightarrow> []))"

definition apply_auto_share_addresses :: "probes \<Rightarrow> Config \<Rightarrow> Config" where
  "apply_auto_share_addresses pr c =
     (case share c of
        None \<Rightarrow> c
      | Some s \<Rightarrow>
          (case detect_network_addresses pr (listen c) of (v4, v6) \<Rightarrow>
           if v4 = None \<and> v6 = None then c
           else c\<lparr>share := Some (s\<lparr>share_server := merge_auto_ipv4_address (share_server s) v4,
                                  share_ipv6_server := merge_auto_ipv6_address (share_ipv6_server s) v6\<rparr>)\<rparr>))"

text \<open>\<open>outcomes\<close> are the results of connecting to the probe addresses within their timeout.\<close>

definition probe_tcp_connectivity :: "unit result option list \<Rightarrow> bool" where
  "probe_tcp_connectivity outcomes =
     list_ex (\<lambda>r. case r of Some r \<Rightarrow> is_ok r | None \<Rightarrow> False) outcomes"

text \<open>The five messages of the page, by their meaning.\<close>

datatype capability_message = Ipv6_In_Ipv4_Out | Prefer_Ipv4 | Ipv4_Outlet | Ipv6_Outlet_Only | No_Outlet

record NetworkCapabilitiesResponse =
  nc_ipv4_address :: "u32 option"
  nc_ipv6_address :: "(128 word) option"
  nc_ipv4_scope :: string
  nc_ipv6_scope :: string
  nc_ipv4_outbound :: bool
  nc_ipv6_outbound :: bool
  nc_public_ipv6 :: bool
  nc_ipv6_to_ipv4_available :: bool
  nc_message :: capability_message

definition capabilities :: "probes \<Rightarrow> unit result option list \<Rightarrow> unit result option list \<Rightarrow> NetworkCapabilitiesResponse" where
  "capabilities pr outcomes4 outcomes6 =
     (let a4 = probe_ipv4_route pr; a6 = probe_ipv6_route pr;
          out4 = probe_tcp_connectivity outcomes4; out6 = probe_tcp_connectivity outcomes6;
          public6 = (case a6 of Some a \<Rightarrow> is_public_ipv6 a | None \<Rightarrow> False);
          available = (public6 \<and> out4)
      in \<lparr>nc_ipv4_address = a4, nc_ipv6_address = a6,
          nc_ipv4_scope = (case a4 of None \<Rightarrow> ''unavailable'' | Some a \<Rightarrow> ipv4_scope a),
          nc_ipv6_scope = (case a6 of None \<Rightarrow> ''unavailable'' | Some a \<Rightarrow> ipv6_scope a),
          nc_ipv4_outbound = out4, nc_ipv6_outbound = out6, nc_public_ipv6 = public6,
          nc_ipv6_to_ipv4_available = available,
          nc_message = (if available then Ipv6_In_Ipv4_Out else if out4 \<and> out6 then Prefer_Ipv4
                        else if out4 then Ipv4_Outlet else if out6 then Ipv6_Outlet_Only else No_Outlet)\<rparr>)"

section \<open>The configuration and the proxy loop\<close>

record toml_lib =
  tl_print :: "Config \<Rightarrow> string option"
  tl_parse :: "string \<Rightarrow> Config option"
  tl_with_tmp :: "path \<Rightarrow> path"

record RuntimeState =
  rt_running :: bool
  rt_generation :: u64
  rt_started_at :: "nat option"
  rt_listen :: "string option"
  rt_service_address :: "string option"
  rt_users :: nat
  rt_udp_enabled :: bool
  rt_tcp_enabled :: bool
  rt_obfs :: bool
  rt_up_mbps :: u64
  rt_down_mbps :: u64
  rt_last_error :: "string option"

definition RuntimeState_default :: RuntimeState where
  "RuntimeState_default =
     \<lparr>rt_running = False, rt_generation = 0, rt_started_at = None, rt_listen = None, rt_service_address = None, rt_users = 0,
      rt_udp_enabled = False, rt_tcp_enabled = False, rt_obfs = False, rt_up_mbps = 0, rt_down_mbps = 0, rt_last_error = None\<rparr>"

definition service_address :: "Config \<Rightarrow> string" where
  "service_address c =
     (case share c of
        None \<Rightarrow> show_socket_addr (listen c)
      | Some s \<Rightarrow>
          if trim (share_server s) = []
          then ''['' @ share_ipv6_server s @ '']:'' @ show_nat (unat (share_port s))
          else share_server s @ '':'' @ show_nat (unat (share_port s)))"

text \<open>What the loop waits for: a reload after a configuration that does not load, the running server,
  or a reload after the server ended. The reload queue is that of the handlers.\<close>

datatype phase =
    Broken
  | Serving Config
  | Stopped
  | Exited

record main_state =
  ms_phase :: phase
  ms_generation :: u64
  ms_runtime :: RuntimeState
  ms_queue :: nat

definition begin_generation :: "probes \<Rightarrow> nat \<Rightarrow> Config result \<Rightarrow> main_state \<Rightarrow> main_state" where
  "begin_generation pr now loaded m =
     (case loaded of
        Err e \<Rightarrow> m\<lparr>ms_phase := Broken, ms_runtime := (ms_runtime m)\<lparr>rt_running := False, rt_last_error := Some e\<rparr>\<rparr>
      | Ok c \<Rightarrow>
          let c = apply_auto_share_addresses pr c;
              generation = saturating_add (ms_generation m) 1
          in m\<lparr>ms_phase := Serving c, ms_generation := generation,
               ms_runtime := \<lparr>rt_running = True, rt_generation = generation, rt_started_at = Some now,
                 rt_listen = Some (show_socket_addr (listen c)), rt_service_address = Some (service_address c),
                 rt_users = length (users c), rt_udp_enabled = udp_enabled (udp c), rt_tcp_enabled = True,
                 rt_obfs = (obfs c \<noteq> None), rt_up_mbps = up_mbps (bandwidth c), rt_down_mbps = down_mbps (bandwidth c),
                 rt_last_error = None\<rparr>\<rparr>)"

definition record_server_result :: "unit result \<Rightarrow> RuntimeState \<Rightarrow> RuntimeState" where
  "record_server_result r rt =
     rt\<lparr>rt_running := False, rt_last_error := (case r of Ok _ \<Rightarrow> None | Err e \<Rightarrow> Some e)\<rparr>"

text \<open>A reload is taken from the queue in any waiting phase; \<open>r\<close> is the result of a server that is shut
  down or that ends by itself. The loop holds a sender of its own queue, so the queue never closes.\<close>

definition handle_reload ::
  "probes \<Rightarrow> nat \<Rightarrow> Config result \<Rightarrow> unit result \<Rightarrow> main_state \<Rightarrow> main_state" where
  "handle_reload pr now loaded r m =
     (let m = m\<lparr>ms_queue := ms_queue m - 1\<rparr> in
      case ms_phase m of
        Serving _ \<Rightarrow> begin_generation pr now loaded (m\<lparr>ms_runtime := record_server_result r (ms_runtime m)\<rparr>)
      | Exited \<Rightarrow> m
      | _ \<Rightarrow> begin_generation pr now loaded m)"

definition server_ended :: "unit result \<Rightarrow> main_state \<Rightarrow> main_state" where
  "server_ended r m = m\<lparr>ms_phase := Stopped, ms_runtime := record_server_result r (ms_runtime m)\<rparr>"

definition interrupted :: "unit result \<Rightarrow> main_state \<Rightarrow> main_state" where
  "interrupted r m =
     (case ms_phase m of
        Serving _ \<Rightarrow> m\<lparr>ms_phase := Exited, ms_runtime := record_server_result r (ms_runtime m)\<rparr>
      | _ \<Rightarrow> m\<lparr>ms_phase := Exited\<rparr>)"

text \<open>The loop, interleaved with the handlers that queue reloads; \<open>loaded\<close> is what reading the configuration
  file gives at that moment. The channel holds four commands, and a handler waits while it is full.\<close>

abbreviation COMMAND_CAPACITY :: nat where "COMMAND_CAPACITY \<equiv> 4"

inductive loop_step :: "main_state \<Rightarrow> main_state \<Rightarrow> bool" where
  queue_reload: "ms_queue m < COMMAND_CAPACITY \<Longrightarrow> loop_step m (m\<lparr>ms_queue := ms_queue m + 1\<rparr>)"
| take_reload: "ms_queue m > 0 \<Longrightarrow> ms_phase m \<noteq> Exited \<Longrightarrow> loop_step m (handle_reload pr now loaded r m)"
| server_end: "ms_phase m = Serving c \<Longrightarrow> loop_step m (server_ended r m)"
| interrupt: "ms_phase m \<noteq> Exited \<Longrightarrow> loop_step m (interrupted r m)"

text \<open>The loop starts by loading the configuration with no reload queued.\<close>

inductive loop_reachable :: "main_state \<Rightarrow> bool" where
  start: "loop_reachable (begin_generation pr now loaded
     \<lparr>ms_phase = Broken, ms_generation = 0, ms_runtime = RuntimeState_default, ms_queue = 0\<rparr>)"
| step: "loop_reachable m \<Longrightarrow> loop_step m m' \<Longrightarrow> loop_reachable m'"

inductive_cases loop_stepE [elim!]: "loop_step m m'"

text \<open>\<open>auth\<close> is the result of \<open>authorize\<close> on the request; \<open>receiving\<close> whether the loop still receives commands.\<close>

definition get_config :: "libs \<Rightarrow> toml_lib \<Rightarrow> probes \<Rightarrow> unit api \<Rightarrow> path \<Rightarrow> fs \<Rightarrow> Config api" where
  "get_config lb tm pr auth path files =
     and_then auth (\<lambda>_.
     and_then (map_err bad_request (load (tl_parse tm) lb files path)) (\<lambda>c. Ok (apply_auto_share_addresses pr c)))"

definition get_vless_users ::
  "libs \<Rightarrow> toml_lib \<Rightarrow> (bytes \<Rightarrow> bytes) \<Rightarrow> unit api \<Rightarrow> path \<Rightarrow> fs \<Rightarrow> (string \<times> string) list api" where
  "get_vless_users lb tm sha256 auth path files =
     and_then auth (\<lambda>_.
     and_then (map_err bad_request (load (tl_parse tm) lb files path)) (\<lambda>c.
     Ok (map (\<lambda>u. (user_name u, user_id_string sha256 (user_name u) (user_password u))) (users c))))"

definition check_outbound_route :: "probes \<Rightarrow> OutboundMode \<Rightarrow> unit api" where
  "check_outbound_route pr mode =
     (if mode = Ipv4Only \<and> probe_ipv4_route pr = None
      then Err (bad_request ''IPv4-only outbound requires an available IPv4 route'')
      else if mode = Ipv6Only \<and> probe_ipv6_route pr = None
      then Err (bad_request ''IPv6-only outbound requires an available IPv6 route'')
      else Ok ())"

text \<open>Queueing a reload waits for room in the channel; this is the state after the wait.\<close>

definition send_reload :: "bool \<Rightarrow> main_state \<Rightarrow> unit api \<times> main_state" where
  "send_reload receiving m =
     (if receiving then (Ok (), m\<lparr>ms_queue := ms_queue m + 1\<rparr>) else (Err (internal ''channel closed''), m))"

definition put_config ::
  "libs \<Rightarrow> toml_lib \<Rightarrow> fs_ops \<Rightarrow> probes \<Rightarrow> unit api \<Rightarrow> bool \<Rightarrow> path \<Rightarrow> Config \<Rightarrow> fs \<Rightarrow> main_state \<Rightarrow>
   unit api \<times> fs \<times> main_state" where
  "put_config lb tm ops pr auth receiving path c files m =
     (let c = apply_auto_share_addresses pr c in
      case and_then auth (\<lambda>_. and_then (map_err bad_request (validate lb c)) (\<lambda>_. check_outbound_route pr (outbound_mode c))) of
        Err e \<Rightarrow> (Err e, files, m)
      | Ok _ \<Rightarrow>
          (case save_atomic (tl_print tm) lb (tl_with_tmp tm) ops c path files of
             (Err e, files) \<Rightarrow> (Err (internal e), files, m)
           | (Ok _, files) \<Rightarrow> (let (r, m) = send_reload receiving m in (r, files, m))))"

definition reload :: "libs \<Rightarrow> toml_lib \<Rightarrow> unit api \<Rightarrow> bool \<Rightarrow> path \<Rightarrow> fs \<Rightarrow> main_state \<Rightarrow> unit api \<times> main_state" where
  "reload lb tm auth receiving path files m =
     (case and_then auth (\<lambda>_. map_err bad_request (load (tl_parse tm) lb files path)) of
        Err e \<Rightarrow> (Err e, m)
      | Ok _ \<Rightarrow> send_reload receiving m)"

definition put_reverse_proxy ::
  "libs \<Rightarrow> (ReverseProxySettings \<Rightarrow> string option) \<Rightarrow> (path \<Rightarrow> path) \<Rightarrow> rp_ops \<Rightarrow> string \<Rightarrow> nat \<Rightarrow> unit api \<Rightarrow>
   ReverseProxySettings \<Rightarrow> controller \<Rightarrow> fs \<Rightarrow> ReverseProxyStatus api \<times> controller \<times> fs" where
  "put_reverse_proxy lb toml_print with_tmp ops device now auth s ct files =
     (case and_then auth (\<lambda>_. map_err bad_request (rp_validate lb s)) of
        Err e \<Rightarrow> (Err e, ct, files)
      | Ok _ \<Rightarrow>
          (case controller_update toml_print lb with_tmp ops device now s ct files of
             (r, ct, files) \<Rightarrow> (map_err internal r, ct, files)))"

record StatusResponse =
  sr_runtime :: RuntimeState
  sr_uptime_secs :: nat
  sr_webui_listen :: string
  sr_traffic :: "UserTrafficSnapshot list"

definition status :: "unit api \<Rightarrow> nat \<Rightarrow> string \<Rightarrow> TrafficRegistry \<Rightarrow> main_state \<Rightarrow> StatusResponse api" where
  "status auth now webui r m =
     and_then auth (\<lambda>_.
     Ok \<lparr>sr_runtime = ms_runtime m, sr_uptime_secs = (case rt_started_at (ms_runtime m) of None \<Rightarrow> 0 | Some t \<Rightarrow> now - t),
         sr_webui_listen = webui, sr_traffic = snapshots r\<rparr>)"

section \<open>Subscription endpoints\<close>

text \<open>The decoded query of a request, if it has one; the encoders of the response headers.\<close>

type_synonym uri_query = "(string \<times> string) list option"

definition uri_parameter :: "uri_query \<Rightarrow> string \<Rightarrow> string option" where
  "uri_parameter q name =
     Option.bind q (\<lambda>pairs. map_option snd (find (\<lambda>(key, _). eq_ignore_ascii_case key name) pairs))"

definition sublink_error :: "nat \<Rightarrow> string \<Rightarrow> http_response" where
  "sublink_error st message =
     \<lparr>hs_status = st, hs_headers = [(''content-type'', ''text/plain; charset=utf-8'')], hs_body = as_bytes message\<rparr>"

definition sublink_status :: "string \<Rightarrow> nat" where
  "sublink_status message =
     (if str_contains ''not found'' message then 404 else if str_contains ''disabled'' message then 501 else 400)"

text \<open>\<^verbatim>\<open>chars().map\<close> over the bytes of a string: a character outside ASCII is its first byte, its other bytes
  disappear.\<close>

definition ascii_profile_name :: "string \<Rightarrow> string" where
  "ascii_profile_name name =
     (let first = filter (\<lambda>c. \<not> (128 \<le> code c \<and> code c < 192)) name;
          mapped = map (\<lambda>c. if is_ascii_alphanumeric c \<or> c = CHR ''-'' \<or> c = CHR ''_'' then c else CHR ''_'') first;
          trimmed = trim_end_matches CHR ''_'' (trim_start_matches CHR ''_'' mapped)
      in if trimmed = [] then ''subscription'' else trimmed)"

text \<open>\<^verbatim>\<open>HeaderValue::from_str\<close> accepts the tab and bytes from 32 up, except 127.\<close>

definition header_value_valid :: "string \<Rightarrow> bool" where
  "header_value_valid v = list_all (\<lambda>c. code c = 9 \<or> 32 \<le> code c \<and> code c \<noteq> 127) v"

record header_encoders =
  he_base64 :: "bytes \<Rightarrow> string"
  he_percent :: "string \<Rightarrow> string"

definition disposition :: "header_encoders \<Rightarrow> SublinkOutput \<Rightarrow> string" where
  "disposition he out =
     ''attachment; filename='' @ [CHR 0x22] @ ascii_profile_name (profile_name out) @ ''.'' @ file_extension out @ [CHR 0x22] @
     ''; filename*=UTF-8'' @ [CHR 0x27, CHR 0x27] @ he_percent he (profile_name out) @ ''.'' @ file_extension out"

text \<open>\<open>None\<close> is the panic of an \<^verbatim>\<open>expect\<close>.\<close>

definition sublink_output_response :: "header_encoders \<Rightarrow> SublinkOutput \<Rightarrow> http_response option" where
  "sublink_output_response he out =
     (let title = ''base64:'' @ he_base64 he (as_bytes (profile_name out)) in
      if \<not> header_value_valid title \<or> \<not> header_value_valid (disposition he out) then None
      else Some \<lparr>hs_status = 200,
        hs_headers = [(''content-type'', content_type out), (''cache-control'', ''no-store''),
          (''x-content-type-options'', ''nosniff''), (''profile-title'', title), (''profile-update-interval'', ''24''),
          (''content-disposition'', disposition he out)],
        hs_body = as_bytes (body out)\<rparr>)"

definition sublink_convert :: "sub_libs \<Rightarrow> header_encoders \<Rightarrow> string \<Rightarrow> uri_query \<Rightarrow> http_response option" where
  "sublink_convert L he format q =
     (case uri_parameter q ''config'' of
        None \<Rightarrow> Some (sublink_error 400 ''missing config parameter'')
      | Some input \<Rightarrow>
          let ad_block = (case uri_parameter q ''adblock'' of
                            Some v \<Rightarrow> v = ''1'' \<or> eq_ignore_ascii_case v ''true'' | None \<Rightarrow> False)
          in (case convert_with_custom_rules L format input (uri_parameter q ''selectedRules'') ad_block
                     (uri_parameter q ''whitelist'') (uri_parameter q ''blacklist'') of
                Ok out \<Rightarrow> sublink_output_response he out
              | Err e \<Rightarrow> Some (sublink_error 400 e)))"

definition short_response :: "string result \<Rightarrow> http_response" where
  "short_response r =
     (case r of
        Ok c \<Rightarrow> \<lparr>hs_status = 200, hs_headers = [(''content-type'', ''text/plain; charset=utf-8'')], hs_body = as_bytes c\<rparr>
      | Err e \<Rightarrow> sublink_error (sublink_status e) e)"

definition sublink_shorten ::
  "sub_libs \<Rightarrow> bytes option \<Rightarrow> nat \<Rightarrow> nat \<Rightarrow> uri_query \<Rightarrow> ShortStore \<Rightarrow> (http_response \<times> ShortStore) option" where
  "sublink_shorten L random now later q st =
     (case uri_parameter q ''url'' of
        None \<Rightarrow> Some (sublink_error 400 ''missing URL parameter'', st)
      | Some u \<Rightarrow> map_option (\<lambda>(r, st). (short_response r, st)) (shorten L random now later u (uri_parameter q ''shortCode'') st))"

definition sublink_shorten_hy2 ::
  "sub_libs \<Rightarrow> links_print \<Rightarrow> persist_io \<Rightarrow> uri_query \<Rightarrow> ShortStore \<Rightarrow> files \<Rightarrow> http_response \<times> ShortStore \<times> files" where
  "sublink_shorten_hy2 L print io q st files =
     (case uri_parameter q ''url'' of
        None \<Rightarrow> (sublink_error 400 ''missing URL parameter'', st, files)
      | Some u \<Rightarrow> (case shorten_hy2 L print io u st files of (r, st, files) \<Rightarrow> (short_response r, st, files)))"

definition sublink_shorten_auto ::
  "sub_libs \<Rightarrow> links_print \<Rightarrow> persist_io \<Rightarrow> u64 \<Rightarrow> uri_query \<Rightarrow> ShortStore \<Rightarrow> files \<Rightarrow> http_response \<times> ShortStore \<times> files" where
  "sublink_shorten_auto L print io unix q st files =
     (case uri_parameter q ''url'' of
        None \<Rightarrow> (sublink_error 400 ''missing URL parameter'', st, files)
      | Some u \<Rightarrow> (case shorten_auto L print io unix u st files of (r, st, files) \<Rightarrow> (short_response r, st, files)))"

definition sublink_auto ::
  "sub_libs \<Rightarrow> header_encoders \<Rightarrow> nat \<Rightarrow> u64 \<Rightarrow> headers \<Rightarrow> string \<Rightarrow> uri_query \<Rightarrow> ShortStore \<Rightarrow> http_response option \<times> ShortStore" where
  "sublink_auto L he now unix hs c q st =
     (let user_agent = header_str ''user-agent'' hs; accept = header_str ''accept'' hs;
          requested = (case uri_parameter q ''format'' of Some f \<Rightarrow> Some f | None \<Rightarrow> uri_parameter q ''target'');
          port = (case uri_parameter q ''port'' of
                    None \<Rightarrow> Ok None
                  | Some p \<Rightarrow> (case parse_uint 16 p of Some n \<Rightarrow> if n > 0 then Ok (Some (word_of_nat n)) else Err () | None \<Rightarrow> Err ()));
          tcp_only = (case uri_parameter q ''tcp_only'' of Some v \<Rightarrow> v = ''1'' \<or> v = ''true'' | None \<Rightarrow> False)
      in case port of
           Err _ \<Rightarrow> (Some (sublink_error 400 ''invalid subscription port''), st)
         | Ok port \<Rightarrow>
             (case auto_with_overrides L now unix c user_agent accept requested (uri_parameter q ''server'') port tcp_only st of
                (Ok out, st) \<Rightarrow> (sublink_output_response he out, st)
              | (Err e, st) \<Rightarrow> (Some (sublink_error (sublink_status e) e), st)))"

definition sublink_redirect :: "nat \<Rightarrow> u64 \<Rightarrow> string \<Rightarrow> string \<Rightarrow> ShortStore \<Rightarrow> http_response \<times> ShortStore" where
  "sublink_redirect now unix pre c st =
     (case redirect now unix pre c st of
        (Ok location, st) \<Rightarrow> (\<lparr>hs_status = 302, hs_headers = [(''location'', location)], hs_body = []\<rparr>, st)
      | (Err e, st) \<Rightarrow> (sublink_error (sublink_status e) e, st))"

definition sublink_resolve ::
  "sub_libs \<Rightarrow> (Value \<Rightarrow> string) \<Rightarrow> nat \<Rightarrow> u64 \<Rightarrow> uri_query \<Rightarrow> ShortStore \<Rightarrow> http_response \<times> ShortStore" where
  "sublink_resolve L print now unix q st =
     (case uri_parameter q ''url'' of
        None \<Rightarrow> (sublink_error 400 ''missing URL parameter'', st)
      | Some u \<Rightarrow>
          (case resolve_short L now unix u st of
             (Ok v, st) \<Rightarrow> (\<lparr>hs_status = 200, hs_headers = [(''content-type'', ''application/json; charset=utf-8'')],
                            hs_body = as_bytes (print v)\<rparr>, st)
           | (Err e, st) \<Rightarrow> (sublink_error (sublink_status e) e, st)))"

section \<open>Lemmas\<close>

subsection \<open>Addresses\<close>

text \<open>The textual forms of addresses have no white space.\<close>

lemma graphic_join:
  "list_all is_ascii_graphic sep \<Longrightarrow> \<forall>s \<in> set ss. list_all is_ascii_graphic s \<Longrightarrow> list_all is_ascii_graphic (join sep ss)"
  by (induction sep ss rule: join.induct) simp_all

lemma graphic_alnum: "list_all is_ascii_alphanumeric s \<Longrightarrow> list_all is_ascii_graphic s"
  by (auto simp: list_all_iff is_ascii_alphanumeric_def is_ascii_digit_def is_ascii_graphic_def)

lemma graphic_show_nat: "list_all is_ascii_graphic (show_nat n)"
  using show_nat_digits [of n] by (intro graphic_alnum) (auto simp: list_all_iff is_ascii_alphanumeric_def)

lemma graphic_show_hex: "list_all is_ascii_graphic (show_hex n)"
proof (rule graphic_alnum, induction n rule: show_hex.induct)
  case (1 n)
  then show ?case by (subst show_hex.simps) (simp add: hex_digit_alnum)
qed

lemma graphic_show_ip: "list_all is_ascii_graphic (show_ipv4 a)" "list_all is_ascii_graphic (show_ipv6 b)"
proof -
  have c: "is_ascii_graphic (CHR ''.'')" "is_ascii_graphic (CHR '':'')" "is_ascii_graphic (CHR ''f'')" by code_simp+
  have v4: "list_all is_ascii_graphic (show_ipv4 x)" for x
    unfolding show_ipv4_def using c graphic_show_nat by (intro graphic_join) auto
  moreover have "list_all is_ascii_graphic (show_segments ss)" for ss
    unfolding show_segments_def using c graphic_show_hex by (intro graphic_join) auto
  ultimately show "list_all is_ascii_graphic (show_ipv4 a)" "list_all is_ascii_graphic (show_ipv6 b)"
    using c by (simp_all add: show_ipv6_def split: prod.split)
qed

text \<open>Detecting addresses a second time changes nothing.\<close>

lemma merge_auto_idem:
  "merge_auto_ipv4_address (merge_auto_ipv4_address s v4) v4 = merge_auto_ipv4_address s v4"
    "merge_auto_ipv6_address (merge_auto_ipv6_address s v6) v6 = merge_auto_ipv6_address s v6"
  using graphic_no_white_space [OF graphic_show_ip(1)] graphic_no_white_space [OF graphic_show_ip(2)]
  by (auto simp: merge_auto_ipv4_address_def merge_auto_ipv6_address_def split: option.splits)

lemma apply_auto_idem: "apply_auto_share_addresses pr (apply_auto_share_addresses pr c) = apply_auto_share_addresses pr c"
  by (auto simp: apply_auto_share_addresses_def merge_auto_idem split: option.split prod.split)

lemma apply_auto_listen: "listen (apply_auto_share_addresses pr c) = listen c" "users (apply_auto_share_addresses pr c) = users c"
  "outbound_mode (apply_auto_share_addresses pr c) = outbound_mode c"
  by (simp_all add: apply_auto_share_addresses_def split: option.split prod.split)

subsection \<open>Headers\<close>

lemma set_trim_matches: "set (trim_end_matches c (trim_start_matches c s)) \<subseteq> set s"
  unfolding trim_end_matches_def trim_start_matches_def by (auto dest!: set_dropWhileD)

lemma ascii_profile_name_chars:
  "ascii_profile_name name \<noteq> [] \<and> list_all token_char (ascii_profile_name name)"
proof -
  define mapped where "mapped = map (\<lambda>c. if is_ascii_alphanumeric c \<or> c = CHR ''-'' \<or> c = CHR ''_'' then c else CHR ''_'')
    (filter (\<lambda>c. \<not> (128 \<le> code c \<and> code c < 192)) name)"
  have "\<forall>c \<in> set mapped. token_char c" by (auto simp: mapped_def token_char_def)
  then have "list_all token_char (trim_end_matches CHR ''_'' (trim_start_matches CHR ''_'' mapped))"
    using set_trim_matches [of "CHR ''_''" mapped] by (auto simp: list_all_iff)
  moreover have "list_all token_char ''subscription''" by code_simp
  ultimately show ?thesis unfolding ascii_profile_name_def Let_def mapped_def [symmetric] by simp
qed

lemma token_char_header: "token_char c \<Longrightarrow> 32 \<le> code c \<and> code c \<noteq> 127"
  using token_char_codes(1) [of c] by (simp add: is_ascii_graphic_def)

text \<open>The alphabets of the two encoders.\<close>

definition encoders_ok :: "header_encoders \<Rightarrow> bool" where
  "encoders_ok he =
     ((\<forall>bs. list_all (\<lambda>c. is_ascii_alphanumeric c \<or> c \<in> {CHR ''+'', CHR ''/'', CHR ''=''}) (he_base64 he bs)) \<and>
      (\<forall>t. list_all (\<lambda>c. is_ascii_alphanumeric c \<or> c = CHR 0x25) (he_percent he t)))"

lemma encoded_chars:
  "is_ascii_alphanumeric c \<or> c \<in> {CHR ''+'', CHR ''/'', CHR ''=''} \<Longrightarrow> 32 \<le> code c \<and> code c \<noteq> 127"
  "is_ascii_alphanumeric c \<or> c = CHR 0x25 \<Longrightarrow> 32 \<le> code c \<and> code c \<noteq> 127"
  by (auto simp: is_ascii_alphanumeric_def is_ascii_digit_def code_def)

lemma header_value_valid_append: "header_value_valid (s @ t) \<longleftrightarrow> header_value_valid s \<and> header_value_valid t"
  by (simp add: header_value_valid_def)

lemma and_then_OkE: "and_then r f = Ok y \<Longrightarrow> (\<And>x. f x = Ok y \<Longrightarrow> P) \<Longrightarrow> P"
  by (auto simp: and_then_eq_Ok)

lemma if_OkE: "(if b then r else r') = Ok y \<Longrightarrow> (r = Ok y \<Longrightarrow> P) \<Longrightarrow> (r' = Ok y \<Longrightarrow> P) \<Longrightarrow> P"
  by (cases b) simp_all

lemma convert_extension:
  assumes "convert_with_rule_format L format input selected ad_block white black mrs = Ok out"
  shows "file_extension out \<in> {''json'', ''yaml'', ''conf'', ''txt''} \<and> header_value_valid (content_type out)"
proof -
  have ct: "header_value_valid ''application/json; charset=utf-8''" "header_value_valid ''text/yaml; charset=utf-8''"
    "header_value_valid ''text/plain; charset=utf-8''" by code_simp+
  have P: "Ok \<lparr>content_type = ct, body = b, profile_name = name, file_extension = ext\<rparr> = (Ok out :: SublinkOutput result) \<Longrightarrow>
      header_value_valid ct \<Longrightarrow> ext \<in> {''json'', ''yaml'', ''conf'', ''txt''} \<Longrightarrow> ?thesis" for ct b name ext
    by (auto simp del: insert_iff)
  show ?thesis
    using assms unfolding convert_with_rule_format_def Let_def
    apply (elim and_then_OkE if_OkE)
    apply (erule P, rule ct, rule insertI1)
    apply (erule P, rule ct, rule insertI2, rule insertI1)
    apply (erule P, rule ct, rule insertI2, rule insertI2, rule insertI1)
    apply (erule P, rule ct, rule insertI2, rule insertI2, rule insertI2, rule insertI1)
    apply (simp only: sum.distinct)
    done
qed

lemma output_response_valid:
  assumes "encoders_ok he" "file_extension out \<in> {''json'', ''yaml'', ''conf'', ''txt''}" "header_value_valid (content_type out)"
  shows "\<exists>r. sublink_output_response he out = Some r \<and> hs_status r = 200 \<and> hs_body r = as_bytes (body out) \<and>
    (\<forall>(name, v) \<in> set (hs_headers r). header_value_valid v)"
proof -
  let ?title = "''base64:'' @ he_base64 he (as_bytes (profile_name out))"
  have base: "header_value_valid (he_base64 he bs)" for bs
    using assms(1) encoded_chars(1) by (simp add: encoders_ok_def header_value_valid_def list_all_iff)
  have percent: "header_value_valid (he_percent he t)" for t
    using assms(1) encoded_chars(2) by (simp add: encoders_ok_def header_value_valid_def list_all_iff)
  have ext: "header_value_valid (file_extension out)"
  proof -
    have "list_all header_value_valid [''json'', ''yaml'', ''conf'', ''txt'']" by code_simp
    with assms(2) show ?thesis by auto
  qed
  have name: "header_value_valid (ascii_profile_name t)" for t
    using ascii_profile_name_chars [of t] token_char_header by (auto simp: header_value_valid_def list_all_iff)
  have static: "header_value_valid ''base64:''" "header_value_valid ''attachment; filename=''" "header_value_valid ''.''"
    "header_value_valid [CHR 0x22]" "header_value_valid ''; filename*=UTF-8''" "header_value_valid [CHR 0x27, CHR 0x27]"
    "header_value_valid ''no-store''" "header_value_valid ''nosniff''" "header_value_valid ''24''" by code_simp+
  have "header_value_valid ?title" using static(1) base by (simp only: header_value_valid_append simp_thms)
  moreover have "header_value_valid (disposition he out)"
    unfolding disposition_def using static ext name percent by (simp only: header_value_valid_append simp_thms)
  ultimately show ?thesis
    using static(7-9) assms(3) by (auto simp: sublink_output_response_def Let_def)
qed

subsection \<open>The loop\<close>

text \<open>What the status page shows agrees with what the loop does.\<close>

definition loop_ok :: "main_state \<Rightarrow> bool" where
  "loop_ok m =
     (ms_queue m \<le> COMMAND_CAPACITY \<and> rt_generation (ms_runtime m) = ms_generation m \<and>
      (case ms_phase m of
         Serving c \<Rightarrow> rt_running (ms_runtime m) \<and> rt_last_error (ms_runtime m) = None \<and>
           rt_listen (ms_runtime m) = Some (show_socket_addr (listen c)) \<and> rt_users (ms_runtime m) = length (users c)
       | Broken \<Rightarrow> \<not> rt_running (ms_runtime m) \<and> rt_last_error (ms_runtime m) \<noteq> None
       | _ \<Rightarrow> \<not> rt_running (ms_runtime m)))"

lemma begin_generation_ok:
  "ms_queue m \<le> COMMAND_CAPACITY \<Longrightarrow> rt_generation (ms_runtime m) = ms_generation m \<Longrightarrow> loop_ok (begin_generation pr now loaded m)"
  by (cases loaded) (simp_all add: begin_generation_def loop_ok_def Let_def)

lemma record_server_result_simps [simp]:
  "rt_running (record_server_result r rt) = False" "rt_generation (record_server_result r rt) = rt_generation rt"
  by (simp_all add: record_server_result_def)

lemma loop_step_ok: "loop_step m m' \<Longrightarrow> loop_ok m \<Longrightarrow> loop_ok m'"
proof (erule loop_stepE)
  fix pr now loaded r assume "m' = handle_reload pr now loaded r m" "loop_ok m"
  then show "loop_ok m'"
    by (auto simp: handle_reload_def Let_def loop_ok_def [of m] intro!: begin_generation_ok split: phase.splits)
      (simp_all add: loop_ok_def)
qed (auto simp: loop_ok_def server_ended_def interrupted_def split: phase.splits)

lemma begin_generation_mono: "ms_generation m \<le> ms_generation (begin_generation pr now loaded m)"
  by (simp add: begin_generation_def Let_def saturating_add_ge split: sum.split)

subsection \<open>Saving a configuration\<close>

lemma put_config_checked:
  assumes "put_config lb tm ops pr auth receiving path c files m = (r, files', m')"
  obtains (refused) e where "r = Err e" "files' = files" "m' = m" "auth \<noteq> Ok () \<Longrightarrow> r = auth"
  | (checked) s where "auth = Ok ()" "validate lb (apply_auto_share_addresses pr c) = Ok ()"
      "save_atomic (tl_print tm) lb (tl_with_tmp tm) ops (apply_auto_share_addresses pr c) path files = (s, files')"
      "(r, m') = (case s of Ok _ \<Rightarrow> send_reload receiving m | Err e \<Rightarrow> (Err (internal e), m))"
proof (cases "and_then auth (\<lambda>_. and_then (map_err bad_request (validate lb (apply_auto_share_addresses pr c)))
    (\<lambda>_. check_outbound_route pr (outbound_mode (apply_auto_share_addresses pr c))))")
  case (Inl e)
  with assms have "r = Err e" "files' = files" "m' = m" by (simp_all add: put_config_def)
  moreover have "auth \<noteq> Ok () \<Longrightarrow> r = auth" using Inl \<open>r = Err e\<close> by (cases auth) simp_all
  ultimately show ?thesis by (rule refused)
next
  case (Inr u)
  then have "auth = Ok ()" "validate lb (apply_auto_share_addresses pr c) = Ok ()" by (auto simp: result_simps)
  moreover obtain s files1 where s: "save_atomic (tl_print tm) lb (tl_with_tmp tm) ops (apply_auto_share_addresses pr c) path files = (s, files1)"
    by fastforce
  moreover have "files1 = files'" "(r, m') = (case s of Ok _ \<Rightarrow> send_reload receiving m | Err e \<Rightarrow> (Err (internal e), m))"
    using assms s Inr by (auto simp: put_config_def Let_def split: sum.splits prod.splits)
  ultimately show ?thesis using checked by blast
qed

lemma put_config_Ok:
  assumes codec: "\<forall>c s. tl_print tm c = Some s \<longrightarrow> tl_parse tm s = Some c" and tmp: "tl_with_tmp tm path \<noteq> path"
    and put: "put_config lb tm ops pr auth receiving path c files m = (Ok u, files', m')"
  shows "auth = Ok () \<and> validate lb (apply_auto_share_addresses pr c) = Ok () \<and>
    load (tl_parse tm) lb files' path = Ok (apply_auto_share_addresses pr c) \<and> m' = m\<lparr>ms_queue := ms_queue m + 1\<rparr>"
  using put
proof (cases rule: put_config_checked)
  case (checked s)
  then obtain v where v: "s = Ok v" "m' = m\<lparr>ms_queue := ms_queue m + 1\<rparr>"
    by (cases s) (auto simp: send_reload_def split: if_splits)
  have "load (tl_parse tm) lb files' path = Ok (apply_auto_share_addresses pr c)"
    using save_atomic_Ok [where with_tmp = "tl_with_tmp tm", OF _ tmp] checked(3) codec unfolding v(1) by blast
  with checked v show ?thesis by blast
qed simp

lemma put_config_Err:
  assumes tmp: "tl_with_tmp tm path \<noteq> path"
    and put: "put_config lb tm ops pr auth receiving path c files m = (Err e, files', m')"
  shows "(receiving \<longrightarrow> files' path = files path \<and> m' = m) \<and> (auth \<noteq> Ok () \<longrightarrow> Err e = auth \<and> files' = files \<and> m' = m)"
  using put
proof (cases rule: put_config_checked)
  case (checked s)
  then show ?thesis
    using save_atomic_Err [where with_tmp = "tl_with_tmp tm", OF tmp]
    by (cases s) (auto simp: send_reload_def split: if_splits)
qed simp

section \<open>Properties\<close>

text \<open>C23: the status page tells the truth. In every state the management loop reaches, over any interleaving of
  queued reloads, servers that end and failed loads, it reports a running proxy exactly while one is
  being served, with that configuration's address and number of users; a configuration that does not load is
  reported as an error; at most four reloads wait; and a reload that is taken never lowers the generation.\<close>

theorem management_loop_status:
  assumes "loop_reachable m"
  shows "(rt_running (ms_runtime m) \<longleftrightarrow> (\<exists>c. ms_phase m = Serving c)) \<and>
    (ms_phase m = Broken \<longrightarrow> rt_last_error (ms_runtime m) \<noteq> None) \<and>
    (\<forall>c. ms_phase m = Serving c \<longrightarrow> rt_listen (ms_runtime m) = Some (show_socket_addr (listen c)) \<and>
       rt_users (ms_runtime m) = length (users c)) \<and>
    ms_queue m \<le> COMMAND_CAPACITY \<and> (\<forall>m'. loop_step m m' \<longrightarrow> ms_generation m \<le> ms_generation m')"
proof -
  have "loop_ok m" using assms
  proof induction
    case (start pr now loaded)
    then show ?case by (simp add: begin_generation_ok RuntimeState_default_def)
  next
    case (step m m')
    from loop_step_ok [OF this(2,3)] show ?case .
  qed
  moreover have "ms_generation m \<le> ms_generation m'" if "loop_step m m'" for m'
    using that begin_generation_mono [of "m\<lparr>ms_queue := x\<rparr>" for x]
      begin_generation_mono [of "m\<lparr>ms_queue := x, ms_runtime := y\<rparr>" for x y]
    by (auto simp: handle_reload_def Let_def server_ended_def interrupted_def split: phase.splits)
  ultimately show ?thesis by (auto simp: loop_ok_def split: phase.splits)
qed

theorem management_loop_status_witness:
  "\<exists>m. loop_reachable m \<and> rt_running (ms_runtime m) \<and> rt_users (ms_runtime m) = 1"
proof -
  define m where "m = begin_generation \<lparr>pr_local4 = None, pr_local6 = None\<rparr> 5 (Ok example_config)
    \<lparr>ms_phase = Broken, ms_generation = 0, ms_runtime = RuntimeState_default, ms_queue = 0\<rparr>"
  have "loop_reachable m" unfolding m_def by (rule start)
  moreover have "ms_phase m = Serving example_config"
    by (simp add: m_def begin_generation_def apply_auto_share_addresses_def example_config_def Let_def)
  ultimately show ?thesis
    using management_loop_status [of m] by (auto simp: example_config_def)
qed



text \<open>No subscription breaks the response headers. Whatever the node names and parameters are, the
  conversion endpoint answers, without a panic, with status 200 or 400, and every header value
  is one HTTP allows, so none can end the header or start another; the quoted file name holds only
  letters, digits, dashes and underscores.\<close>

theorem subscription_headers_safe:
  assumes "encoders_ok he"
  shows "\<exists>r. sublink_convert L he format q = Some r \<and> hs_status r \<in> {200, 400} \<and>
    (\<forall>(name, v) \<in> set (hs_headers r). header_value_valid v \<and> CHR 0x0A \<notin> set v \<and> CHR 0x0D \<notin> set v) \<and>
    list_all token_char (ascii_profile_name name)"
proof -
  have nl: "CHR 0x0A \<notin> set v \<and> CHR 0x0D \<notin> set v" if "header_value_valid v" for v
    using that by (auto simp: header_value_valid_def list_all_iff code_def)
  have e: "header_value_valid ''text/plain; charset=utf-8''" by code_simp
  have "\<exists>r. sublink_convert L he format q = Some r \<and> hs_status r \<in> {200, 400} \<and>
      (\<forall>(name, v) \<in> set (hs_headers r). header_value_valid v)"
  proof (cases "uri_parameter q ''config''")
    case None
    then show ?thesis using e by (simp add: sublink_convert_def sublink_error_def)
  next
    case (Some input)
    let ?c = "convert_with_custom_rules L format input (uri_parameter q ''selectedRules'')
      (case uri_parameter q ''adblock'' of Some v \<Rightarrow> v = ''1'' \<or> eq_ignore_ascii_case v ''true'' | None \<Rightarrow> False)
      (uri_parameter q ''whitelist'') (uri_parameter q ''blacklist'')"
    show ?thesis
    proof (cases ?c)
      case (Inl m)
      with Some e show ?thesis by (simp add: sublink_convert_def sublink_error_def)
    next
      case (Inr out)
      then have "file_extension out \<in> {''json'', ''yaml'', ''conf'', ''txt''} \<and> header_value_valid (content_type out)"
        using convert_extension by (simp add: convert_with_custom_rules_def)
      with output_response_valid [OF assms] Some Inr show ?thesis by (fastforce simp: sublink_convert_def)
    qed
  qed
  with nl ascii_profile_name_chars show ?thesis by (fast intro: conjI)
qed

theorem subscription_headers_safe_witness:
  "\<exists>r. sublink_convert example_sub_libs \<lparr>he_base64 = hex_string, he_percent = (\<lambda>_. [])\<rparr> ''clash'' (Some [(''Config'', ''nothing'')]) = Some r \<and>
     hs_status r \<in> {200, 400}"
proof -
  have "list_all (\<lambda>c. is_ascii_alphanumeric c \<or> c \<in> {CHR ''+'', CHR ''/'', CHR ''=''}) (hex_string bs)" for bs
    using hex_string_alnum [of bs] by (auto simp: list_all_iff)
  then have "encoders_ok \<lparr>he_base64 = hex_string, he_percent = (\<lambda>_. [])\<rparr>" by (simp add: encoders_ok_def)
  from subscription_headers_safe [OF this] show ?thesis by blast
qed

end
