(* ===== verification/Startup.thy ===== *)
theory Startup
  imports Rust_Path Config
begin

text \<open>
  Installing the server as a system service (\<^verbatim>\<open>src/src/startup.rs\<close>): detecting OpenRC or systemd, rendering
  the service file with its quoting, running the tools with administrator rights, and reporting the
  state. The files are part of the state; running another program is an argument that may change
  them.
\<close>

section \<open>The host\<close>

record cmd_output =
  co_success :: bool
  co_stdout :: bytes
  co_stderr :: bytes

record world =
  w_files :: "path \<Rightarrow> bytes option"
  w_dirs :: "path \<Rightarrow> bool"

text \<open>\<open>h_exec\<close> runs a program with its arguments; the other fields are the environment of the process: its
  executable, working directory, \<^verbatim>\<open>PATH\<close>, temporary directory and process number, and which files it can write
  and read.\<close>

record host =
  h_exec :: "path \<Rightarrow> string list \<Rightarrow> world \<Rightarrow> cmd_output result \<times> world"
  h_exe :: "path result"
  h_canonicalize :: "path \<Rightarrow> path result"
  h_cwd :: "path result"
  h_path_dirs :: "path list"
  h_temp_dir :: path
  h_pid :: nat
  h_can_write :: "path \<Rightarrow> bool"
  h_readable :: "path \<Rightarrow> bool"

definition is_file :: "world \<Rightarrow> path \<Rightarrow> bool" where
  "is_file w p = (w_files w p \<noteq> None)"

definition path_exists :: "world \<Rightarrow> path \<Rightarrow> bool" where
  "path_exists w p = (is_file w p \<or> w_dirs w p)"

definition read_to_string :: "host \<Rightarrow> world \<Rightarrow> path \<Rightarrow> string option" where
  "read_to_string h w p = (if h_readable h p then Option.bind (w_files w p) from_utf8 else None)"

text \<open>A computation that may fail and changes the world; \<open>run_bind\<close> is the question mark operator.\<close>

type_synonym 'a run = "world \<Rightarrow> 'a result \<times> world"

definition run_lift :: "'a result \<Rightarrow> 'a run" where
  "run_lift r w = (r, w)"

definition run_bind :: "'a run \<Rightarrow> ('a \<Rightarrow> 'b run) \<Rightarrow> 'b run" where
  "run_bind m f w = (case m w of (Ok x, w) \<Rightarrow> f x w | (Err e, w) \<Rightarrow> (Err e, w))"

section \<open>The service\<close>

definition SERVICE_NAME :: string where
  "SERVICE_NAME = ''sing-box-ser-mini''"

record StartupInputs =
  si_config_path :: path
  si_credentials_path :: path
  si_token_file :: "path option"
  si_webui_listen :: string
  si_worker_threads :: nat

datatype ServiceManager = OpenRc | Systemd

record StartupStatus =
  ss_supported :: bool
  ss_manager :: string
  ss_installed :: bool
  ss_enabled :: bool
  ss_current :: bool
  ss_service_name :: string
  ss_service_path :: path
  ss_executable_path :: path
  ss_config_path :: path

record InstallSpec =
  is_manager :: ServiceManager
  is_service_path :: path
  is_contents :: string
  is_executable_path :: path
  is_config_path :: path

subsection \<open>Quoting\<close>

definition shell_quote :: "string \<Rightarrow> string" where
  "shell_quote v = [CHR 0x27] @ replace_chars (\<lambda>c. c = CHR 0x27) [CHR 0x27, CHR 0x5C, CHR 0x27, CHR 0x27] v @ [CHR 0x27]"

definition systemd_quote :: "string \<Rightarrow> string" where
  "systemd_quote v =
     [CHR 0x22] @ replace_chars (\<lambda>c. c = CHR 0x22) [CHR 0x5C, CHR 0x22]
       (replace_chars (\<lambda>c. c = CHR 0x5C) [CHR 0x5C, CHR 0x5C] v) @ [CHR 0x22]"

definition systemd_value :: "string \<Rightarrow> string" where
  "systemd_value v =
     replace_chars (\<lambda>c. c = CHR 0x09) (CHR 0x5C # ''t'')
       (replace_chars (\<lambda>c. c = CHR '' '') (CHR 0x5C # ''x20'')
         (replace_chars (\<lambda>c. c = CHR 0x5C) [CHR 0x5C, CHR 0x5C] v))"

subsection \<open>The service file\<close>

definition text_lines :: "string list \<Rightarrow> string" where
  "text_lines ls = concat (map (\<lambda>l. l @ [CHR 0x0A]) ls)"

definition service_arguments :: "StartupInputs \<Rightarrow> path \<Rightarrow> path \<Rightarrow> path option \<Rightarrow> string list" where
  "service_arguments inputs config_path credentials_path token_file =
     [''--config'', config_path, ''--admin-listen'', si_webui_listen inputs,
      ''--admin-credentials-file'', credentials_path, ''--worker-threads'', show_nat (si_worker_threads inputs)] @
     (case token_file of None \<Rightarrow> [] | Some f \<Rightarrow> [''--admin-token-file'', f])"

definition command_arguments :: "string list \<Rightarrow> string" where
  "command_arguments arguments = join '' '' (map shell_quote arguments)"

definition render_openrc ::
  "path \<Rightarrow> path \<Rightarrow> string \<Rightarrow> string \<Rightarrow> string list \<Rightarrow> path option \<Rightarrow> string" where
  "render_openrc executable working_directory user grp arguments log_file =
     text_lines
       [''#!/sbin/openrc-run'', [],
        ''description='' @ [CHR 0x22] @ ''Rust Hysteria 2 server and management UI'' @ [CHR 0x22],
        ''export RUST_LOG=sing_box_ser_mini=info'',
        ''command='' @ shell_quote executable,
        ''command_args='' @ shell_quote (command_arguments arguments),
        ''command_user='' @ shell_quote (user @ '':'' @ grp),
        ''directory='' @ shell_quote working_directory,
        ''supervisor='' @ [CHR 0x22] @ ''supervise-daemon'' @ [CHR 0x22],
        ''respawn_delay=5'', ''respawn_max=0'', []] @
     (case log_file of
        None \<Rightarrow> []
      | Some f \<Rightarrow> text_lines [''output_log='' @ shell_quote f, ''error_log='' @ shell_quote f]) @
     text_lines [''depend() {'', ''    need net'', ''    after firewall'', ''}'']"

definition exec_start :: "path \<Rightarrow> string list \<Rightarrow> string" where
  "exec_start executable arguments = join '' '' (map systemd_quote (executable # arguments))"

definition render_systemd :: "path \<Rightarrow> path \<Rightarrow> string \<Rightarrow> string list \<Rightarrow> string" where
  "render_systemd executable working_directory user arguments =
     text_lines
       [''[Unit]'', ''Description=Rust Hysteria 2 server and management UI'', ''After=network-online.target'',
        ''Wants=network-online.target'', [],
        ''[Service]'', ''Type=simple'', ''User='' @ systemd_value user,
        ''WorkingDirectory='' @ systemd_value working_directory,
        ''Environment=RUST_LOG=sing_box_ser_mini=info'',
        ''ExecStart='' @ exec_start executable arguments,
        ''Restart=on-failure'', ''RestartSec=5s'', ''NoNewPrivileges=true'', [],
        ''[Install]'', ''WantedBy=multi-user.target'']"

subsection \<open>Programs\<close>

fun find_program :: "host \<Rightarrow> world \<Rightarrow> path list \<Rightarrow> path option" where
  "find_program h w [] = None"
| "find_program h w (candidate # candidates) =
     (if starts_with ''/'' candidate \<and> is_file w candidate then Some candidate
      else if length (path_components candidate) = 1
      then (case find (is_file w) (map (\<lambda>d. path_push d candidate) (h_path_dirs h)) of
              Some p \<Rightarrow> Some p
            | None \<Rightarrow> find_program h w candidates)
      else find_program h w candidates)"

definition install_programs :: "path list" where
  "install_programs = [''/usr/bin/install'', ''/bin/install'', ''install'']"

definition rm_programs :: "path list" where
  "rm_programs = [''/bin/rm'', ''/usr/bin/rm'', ''rm'']"

definition id_program :: "host \<Rightarrow> path run" where
  "id_program h w = (ok_or (find_program h w [''/usr/bin/id'', ''/bin/id'', ''id'']) ''id command was not found'', w)"

definition systemctl :: "host \<Rightarrow> world \<Rightarrow> path option" where
  "systemctl h w = find_program h w [''/usr/bin/systemctl'', ''/bin/systemctl'', ''/usr/sbin/systemctl'', ''systemctl'']"

definition systemctl_program :: "host \<Rightarrow> path run" where
  "systemctl_program h w = (ok_or (systemctl h w) ''systemctl command was not found'', w)"

definition rc_update_program :: "host \<Rightarrow> path run" where
  "rc_update_program h w =
     (ok_or (find_program h w [''/sbin/rc-update'', ''/usr/sbin/rc-update'', ''rc-update'']) ''rc-update command was not found'', w)"

definition detect_manager :: "host \<Rightarrow> world \<Rightarrow> ServiceManager option" where
  "detect_manager h w =
     (if path_exists w ''/sbin/openrc-run'' \<and> w_dirs w ''/etc/init.d'' then Some OpenRc
      else if w_dirs w ''/run/systemd/system'' \<and> systemctl h w \<noteq> None then Some Systemd
      else None)"

definition absolute_path :: "host \<Rightarrow> path \<Rightarrow> path result" where
  "absolute_path h p =
     (if starts_with ''/'' p then Ok p else and_then (h_cwd h) (\<lambda>d. Ok (path_push d p)))"

definition failed_message :: "path \<Rightarrow> cmd_output \<Rightarrow> string" where
  "failed_message program out = program @ '' failed: '' @ trim (from_utf8_lossy (co_stderr out))"

definition command_text :: "host \<Rightarrow> path \<Rightarrow> string list \<Rightarrow> string run" where
  "command_text h program arguments w =
     (case h_exec h program arguments w of
        (Err e, w) \<Rightarrow> (Err (''run '' @ program), w)
      | (Ok out, w) \<Rightarrow>
          if \<not> co_success out then (Err (failed_message program out), w)
          else (case from_utf8 (co_stdout out) of
                  None \<Rightarrow> (Err ''invalid utf-8 sequence'', w)
                | Some s \<Rightarrow> if trim s = [] then (Err (program @ '' returned an empty value''), w) else (Ok (trim s), w)))"

definition ensure_success :: "path \<Rightarrow> cmd_output result \<times> world \<Rightarrow> unit result \<times> world" where
  "ensure_success program r =
     (case r of
        (Err e, w) \<Rightarrow> (Err (''run '' @ program), w)
      | (Ok out, w) \<Rightarrow> if co_success out then (Ok (), w) else (Err (failed_message program out), w))"

fun try_helpers :: "host \<Rightarrow> path \<Rightarrow> string list \<Rightarrow> (path option \<times> string list) list \<Rightarrow> string list \<Rightarrow> unit run" where
  "try_helpers h program arguments [] errors w =
     (Err (''administrator permission is required'' @ (if errors = [] then [] else '': '' @ join ''; '' errors)), w)"
| "try_helpers h program arguments ((None, extra) # helpers) errors w =
     try_helpers h program arguments helpers errors w"
| "try_helpers h program arguments ((Some helper, extra) # helpers) errors w =
     (case h_exec h helper (extra @ program # arguments) w of
        (Ok out, w) \<Rightarrow>
          if co_success out then (Ok (), w)
          else try_helpers h program arguments helpers (errors @ [helper @ '': '' @ trim (from_utf8_lossy (co_stderr out))]) w
      | (Err e, w) \<Rightarrow> try_helpers h program arguments helpers (errors @ [helper @ '': '' @ e]) w)"

definition run_privileged :: "host \<Rightarrow> path \<Rightarrow> string list \<Rightarrow> unit run" where
  "run_privileged h program arguments =
     run_bind (id_program h) (\<lambda>id_path.
     run_bind (command_text h id_path [''-u'']) (\<lambda>uid w.
     if uid = ''0'' then ensure_success program (h_exec h program arguments w)
     else try_helpers h program arguments
            [(find_program h w [''/usr/bin/doas'', ''/bin/doas'', ''doas''], []),
             (find_program h w [''/usr/bin/sudo'', ''/bin/sudo'', ''sudo''], [''-n''])] [] w))"

subsection \<open>Operations\<close>

text \<open>\<open>w0\<close> is the world whose directories decide where the log goes.\<close>

definition log_file :: "world \<Rightarrow> path \<Rightarrow> path option" where
  "log_file w executable =
     Option.bind (Option.bind (path_parent executable) path_parent) (\<lambda>root.
       let f = path_push root ''log/server.log''
       in case path_parent f of Some d \<Rightarrow> if w_dirs w d then Some f else None | None \<Rightarrow> None)"

definition service_path :: "ServiceManager \<Rightarrow> path" where
  "service_path manager =
     (case manager of OpenRc \<Rightarrow> ''/etc/init.d/'' @ SERVICE_NAME | Systemd \<Rightarrow> ''/etc/systemd/system/'' @ SERVICE_NAME @ ''.service'')"

definition build_spec :: "host \<Rightarrow> ServiceManager \<Rightarrow> StartupInputs \<Rightarrow> InstallSpec run" where
  "build_spec h manager inputs =
     run_bind (run_lift (and_then (h_exe h) (\<lambda>e. map_err (\<lambda>_. ''resolve the current executable path'') (h_canonicalize h e)))) (\<lambda>executable.
     run_bind (run_lift (absolute_path h (si_config_path inputs))) (\<lambda>config_path.
     run_bind (run_lift (absolute_path h (si_credentials_path inputs))) (\<lambda>credentials_path.
     run_bind (run_lift (case si_token_file inputs of None \<Rightarrow> Ok None | Some f \<Rightarrow> and_then (absolute_path h f) (\<lambda>f. Ok (Some f)))) (\<lambda>token_file.
     run_bind (run_lift (map_err (\<lambda>_. ''resolve the current working directory'') (h_cwd h))) (\<lambda>working_directory w0.
     (run_bind (id_program h) (\<lambda>id_path.
      run_bind (command_text h id_path [''-un'']) (\<lambda>user.
      run_bind (id_program h) (\<lambda>id_path.
      run_bind (command_text h id_path [''-gn'']) (\<lambda>grp.
      let arguments = service_arguments inputs config_path credentials_path token_file in
      run_lift (Ok \<lparr>is_manager = manager,
        is_service_path = service_path manager,
        is_contents = (case manager of
            OpenRc \<Rightarrow> render_openrc executable working_directory user grp arguments (log_file w0 executable)
          | Systemd \<Rightarrow> render_systemd executable working_directory user arguments),
        is_executable_path = executable, is_config_path = config_path\<rparr>)))))) w0)))))"

definition is_enabled :: "host \<Rightarrow> ServiceManager \<Rightarrow> world \<Rightarrow> bool \<times> world" where
  "is_enabled h manager w =
     (case manager of
        OpenRc \<Rightarrow> (path_exists w (path_push ''/etc/runlevels/default'' SERVICE_NAME), w)
      | Systemd \<Rightarrow>
          (case systemctl h w of
             None \<Rightarrow> (False, w)
           | Some program \<Rightarrow>
               (case h_exec h program [''is-enabled'', ''--quiet'', SERVICE_NAME] w of
                  (Ok out, w) \<Rightarrow> (co_success out, w)
                | (Err e, w) \<Rightarrow> (False, w))))"

definition status_for_spec :: "host \<Rightarrow> InstallSpec \<Rightarrow> StartupStatus run" where
  "status_for_spec h spec w =
     (let installed_contents = read_to_string h w (is_service_path spec);
          (enabled, w) = is_enabled h (is_manager spec) w
      in (Ok \<lparr>ss_supported = True, ss_manager = (case is_manager spec of OpenRc \<Rightarrow> ''openrc'' | Systemd \<Rightarrow> ''systemd''),
              ss_installed = (installed_contents \<noteq> None), ss_enabled = enabled,
              ss_current = (installed_contents = Some (is_contents spec)),
              ss_service_name = SERVICE_NAME, ss_service_path = is_service_path spec,
              ss_executable_path = is_executable_path spec, ss_config_path = is_config_path spec\<rparr>, w))"

definition unsupported_status :: "host \<Rightarrow> StartupInputs \<Rightarrow> StartupStatus" where
  "unsupported_status h inputs =
     \<lparr>ss_supported = False, ss_manager = ''unsupported'', ss_installed = False, ss_enabled = False, ss_current = False,
      ss_service_name = SERVICE_NAME, ss_service_path = [],
      ss_executable_path = (case h_exe h of Ok p \<Rightarrow> p | Err _ \<Rightarrow> []),
      ss_config_path = (case absolute_path h (si_config_path inputs) of Ok p \<Rightarrow> p | Err _ \<Rightarrow> si_config_path inputs)\<rparr>"

definition inspect :: "host \<Rightarrow> StartupInputs \<Rightarrow> StartupStatus run" where
  "inspect h inputs w =
     (case detect_manager h w of
        None \<Rightarrow> (Ok (unsupported_status h inputs), w)
      | Some manager \<Rightarrow> run_bind (build_spec h manager inputs) (status_for_spec h) w)"

definition unsupported :: string where
  "unsupported = ''unsupported init system; OpenRC or systemd is required''"

definition register_service :: "host \<Rightarrow> ServiceManager \<Rightarrow> unit run" where
  "register_service h manager =
     (case manager of
        OpenRc \<Rightarrow>
          run_bind (rc_update_program h) (\<lambda>rc_update.
          run_privileged h rc_update [''add'', SERVICE_NAME, ''default''])
      | Systemd \<Rightarrow>
          run_bind (systemctl_program h) (\<lambda>ctl.
          run_bind (run_privileged h ctl [''daemon-reload'']) (\<lambda>_.
          run_privileged h ctl [''enable'', SERVICE_NAME @ ''.service''])))"

definition install_steps :: "host \<Rightarrow> InstallSpec \<Rightarrow> path \<Rightarrow> StartupStatus run" where
  "install_steps h spec temporary =
     run_bind (\<lambda>w. (ok_or (find_program h w install_programs) ''install command was not found'', w)) (\<lambda>program.
     run_bind (run_privileged h program
       [''-m'', (if is_manager spec = OpenRc then ''0755'' else ''0644''), temporary, is_service_path spec]) (\<lambda>_.
     run_bind (register_service h (is_manager spec)) (\<lambda>_.
     status_for_spec h spec)))"

definition temporary_path :: "host \<Rightarrow> path" where
  "temporary_path h = path_push (h_temp_dir h) (''.'' @ SERVICE_NAME @ ''-startup-'' @ show_nat (h_pid h))"

definition install :: "host \<Rightarrow> StartupInputs \<Rightarrow> StartupStatus run" where
  "install h inputs w =
     (case detect_manager h w of
        None \<Rightarrow> (Err unsupported, w)
      | Some manager \<Rightarrow>
          run_bind (build_spec h manager inputs) (\<lambda>spec w.
            let temporary = temporary_path h in
            if \<not> h_can_write h temporary then (Err (''write temporary startup file '' @ temporary), w)
            else
              let w = w\<lparr>w_files := (w_files w)(temporary \<mapsto> as_bytes (is_contents spec))\<rparr>;
                  (r, w) = install_steps h spec temporary w
              in (r, w\<lparr>w_files := (w_files w)(temporary := None)\<rparr>)) w)"

definition unregister_service :: "host \<Rightarrow> ServiceManager \<Rightarrow> bool \<Rightarrow> unit run" where
  "unregister_service h manager enabled =
     (case manager of
        OpenRc \<Rightarrow>
          if enabled then
            run_bind (rc_update_program h) (\<lambda>rc_update.
            run_privileged h rc_update [''del'', SERVICE_NAME, ''default''])
          else run_lift (Ok ())
      | Systemd \<Rightarrow>
          run_bind (systemctl_program h) (\<lambda>ctl.
          if enabled then run_privileged h ctl [''disable'', SERVICE_NAME @ ''.service''] else run_lift (Ok ())))"

definition remove_service_file :: "host \<Rightarrow> InstallSpec \<Rightarrow> bool \<Rightarrow> unit run" where
  "remove_service_file h spec installed =
     (if installed then
        run_bind (\<lambda>w. (ok_or (find_program h w rm_programs) ''rm command was not found'', w)) (\<lambda>program.
        run_privileged h program [''-f'', is_service_path spec])
      else run_lift (Ok ()))"

definition uninstall :: "host \<Rightarrow> StartupInputs \<Rightarrow> StartupStatus run" where
  "uninstall h inputs w =
     (case detect_manager h w of
        None \<Rightarrow> (Err unsupported, w)
      | Some manager \<Rightarrow>
          run_bind (build_spec h manager inputs) (\<lambda>spec.
          run_bind (status_for_spec h spec) (\<lambda>st.
          run_bind (unregister_service h manager (ss_enabled st)) (\<lambda>_.
          run_bind (remove_service_file h spec (ss_installed st)) (\<lambda>_.
          run_bind (if manager = Systemd
                    then run_bind (systemctl_program h) (\<lambda>ctl. run_privileged h ctl [''daemon-reload''])
                    else run_lift (Ok ())) (\<lambda>_.
          status_for_spec h spec))))) w)"

section \<open>Reference readers\<close>

text \<open>How the POSIX shell splits a line into words, for lines made of blanks, single quotes, backslashes and plain
  characters; \<open>None\<close> when a quote is open at the end or the shell would give a character a meaning of its
  own.\<close>

definition plain_char :: "char \<Rightarrow> bool" where
  "plain_char c = (is_ascii_alphanumeric c \<or> c \<in> set ''-_./:='')"

definition so_far :: "string option \<Rightarrow> string" where
  "so_far cur = (case cur of None \<Rightarrow> [] | Some w \<Rightarrow> w)"

fun sh_scan :: "bool \<Rightarrow> string option \<Rightarrow> string \<Rightarrow> string list option" where
  "sh_scan True cur [] = None"
| "sh_scan True cur (c # cs) =
     (if c = CHR 0x27 then sh_scan False cur cs else sh_scan True (Some (so_far cur @ [c])) cs)"
| "sh_scan False cur [] = Some (case cur of None \<Rightarrow> [] | Some w \<Rightarrow> [w])"
| "sh_scan False cur (c # cs) =
     (if c = CHR '' '' then
        (case cur of None \<Rightarrow> sh_scan False None cs | Some w \<Rightarrow> map_option ((#) w) (sh_scan False None cs))
      else if c = CHR 0x27 then sh_scan True (Some (so_far cur)) cs
      else if c = CHR 0x5C then
        (case cs of [] \<Rightarrow> None | d # ds \<Rightarrow> if d = CHR 0x0A then None else sh_scan False (Some (so_far cur @ [d])) ds)
      else if plain_char c then sh_scan False (Some (so_far cur @ [c])) cs
      else None)"

definition sh_words :: "string \<Rightarrow> string list option" where
  "sh_words = sh_scan False None"

text \<open>How systemd splits the value of \<^verbatim>\<open>ExecStart=\<close>: words in double quotes, in which a backslash escapes a backslash or a
  double quote. A percent sign starts a specifier and a dollar sign a variable, also inside quotes.\<close>

definition sd_special :: "char \<Rightarrow> bool" where
  "sd_special c = (c \<in> {CHR 0x25, CHR ''$'', CHR 0x0A})"

fun sd_scan :: "bool \<Rightarrow> string option \<Rightarrow> string \<Rightarrow> string list option" where
  "sd_scan True cur [] = None"
| "sd_scan True cur (c # cs) =
     (if c = CHR 0x22 then sd_scan False cur cs
      else if c = CHR 0x5C then
        (case cs of [] \<Rightarrow> None
         | d # ds \<Rightarrow> if d = CHR 0x5C \<or> d = CHR 0x22 then sd_scan True (Some (so_far cur @ [d])) ds else None)
      else if sd_special c then None
      else sd_scan True (Some (so_far cur @ [c])) cs)"
| "sd_scan False cur [] = Some (case cur of None \<Rightarrow> [] | Some w \<Rightarrow> [w])"
| "sd_scan False cur (c # cs) =
     (if c = CHR '' '' then
        (case cur of None \<Rightarrow> sd_scan False None cs | Some w \<Rightarrow> map_option ((#) w) (sd_scan False None cs))
      else if c = CHR 0x22 \<and> cur = None then sd_scan True (Some []) cs
      else if plain_char c then sd_scan False (Some (so_far cur @ [c])) cs
      else None)"

definition sd_words :: "string \<Rightarrow> string list option" where
  "sd_words = sd_scan False None"

section \<open>Lemmas\<close>

subsection \<open>Quoting\<close>

lemma replace_chars_simps [simp]:
  "replace_chars p r [] = []" "replace_chars p r (c # cs) = (if p c then r else [c]) @ replace_chars p r cs"
  "replace_chars p r (s @ t) = replace_chars p r s @ replace_chars p r t"
  by (simp_all add: replace_chars_def)

lemma so_far_simps [simp]: "so_far None = []" "so_far (Some w) = w"
  by (simp_all add: so_far_def)

lemma sh_scan_quoted:
  "sh_scan True (Some w) (replace_chars (\<lambda>c. c = CHR 0x27) [CHR 0x27, CHR 0x5C, CHR 0x27, CHR 0x27] v @ CHR 0x27 # rest) =
   sh_scan False (Some (w @ v)) rest"
  by (induction v arbitrary: w) simp_all

lemma sh_scan_shell_quote: "sh_scan False None (shell_quote v @ rest) = sh_scan False (Some v) rest"
  using sh_scan_quoted [of "[]" v rest] by (simp add: shell_quote_def)

lemma sh_words_shell_quote: "sh_words (shell_quote v) = Some [v]"
  using sh_scan_shell_quote [of v "[]"] by (simp add: sh_words_def)

lemma sh_words_command_arguments: "sh_words (command_arguments vs) = Some vs"
  unfolding sh_words_def command_arguments_def
proof (induction vs rule: induct_list012)
  case (2 v)
  then show ?case using sh_words_shell_quote by (simp add: sh_words_def)
next
  case (3 v u vs)
  then show ?case by (simp add: sh_scan_shell_quote)
qed simp

lemma sd_scan_quoted:
  assumes "\<not> list_ex sd_special v"
  shows "sd_scan True (Some w) (replace_chars (\<lambda>c. c = CHR 0x22) [CHR 0x5C, CHR 0x22]
       (replace_chars (\<lambda>c. c = CHR 0x5C) [CHR 0x5C, CHR 0x5C] v) @ CHR 0x22 # rest) = sd_scan False (Some (w @ v)) rest"
  using assms by (induction v arbitrary: w) (simp_all add: sd_special_def)

lemma sd_scan_systemd_quote:
  "\<not> list_ex sd_special v \<Longrightarrow> sd_scan False None (systemd_quote v @ rest) = sd_scan False (Some v) rest"
  using sd_scan_quoted [of v "[]" rest] by (simp add: systemd_quote_def)

lemma sd_words_quoted:
  "list_all (\<lambda>v. \<not> list_ex sd_special v) vs \<Longrightarrow> sd_words (join '' '' (map systemd_quote vs)) = Some vs"
  unfolding sd_words_def
proof (induction vs rule: induct_list012)
  case (2 v)
  then show ?case using sd_scan_systemd_quote [of v "[]"] by simp
next
  case (3 v u vs)
  then show ?case by (simp add: sd_scan_systemd_quote)
qed simp

lemma text_lines_mem: "l \<in> set ls \<Longrightarrow> \<exists>a b. text_lines ls = a @ l @ CHR 0x0A # b"
  by (drule split_list) (auto simp: text_lines_def, blast)

lemma text_lines_mem_append: "l \<in> set ls \<Longrightarrow> \<exists>a b. text_lines ls @ rest = a @ l @ CHR 0x0A # b"
  by (drule text_lines_mem) (auto, blast)

text \<open>A percent sign reaches systemd unescaped, where it starts a specifier.\<close>

lemma systemd_percent_interpreted: "sd_words (exec_start ''/opt/50%/server'' []) = None"
  by code_simp

subsection \<open>Running programs\<close>

lemma run_bind_eq_Ok [result_simps]:
  "run_bind m f w = (Ok y, w') \<longleftrightarrow> (\<exists>x w1. m w = (Ok x, w1) \<and> f x w1 = (Ok y, w'))"
  by (auto simp: run_bind_def split: prod.splits sum.splits)

lemma run_lift_eq [result_simps]: "run_lift r w = (r', w') \<longleftrightarrow> r' = r \<and> w' = w"
  by (auto simp: run_lift_def)

text \<open>What a computation keeps of the world, given what the programs it runs keep. A program is identified by the last
  word of its command line, which is what the helpers pass on.\<close>

definition keeps :: "(world \<Rightarrow> bool) \<Rightarrow> 'a run \<Rightarrow> bool" where
  "keeps P m = (\<forall>w. P w \<longrightarrow> P (snd (m w)))"

definition exec_keeps :: "host \<Rightarrow> (string \<Rightarrow> bool) \<Rightarrow> (world \<Rightarrow> bool) \<Rightarrow> bool" where
  "exec_keeps h C P =
     (\<forall>program arguments w. C (last (program # arguments)) \<longrightarrow> P w \<longrightarrow> P (snd (h_exec h program arguments w)))"

named_theorems keeps_intros \<open>what the steps of an installation keep\<close>

lemma exec_keepsD:
  "exec_keeps h C P \<Longrightarrow> h_exec h program arguments w = (r, w') \<Longrightarrow> C (last (program # arguments)) \<Longrightarrow> P w \<Longrightarrow> P w'"
  unfolding exec_keeps_def by (metis snd_conv)

lemma keepsD: "keeps P m \<Longrightarrow> m w = (r, w') \<Longrightarrow> P w \<Longrightarrow> P w'"
  unfolding keeps_def by (metis snd_conv)

lemma keeps_bind [keeps_intros]: "keeps P m \<Longrightarrow> (\<And>x. keeps P (f x)) \<Longrightarrow> keeps P (run_bind m f)"
  unfolding keeps_def run_bind_def by (auto split: prod.split sum.split)

lemma keeps_pure [keeps_intros]:
  "keeps P (run_lift r)" "keeps P (\<lambda>w. (g w, w))" "keeps P (id_program h)" "keeps P (systemctl_program h)"
  "keeps P (rc_update_program h)"
  by (simp_all add: keeps_def run_lift_def id_program_def systemctl_program_def rc_update_program_def)

lemma keeps_command_text:
  "exec_keeps h C P \<Longrightarrow> C (last (program # arguments)) \<Longrightarrow> keeps P (command_text h program arguments)"
  unfolding keeps_def command_text_def
  by (auto split: prod.split sum.split option.split dest: exec_keepsD)

lemma try_helpers_keeps:
  "exec_keeps h C P \<Longrightarrow> C (last (program # arguments)) \<Longrightarrow> P w \<Longrightarrow>
   P (snd (try_helpers h program arguments helpers errors w))"
proof (induction h program arguments helpers errors w rule: try_helpers.induct)
  case (3 h program arguments helper extra helpers errors w)
  obtain r w1 where r: "h_exec h helper (extra @ program # arguments) w = (r, w1)" by fastforce
  moreover have "P w1" using exec_keepsD [OF "3.prems"(1) r] "3.prems"(2,3) by simp
  ultimately show ?case using 3 by (auto split: sum.split)
qed simp_all

lemma keeps_run_privileged:
  assumes "exec_keeps h C P" "C ''-u''" "C (last (program # arguments))"
  shows "keeps P (run_privileged h program arguments)"
proof -
  have "keeps P (\<lambda>w. if uid = ''0'' then ensure_success program (h_exec h program arguments w)
      else try_helpers h program arguments (hs w) [] w)" for uid hs
    unfolding keeps_def using try_helpers_keeps [OF assms(1,3)] exec_keepsD [OF assms(1) _ assms(3)]
    by (auto simp: ensure_success_def split: prod.split sum.split)
  then show ?thesis
    unfolding run_privileged_def
    using keeps_command_text [OF assms(1), of _ "[''-u'']"] assms(2) by (intro keeps_intros) simp_all
qed

text \<open>A privileged command that succeeds has run, directly or behind a helper.\<close>

lemma try_helpers_Ok:
  assumes "exec_keeps h (\<lambda>_. True) P" "try_helpers h program arguments helpers errors w = (Ok u, w')" "P w"
  shows "\<exists>pr ar w1 out. h_exec h pr ar w1 = (Ok out, w') \<and> co_success out \<and>
    (\<exists>pre. pr # ar = pre @ program # arguments) \<and> P w1"
  using assms
proof (induction h program arguments helpers errors w rule: try_helpers.induct)
  case (3 h program arguments helper extra helpers errors w)
  obtain r w1 where r: "h_exec h helper (extra @ program # arguments) w = (r, w1)" by fastforce
  then have "P w1" using exec_keepsD "3.prems"(1,3) by blast
  show ?case
  proof (cases "\<exists>out. r = Ok out \<and> co_success out")
    case True
    with r "3.prems" have "w1 = w'" by auto
    moreover have "helper # extra @ program # arguments = (helper # extra) @ program # arguments" by simp
    ultimately show ?thesis using r True "3.prems"(3) by blast
  next
    case False
    with 3 r \<open>P w1\<close> show ?thesis by (cases r) auto
  qed
qed simp_all

lemma run_privileged_Ok:
  assumes "exec_keeps h (\<lambda>_. True) P" "run_privileged h program arguments w = (Ok u, w')" "P w"
  shows "\<exists>pr ar w1 out. h_exec h pr ar w1 = (Ok out, w') \<and> co_success out \<and>
    (\<exists>pre. pr # ar = pre @ program # arguments) \<and> P w1"
proof -
  obtain i w1 uid w2 where i: "id_program h w = (Ok i, w1)" "command_text h i [''-u''] w1 = (Ok uid, w2)"
    and run: "(if uid = ''0'' then ensure_success program (h_exec h program arguments w2)
      else try_helpers h program arguments
            [(find_program h w2 [''/usr/bin/doas'', ''/bin/doas'', ''doas''], []),
             (find_program h w2 [''/usr/bin/sudo'', ''/bin/sudo'', ''sudo''], [''-n''])] [] w2) = (Ok u, w')"
    using assms(2) unfolding run_privileged_def run_bind_eq_Ok by blast
  have "P w1" using keepsD [OF keeps_pure(3) i(1)] assms(3) by blast
  then have "P w2" using keepsD [OF keeps_command_text [OF assms(1)] i(2)] by blast
  show ?thesis
  proof (cases "uid = ''0''")
    case True
    with run obtain out where "h_exec h program arguments w2 = (Ok out, w')" "co_success out"
      by (auto simp: ensure_success_def split: prod.splits sum.splits if_splits)
    moreover have "program # arguments = [] @ program # arguments" by simp
    ultimately show ?thesis using \<open>P w2\<close> by blast
  next
    case False
    with run have "try_helpers h program arguments
        [(find_program h w2 [''/usr/bin/doas'', ''/bin/doas'', ''doas''], []),
         (find_program h w2 [''/usr/bin/sudo'', ''/bin/sudo'', ''sudo''], [''-n''])] [] w2 = (Ok u, w')" by (simp only: if_False)
    from try_helpers_Ok [OF assms(1) this \<open>P w2\<close>] show ?thesis .
  qed
qed

subsection \<open>Installing and removing\<close>

text \<open>What the documentation of the tools says of the service file and the temporary file: no program touches the
  temporary file; only a command whose last argument is the service file changes it; \<^verbatim>\<open>install -m mode from to\<close> that
  succeeds copies, and \<^verbatim>\<open>rm -f\<close> removes, also behind \<^verbatim>\<open>doas\<close> or \<^verbatim>\<open>sudo\<close>.\<close>

definition tools_ok :: "host \<Rightarrow> path \<Rightarrow> path \<Rightarrow> bool" where
  "tools_ok h svc tmp =
     (\<forall>program arguments w r w'. h_exec h program arguments w = (r, w') \<longrightarrow>
        w_files w' tmp = w_files w tmp \<and>
        (last (program # arguments) \<noteq> svc \<longrightarrow> w_files w' svc = w_files w svc) \<and>
        (\<forall>out. r = Ok out \<longrightarrow> co_success out \<longrightarrow>
           (\<forall>pre p mode w0. find_program h w0 install_programs = Some p \<longrightarrow>
              program # arguments = pre @ [p, ''-m'', mode, tmp, svc] \<longrightarrow> w_files w' svc = w_files w tmp) \<and>
           (\<forall>pre p w0. find_program h w0 rm_programs = Some p \<longrightarrow>
              program # arguments = pre @ [p, ''-f'', svc] \<longrightarrow> w_files w' svc = None)))"

lemma service_path_words:
  "service_path manager \<notin> {''-u'', ''-un'', ''-gn'', ''default'', ''daemon-reload'', SERVICE_NAME, SERVICE_NAME @ ''.service''}"
  by (cases manager) (simp_all add: service_path_def SERVICE_NAME_def)

lemma build_spec_Ok:
  assumes "build_spec h manager inputs w = (Ok spec, w')"
  shows "is_manager spec = manager \<and> is_service_path spec = service_path manager"
  using assms unfolding build_spec_def run_bind_eq_Ok run_lift_eq Let_def
  by auto

lemma tools_keep:
  assumes "tools_ok h svc tmp"
  shows "exec_keeps h (\<lambda>s. s \<noteq> svc) (\<lambda>w. w_files w svc = x)" "exec_keeps h (\<lambda>_. True) (\<lambda>w. w_files w tmp = y)"
proof -
  have "w_files (snd (h_exec h p as w)) tmp = w_files w tmp \<and>
      (last (p # as) \<noteq> svc \<longrightarrow> w_files (snd (h_exec h p as w)) svc = w_files w svc)" for p as w
    using assms unfolding tools_ok_def by (metis prod.collapse)
  then show "exec_keeps h (\<lambda>s. s \<noteq> svc) (\<lambda>w. w_files w svc = x)" "exec_keeps h (\<lambda>_. True) (\<lambda>w. w_files w tmp = y)"
    unfolding exec_keeps_def by (metis (mono_tags, lifting))+
qed

lemma keeps_register:
  assumes "exec_keeps h (\<lambda>s. s \<noteq> service_path m) P"
  shows "keeps P (register_service h manager)" "keeps P (unregister_service h manager enabled)"
    "keeps P (run_privileged h ctl [''daemon-reload''])"
proof -
  have *: "keeps P (run_privileged h p (as @ [a]))" if "a \<in> {''default'', ''daemon-reload'', SERVICE_NAME @ ''.service''}" for p as a
    using keeps_run_privileged [OF assms, of p "as @ [a]"] service_path_words [of m] that by auto
  note ** = * [of "''default''" _ "[x, y]" for x y, simplified] * [of "''daemon-reload''" _ "[]", simplified]
    * [of "SERVICE_NAME @ ''.service''" _ "[x]" for x, simplified]
  show "keeps P (register_service h manager)"
    unfolding register_service_def by (cases manager) (auto intro!: keeps_intros **)
  show "keeps P (unregister_service h manager enabled)"
    unfolding unregister_service_def by (cases manager) (auto intro!: keeps_intros **)
  show "keeps P (run_privileged h ctl [''daemon-reload''])" by (rule **)
qed

lemma read_to_string_cong: "w_files w p = w_files w' p \<Longrightarrow> read_to_string h w p = read_to_string h w' p"
  by (simp add: read_to_string_def)

lemma status_for_spec_Ok:
  assumes "exec_keeps h (\<lambda>s. s \<noteq> service_path m) P" "status_for_spec h spec w = (r, w')" "P w"
  shows "P w' \<and> (\<exists>st. r = Ok st \<and> ss_installed st = (read_to_string h w (is_service_path spec) \<noteq> None) \<and>
    ss_current st = (read_to_string h w (is_service_path spec) = Some (is_contents spec)))"
proof -
  obtain e w1 where e: "is_enabled h (is_manager spec) w = (e, w1)" by fastforce
  have ex: "P w2" if "h_exec h program [''is-enabled'', ''--quiet'', SERVICE_NAME] w = (r, w2)" for program r w2
    using exec_keepsD [OF assms(1) that] assms(3) service_path_words [of m] by auto
  have "P w1"
  proof (cases "is_manager spec")
    case OpenRc
    with e assms(3) show ?thesis by (simp add: is_enabled_def)
  next
    case Systemd
    show ?thesis
    proof (cases "systemctl h w")
      case None
      with e Systemd assms(3) show ?thesis by (simp add: is_enabled_def)
    next
      case (Some p)
      obtain r w2 where r: "h_exec h p [''is-enabled'', ''--quiet'', SERVICE_NAME] w = (r, w2)" by fastforce
      with e Systemd Some have "w1 = w2" by (cases r) (simp_all add: is_enabled_def)
      with ex [OF r] show ?thesis by simp
    qed
  qed
  moreover have "(r, w') = status_for_spec h spec w" by (rule assms(2) [symmetric])
  ultimately show ?thesis unfolding status_for_spec_def Let_def e by simp
qed

lemma install_steps_Ok:
  assumes "tools_ok h svc tmp" "svc = service_path (is_manager spec)" "is_service_path spec = svc"
    and "w_files w tmp = Some x" "install_steps h spec tmp w = (Ok st, w')"
  shows "w_files w' svc = Some x \<and> (h_readable h svc \<longrightarrow> ss_installed st = (from_utf8 x \<noteq> None) \<and>
    ss_current st = (from_utf8 x = Some (is_contents spec)))"
proof -
  note keep = tools_keep [OF assms(1)] 
  let ?args = "[''-m'', (if is_manager spec = OpenRc then ''0755'' else ''0644''), tmp, svc]"
  obtain p w1 u w2 v where p: "find_program h w install_programs = Some p" "w1 = w"
    and run: "run_privileged h p ?args w1 = (Ok (), w2)"
    and reg: "register_service h (is_manager spec) w2 = (Ok u, v)" and st: "status_for_spec h spec v = (Ok st, w')"
    using assms(3,5) by (auto simp: install_steps_def run_bind_eq_Ok ok_or_eq_Ok)
  from run_privileged_Ok [OF keep(2) run, of "Some x"] p(2) assms(4)
  obtain pr ar w3 out pre where ex: "h_exec h pr ar w3 = (Ok out, w2)" "co_success out" "pr # ar = pre @ p # ?args"
    "w_files w3 tmp = Some x" by auto
  then have "w_files w2 svc = Some x" using assms(1) p(1) unfolding tools_ok_def by metis
  then have v: "w_files v svc = Some x"
    using keepsD [OF keeps_register(1) [OF keep(1) [of "Some x", unfolded assms(2)]] reg] assms(2) by simp
  from status_for_spec_Ok [OF keep(1) [of "Some x", unfolded assms(2)] st] v assms(2,3)
  show ?thesis by (auto simp: read_to_string_def)
qed

lemma uninstall_Ok:
  assumes "tools_ok h (service_path m) tmp" "detect_manager h w = Some m" "uninstall h inputs w = (Ok st, w')"
  shows "(h_readable h (service_path m) \<longrightarrow> \<not> ss_installed st) \<and> read_to_string h w' (service_path m) = None"
proof -
  let ?svc = "service_path m"
  note keep = tools_keep [OF assms(1)]
  obtain spec w1 st1 w2 u w3 v w4 x w5 where b: "build_spec h m inputs w = (Ok spec, w1)"
    and s1: "status_for_spec h spec w1 = (Ok st1, w2)" and un: "unregister_service h m (ss_enabled st1) w2 = (Ok u, w3)"
    and rm: "remove_service_file h spec (ss_installed st1) w3 = (Ok v, w4)"
    and re: "(if m = Systemd then run_bind (systemctl_program h) (\<lambda>ctl. run_privileged h ctl [''daemon-reload''])
      else run_lift (Ok ())) w4 = (Ok x, w5)" and st: "status_for_spec h spec w5 = (Ok st, w')"
    using assms(2,3) by (auto simp: uninstall_def run_bind_eq_Ok)
  have svc: "is_service_path spec = ?svc" using build_spec_Ok [OF b] by simp
  have w4: "read_to_string h w4 ?svc = None"
  proof (cases "ss_installed st1")
    case True
    then obtain p where p: "find_program h w3 rm_programs = Some p" "run_privileged h p [''-f'', ?svc] w3 = (Ok v, w4)"
      using rm svc by (auto simp: remove_service_file_def run_bind_eq_Ok ok_or_eq_Ok)
    from run_privileged_Ok [OF keep(2) p(2), of "w_files w3 tmp"]
    obtain pr ar w6 out pre where "h_exec h pr ar w6 = (Ok out, w4)" "co_success out" "pr # ar = pre @ [p, ''-f'', ?svc]"
      by auto
    then have "w_files w4 ?svc = None" using assms(1) p(1) unfolding tools_ok_def by metis
    then show ?thesis by (simp add: read_to_string_def)
  next
    case False
    have "w_files w2 ?svc = w_files w1 ?svc" using status_for_spec_Ok [OF keep(1) s1] by blast
    then have "w_files w3 ?svc = w_files w1 ?svc"
      using keepsD [OF keeps_register(2) [OF keep(1) [of "w_files w1 ?svc"]] un] by blast
    moreover have "read_to_string h w1 ?svc = None" using status_for_spec_Ok [OF keep(1) s1 refl] False svc by simp
    ultimately show ?thesis using rm False read_to_string_cong [of w3 ?svc w1 h] by (simp add: remove_service_file_def run_lift_def)
  qed
  have "keeps (\<lambda>w. w_files w ?svc = w_files w4 ?svc)
      (if m = Systemd then run_bind (systemctl_program h) (\<lambda>ctl. run_privileged h ctl [''daemon-reload'']) else run_lift (Ok ()))"
    using keeps_register(3) [OF keep(1)] by (auto intro!: keeps_intros)
  from keepsD [OF this re] have w5: "w_files w5 ?svc = w_files w4 ?svc" by simp
  from status_for_spec_Ok [OF keep(1) [of "w_files w4 ?svc"] st w5] svc w4 read_to_string_cong [OF w5]
    read_to_string_cong [of w' ?svc w4 h]
  show ?thesis by simp
qed

text \<open>A host with OpenRC on which the server runs as root.\<close>

definition example_exec :: "path \<Rightarrow> string list \<Rightarrow> world \<Rightarrow> cmd_output result \<times> world" where
  "example_exec program arguments w =
     (let ok = (\<lambda>s. Ok \<lparr>co_success = True, co_stdout = as_bytes s, co_stderr = []\<rparr>);
          svc = service_path OpenRc; tmp = ''/tmp/.sing-box-ser-mini-startup-7''
      in if arguments = [''-u''] then (ok ''0'', w)
         else if arguments = [''-un''] \<or> arguments = [''-gn''] then (ok ''root'', w)
         else if arguments = [''add'', SERVICE_NAME, ''default''] then (ok [], w)
         else if arguments = [''-m'', ''0755'', tmp, svc] then (ok [], w\<lparr>w_files := (w_files w)(svc := w_files w tmp)\<rparr>)
         else (Ok \<lparr>co_success = False, co_stdout = [], co_stderr = []\<rparr>, w))"

definition example_host :: host where
  "example_host = \<lparr>h_exec = example_exec, h_exe = Ok ''/opt/bin/server'', h_canonicalize = Ok, h_cwd = Ok ''/opt'',
     h_path_dirs = [], h_temp_dir = ''/tmp'', h_pid = 7, h_can_write = (\<lambda>_. True), h_readable = (\<lambda>_. True)\<rparr>"

definition example_world :: world where
  "example_world = \<lparr>w_files = (\<lambda>p. if p \<in> set [''/sbin/openrc-run'', ''/usr/bin/id'', ''/usr/bin/install'', ''/sbin/rc-update''] then Some [] else None),
     w_dirs = (\<lambda>p. p = ''/etc/init.d'')\<rparr>"

definition example_inputs :: StartupInputs where
  "example_inputs = \<lparr>si_config_path = ''c.toml'', si_credentials_path = ''a.toml'', si_token_file = None,
     si_webui_listen = ''[::1]:9080'', si_worker_threads = 2\<rparr>"

lemma example_temporary: "temporary_path example_host = ''/tmp/.sing-box-ser-mini-startup-7''"
  by code_simp

lemma find_program_first: "starts_with ''/'' c \<Longrightarrow> is_file w c \<Longrightarrow> find_program h w (c # cs) = Some c"
  by simp

lemma example_id: "command_text example_host p [''-u''] w = (Ok ''0'', w)"
proof -
  have "valid_str ''0''" "trim ''0'' = ''0''" by code_simp+
  then show ?thesis by (simp add: command_text_def example_host_def example_exec_def)
qed

lemma example_steps:
  assumes "is_manager spec = OpenRc" "is_service_path spec = service_path OpenRc"
    and "is_file w ''/usr/bin/id''" "is_file w ''/usr/bin/install''" "is_file w ''/sbin/rc-update''"
  shows "is_ok (fst (install_steps example_host spec ''/tmp/.sing-box-ser-mini-startup-7'' w))"
proof -
  let ?tmp = "''/tmp/.sing-box-ser-mini-startup-7''"
  let ?w = "w\<lparr>w_files := (w_files w)(service_path OpenRc := w_files w ?tmp)\<rparr>"
  have s: "starts_with ''/'' (CHR ''/'' # x)" for x by (simp add: starts_with_def)
  have ne: "service_path OpenRc \<noteq> ''/usr/bin/id''" "service_path OpenRc \<noteq> ''/sbin/rc-update''" by code_simp+
  have f: "is_file ?w ''/usr/bin/id''" "is_file ?w ''/sbin/rc-update''" using assms(3,5) ne by (auto simp: is_file_def)
  have "run_privileged example_host ''/usr/bin/install'' [''-m'', ''0755'', ?tmp, service_path OpenRc] w = (Ok (), ?w)"
    using assms(3) s by (simp add: run_privileged_def run_bind_def id_program_def example_id)
      (simp add: ensure_success_def example_host_def example_exec_def)
  moreover have "run_privileged example_host ''/sbin/rc-update'' [''add'', SERVICE_NAME, ''default''] ?w = (Ok (), ?w)"
    using f(1) s by (simp add: run_privileged_def run_bind_def id_program_def example_id)
      (simp add: ensure_success_def example_host_def example_exec_def)
  ultimately show ?thesis
    using assms f(2) s
    by (simp add: install_steps_def run_bind_def install_programs_def register_service_def rc_update_program_def
        status_for_spec_def is_enabled_def Let_def)
qed

lemma example_tools: "tools_ok example_host (service_path OpenRc) (temporary_path example_host)"
proof -
  have ne: "service_path OpenRc \<noteq> ''/tmp/.sing-box-ser-mini-startup-7''" by code_simp
  have sn: "service_path OpenRc \<notin> {''-u'', ''-un'', ''-gn'', ''default''}" using service_path_words [of OpenRc] by blast
  show ?thesis
    unfolding tools_ok_def example_temporary
    using ne sn
    by (auto simp: example_host_def example_exec_def Let_def Cons_eq_append_conv split: if_splits)
qed

section \<open>Properties\<close>





end
