(* ===== verification/Admin_Router.thy ===== *)
theory Admin_Router
  imports Admin_Api Startup
begin

text \<open>
  The management interface as a whole (\<^verbatim>\<open>src/src/admin.rs\<close>): the routing table, the startup
  endpoints, and one request handled from its path to the reply and the new state of the process.
  The extractors of the web framework (JSON bodies and decoded path segments) are part of the request.
\<close>

section \<open>Routes\<close>

datatype endpoint =
    Index | Styles | Script | Health | Login | Logout | Status | Network_Capabilities
  | Get_Reverse_Proxy | Put_Reverse_Proxy | Get_Config | Put_Config | Get_Vless_Users | Reload
  | Get_Startup | Install_Startup | Uninstall_Startup
  | List_Admin_Users | Add_Admin_User | Change_Admin_Password string | Delete_Admin_User string
  | Sublink_Convert string | Sublink_Shorten | Sublink_Shorten_Auto | Sublink_Shorten_Hy2
  | Sublink_Auto string | Sublink_Resolve | Sublink_Subconverter | Sublink_Redirect string string

text \<open>The methods and handlers of a path, given by its segments after the first slash. A fixed segment wins
  against a captured one, and a captured segment is not empty.\<close>

definition api_routes :: "(string list \<times> (string \<times> endpoint) list) list" where
  "api_routes =
     [([''health''], [(''GET'', Health)]),
      ([''login''], [(''POST'', Login)]),
      ([''logout''], [(''POST'', Logout)]),
      ([''status''], [(''GET'', Status)]),
      ([''network-capabilities''], [(''GET'', Network_Capabilities)]),
      ([''reverse-proxy''], [(''GET'', Get_Reverse_Proxy), (''PUT'', Put_Reverse_Proxy)]),
      ([''config''], [(''GET'', Get_Config), (''PUT'', Put_Config)]),
      ([''vless-users''], [(''GET'', Get_Vless_Users)]),
      ([''reload''], [(''POST'', Reload)]),
      ([''startup''], [(''GET'', Get_Startup), (''POST'', Install_Startup), (''DELETE'', Uninstall_Startup)]),
      ([''admin-users''], [(''GET'', List_Admin_Users), (''POST'', Add_Admin_User)])]"

definition page_routes :: "(string list \<times> (string \<times> endpoint) list) list" where
  "page_routes =
     [([[]], [(''GET'', Index)]),
      ([''app.css''], [(''GET'', Styles)]),
      ([''app.js''], [(''GET'', Script)]),
      ([''singbox''], [(''GET'', Sublink_Convert ''singbox'')]),
      ([''clash''], [(''GET'', Sublink_Convert ''clash'')]),
      ([''surge''], [(''GET'', Sublink_Convert ''surge'')]),
      ([''xray''], [(''GET'', Sublink_Convert ''xray'')]),
      ([''shorten-v2''], [(''GET'', Sublink_Shorten)]),
      ([''shorten-auto''], [(''GET'', Sublink_Shorten_Auto)]),
      ([''shorten-hy2''], [(''GET'', Sublink_Shorten_Hy2)]),
      ([''resolve''], [(''GET'', Sublink_Resolve)]),
      ([''subconverter''], [(''GET'', Sublink_Subconverter)])]"

definition captured_routes :: "string list \<Rightarrow> (string \<times> endpoint) list option" where
  "captured_routes segs =
     (case segs of
        [a, b, c, name] \<Rightarrow>
          if a = ''api'' \<and> b = ''v1'' \<and> c = ''admin-users'' \<and> name \<noteq> []
          then Some [(''PUT'', Change_Admin_Password name), (''DELETE'', Delete_Admin_User name)] else None
      | [p, c] \<Rightarrow>
          if p = [] \<or> c = [] then None
          else if p = ''sub'' then Some [(''GET'', Sublink_Auto c)]
          else Some [(''GET'', Sublink_Redirect p c)]
      | _ \<Rightarrow> None)"

definition path_routes :: "string list \<Rightarrow> (string \<times> endpoint) list option" where
  "path_routes segs =
     (case map_of (page_routes @ map (\<lambda>(s, ms). ([''api'', ''v1''] @ s, ms)) api_routes) segs of
        Some ms \<Rightarrow> Some ms
      | None \<Rightarrow> captured_routes segs)"

datatype route = Route endpoint | Method_Not_Allowed | No_Route

text \<open>A handler for \<^verbatim>\<open>GET\<close> also answers \<^verbatim>\<open>HEAD\<close>.\<close>

definition router :: "string \<Rightarrow> string \<Rightarrow> route" where
  "router verb path =
     (case path_routes (split_on (\<lambda>c. c = CHR ''/'') (drop 1 path)) of
        None \<Rightarrow> No_Route
      | Some ms \<Rightarrow>
          (case map_of ms (if verb = ''HEAD'' then ''GET'' else verb) of
             None \<Rightarrow> Method_Not_Allowed
           | Some e \<Rightarrow> Route e))"

section \<open>Requests\<close>

text \<open>A request with the bodies its JSON extractors read (\<open>None\<close> is a rejected body).\<close>

record admin_request =
  rq_method :: string
  rq_path :: string
  rq_headers :: headers
  rq_query :: uri_query
  rq_config :: "Config option"
  rq_settings :: "ReverseProxySettings option"
  rq_login :: "(string \<times> string) option"
  rq_account :: "(string \<times> string) option"
  rq_password :: "string option"

record admin_world =
  aw_files :: fs
  aw_main :: main_state
  aw_controller :: controller
  aw_short :: ShortStore
  aw_short_files :: files
  aw_traffic :: TrafficRegistry
  aw_world :: world

text \<open>The libraries, the fixed part of the state, the clocks, and the outcomes of the calls to the system.\<close>

record admin_env =
  ae_admin_libs :: admin_libs
  ae_ops :: rp_ops
  ae_state :: admin_state
  ae_libs :: libs
  ae_toml :: toml_lib
  ae_fs_ops :: fs_ops
  ae_probes :: probes
  ae_outcomes4 :: "unit result option list"
  ae_outcomes6 :: "unit result option list"
  ae_receiving :: bool
  ae_config_path :: path
  ae_rp_print :: "ReverseProxySettings \<Rightarrow> string option"
  ae_rp_tmp :: "path \<Rightarrow> path"
  ae_device :: string
  ae_sha256 :: "bytes \<Rightarrow> bytes"
  ae_sub_libs :: sub_libs
  ae_encoders :: header_encoders
  ae_links_print :: links_print
  ae_persist :: persist_io
  ae_random :: "bytes option"
  ae_now :: nat
  ae_later :: nat
  ae_unix :: u64
  ae_json :: "Value \<Rightarrow> string"
  ae_host :: host
  ae_webui :: string
  ae_token_file :: "path option"
  ae_worker_threads :: nat
  ae_decode :: "string \<Rightarrow> string option"
  ae_index_html :: bytes
  ae_app_css :: bytes
  ae_app_js :: bytes

datatype reply =
    Rp_Health | Rp_Login headers string u64 | Rp_Logout headers
  | Rp_Status StatusResponse | Rp_Capabilities NetworkCapabilitiesResponse | Rp_Proxy ReverseProxyStatus
  | Rp_Config Config | Rp_Vless "(string \<times> string) list" | Rp_Accepted | Rp_Users "string list"
  | Rp_Startup StartupStatus | Rp_Http http_response
  | Rp_Error nat string | Rp_Rejected | Rp_Not_Found | Rp_Not_Allowed | Rp_Panic

text \<open>The fixed pages; the files they carry are built into the program.\<close>

definition csp_directive :: "string \<Rightarrow> string \<Rightarrow> string" where
  "csp_directive name source = name @ '' '' @ [CHR 0x27] @ source @ [CHR 0x27]"

definition CONTENT_SECURITY_POLICY :: string where
  "CONTENT_SECURITY_POLICY =
     join ''; '' [csp_directive ''default-src'' ''self'',
       csp_directive ''script-src'' ''self'',
       csp_directive ''style-src'' ''self'',
       csp_directive ''connect-src'' ''self'',
       csp_directive ''img-src'' ''self'',
       csp_directive ''base-uri'' ''none'',
       csp_directive ''frame-ancestors'' ''none'',
       csp_directive ''form-action'' ''self'']"

definition index_page :: "bytes \<Rightarrow> http_response" where
  "index_page html =
     \<lparr>hs_status = 200,
      hs_headers = [(''content-type'', ''text/html; charset=utf-8''), (''content-security-policy'', CONTENT_SECURITY_POLICY),
        (''x-content-type-options'', ''nosniff''), (''referrer-policy'', ''no-referrer''), (''cache-control'', ''no-store'')],
      hs_body = html\<rparr>"

definition styles_page :: "bytes \<Rightarrow> http_response" where
  "styles_page css =
     \<lparr>hs_status = 200,
      hs_headers = [(''content-type'', ''text/css; charset=utf-8''), (''cache-control'', ''no-store''), (''x-content-type-options'', ''nosniff'')],
      hs_body = css\<rparr>"

definition script_page :: "bytes \<Rightarrow> http_response" where
  "script_page js =
     \<lparr>hs_status = 200,
      hs_headers = [(''content-type'', ''text/javascript; charset=utf-8''), (''cache-control'', ''no-store''), (''x-content-type-options'', ''nosniff'')],
      hs_body = js\<rparr>"

definition subconverter_page :: http_response where
  "subconverter_page =
     \<lparr>hs_status = 200, hs_headers = [(''content-type'', ''text/plain; charset=utf-8'')],
      hs_body = as_bytes (''[common]'' @ [CHR 0x0A] @ ''; Rust core keeps this endpoint local and dependency-free.'' @ [CHR 0x0A])\<rparr>"

definition api_reply :: "('a \<Rightarrow> reply) \<Rightarrow> 'a api \<Rightarrow> reply" where
  "api_reply f r = (case r of Ok x \<Rightarrow> f x | Err (st, m) \<Rightarrow> Rp_Error st m)"

definition auth_of :: "admin_env \<Rightarrow> admin_request \<Rightarrow> admin_world \<Rightarrow> unit api" where
  "auth_of e rq w = authorize (ae_admin_libs e) (ae_ops e) (ae_state e) (ae_unix e) (aw_files w) (rq_headers rq)"

definition startup_inputs :: "admin_env \<Rightarrow> StartupInputs" where
  "startup_inputs e =
     \<lparr>si_config_path = ae_config_path e, si_credentials_path = as_credentials_path (ae_state e),
      si_token_file = ae_token_file e, si_webui_listen = ae_webui e, si_worker_threads = ae_worker_threads e\<rparr>"

definition startup_handler ::
  "(host \<Rightarrow> StartupInputs \<Rightarrow> StartupStatus run) \<Rightarrow> admin_env \<Rightarrow> admin_request \<Rightarrow> admin_world \<Rightarrow> reply \<times> admin_world" where
  "startup_handler operation e rq w =
     (case auth_of e rq w of
        Err (st, m) \<Rightarrow> (Rp_Error st m, w)
      | Ok _ \<Rightarrow>
          (case operation (ae_host e) (startup_inputs e) (aw_world w) of
             (r, world) \<Rightarrow> (api_reply Rp_Startup (map_err internal r), w\<lparr>aw_world := world\<rparr>)))"

definition network_capabilities :: "admin_env \<Rightarrow> admin_request \<Rightarrow> admin_world \<Rightarrow> NetworkCapabilitiesResponse api" where
  "network_capabilities e rq w =
     and_then (auth_of e rq w) (\<lambda>_.
     and_then (map_err bad_request (load (tl_parse (ae_toml e)) (ae_libs e) (aw_files w) (ae_config_path e))) (\<lambda>_.
     Ok (capabilities (ae_probes e) (ae_outcomes4 e) (ae_outcomes6 e))))"

definition get_reverse_proxy :: "admin_env \<Rightarrow> admin_request \<Rightarrow> admin_world \<Rightarrow> ReverseProxyStatus api" where
  "get_reverse_proxy e rq w =
     and_then (auth_of e rq w) (\<lambda>_. Ok (rp_status (ae_device e) (ae_now e) (aw_controller w)))"

text \<open>\<open>with_body\<close> and \<open>with_segment\<close> are the extractors: a body or segment they reject is answered before
  the handler runs.\<close>

definition with_body :: "'a option \<Rightarrow> ('a \<Rightarrow> admin_world \<Rightarrow> reply \<times> admin_world) \<Rightarrow> admin_world \<Rightarrow> reply \<times> admin_world" where
  "with_body b f w = (case b of None \<Rightarrow> (Rp_Rejected, w) | Some x \<Rightarrow> f x w)"

fun account_handler :: "admin_env \<Rightarrow> admin_request \<Rightarrow> endpoint \<Rightarrow> admin_world \<Rightarrow> reply \<times> admin_world" where
  "account_handler e rq List_Admin_Users w =
     (api_reply Rp_Users (list_admin_users (ae_admin_libs e) (ae_ops e) (ae_state e) (ae_unix e) (rq_headers rq) (aw_files w)), w)"
| "account_handler e rq Add_Admin_User w =
     with_body (rq_account rq) (\<lambda>(name, pass) w.
       case add_admin_user (ae_admin_libs e) (ae_ops e) (ae_state e) (ae_unix e) (rq_headers rq) name pass (aw_files w) of
         (r, files) \<Rightarrow> (api_reply (\<lambda>_. Rp_Accepted) r, w\<lparr>aw_files := files\<rparr>)) w"
| "account_handler e rq (Change_Admin_Password seg) w =
     with_body (ae_decode e seg) (\<lambda>name. with_body (rq_password rq) (\<lambda>pass w.
       case change_admin_password (ae_admin_libs e) (ae_ops e) (ae_state e) (ae_unix e) (rq_headers rq) name pass (aw_files w) of
         (r, files) \<Rightarrow> (api_reply (\<lambda>_. Rp_Accepted) r, w\<lparr>aw_files := files\<rparr>))) w"
| "account_handler e rq (Delete_Admin_User seg) w =
     with_body (ae_decode e seg) (\<lambda>name w.
       case delete_admin_user (ae_admin_libs e) (ae_ops e) (ae_state e) (ae_unix e) (rq_headers rq) name (aw_files w) of
         (r, files) \<Rightarrow> (api_reply (\<lambda>_. Rp_Accepted) r, w\<lparr>aw_files := files\<rparr>)) w"
| "account_handler e rq _ w = (Rp_Not_Found, w)"

fun config_handler :: "admin_env \<Rightarrow> admin_request \<Rightarrow> endpoint \<Rightarrow> admin_world \<Rightarrow> reply \<times> admin_world" where
  "config_handler e rq Get_Config w =
     (api_reply Rp_Config (get_config (ae_libs e) (ae_toml e) (ae_probes e) (auth_of e rq w) (ae_config_path e) (aw_files w)), w)"
| "config_handler e rq Get_Vless_Users w =
     (api_reply Rp_Vless (get_vless_users (ae_libs e) (ae_toml e) (ae_sha256 e) (auth_of e rq w) (ae_config_path e) (aw_files w)), w)"
| "config_handler e rq Put_Config w =
     with_body (rq_config rq) (\<lambda>c w.
       case put_config (ae_libs e) (ae_toml e) (ae_fs_ops e) (ae_probes e) (auth_of e rq w) (ae_receiving e)
              (ae_config_path e) c (aw_files w) (aw_main w) of
         (r, files, m) \<Rightarrow> (api_reply (\<lambda>_. Rp_Accepted) r, w\<lparr>aw_files := files, aw_main := m\<rparr>)) w"
| "config_handler e rq Reload w =
     (case reload (ae_libs e) (ae_toml e) (auth_of e rq w) (ae_receiving e) (ae_config_path e) (aw_files w) (aw_main w) of
        (r, m) \<Rightarrow> (api_reply (\<lambda>_. Rp_Accepted) r, w\<lparr>aw_main := m\<rparr>))"
| "config_handler e rq Status w =
     (api_reply Rp_Status (status (auth_of e rq w) (ae_now e) (ae_webui e) (aw_traffic w) (aw_main w)), w)"
| "config_handler e rq Network_Capabilities w = (api_reply Rp_Capabilities (network_capabilities e rq w), w)"
| "config_handler e rq Get_Reverse_Proxy w = (api_reply Rp_Proxy (get_reverse_proxy e rq w), w)"
| "config_handler e rq Put_Reverse_Proxy w =
     with_body (rq_settings rq) (\<lambda>s w.
       case put_reverse_proxy (ae_libs e) (ae_rp_print e) (ae_rp_tmp e) (ae_ops e) (ae_device e) (ae_now e) (auth_of e rq w) s
              (aw_controller w) (aw_files w) of
         (r, ct, files) \<Rightarrow> (api_reply Rp_Proxy r, w\<lparr>aw_controller := ct, aw_files := files\<rparr>)) w"
| "config_handler e rq Get_Startup w = startup_handler inspect e rq w"
| "config_handler e rq Install_Startup w = startup_handler install e rq w"
| "config_handler e rq Uninstall_Startup w = startup_handler uninstall e rq w"
| "config_handler e rq _ w = (Rp_Not_Found, w)"

fun public_handler :: "admin_env \<Rightarrow> admin_request \<Rightarrow> endpoint \<Rightarrow> admin_world \<Rightarrow> reply \<times> admin_world" where
  "public_handler e rq Health w = (Rp_Health, w)"
| "public_handler e rq Login w =
     with_body (rq_login rq) (\<lambda>(name, pass) w.
       (api_reply (\<lambda>(hs, who, expires). Rp_Login hs who expires)
          (login (ae_admin_libs e) (ae_ops e) (ae_state e) (ae_unix e) (aw_files w) name pass), w)) w"
| "public_handler e rq Logout w = (Rp_Logout logout, w)"
| "public_handler e rq (Sublink_Convert fmt) w =
     (case sublink_convert (ae_sub_libs e) (ae_encoders e) fmt (rq_query rq) of
        None \<Rightarrow> (Rp_Panic, w) | Some r \<Rightarrow> (Rp_Http r, w))"
| "public_handler e rq Sublink_Shorten w =
     (case sublink_shorten (ae_sub_libs e) (ae_random e) (ae_now e) (ae_later e) (rq_query rq) (aw_short w) of
        None \<Rightarrow> (Rp_Panic, w)
      | Some (r, st) \<Rightarrow> (Rp_Http r, w\<lparr>aw_short := st\<rparr>))"
| "public_handler e rq Sublink_Shorten_Auto w =
     (case sublink_shorten_auto (ae_sub_libs e) (ae_links_print e) (ae_persist e) (ae_unix e) (rq_query rq) (aw_short w) (aw_short_files w) of
        (r, st, files) \<Rightarrow> (Rp_Http r, w\<lparr>aw_short := st, aw_short_files := files\<rparr>))"
| "public_handler e rq Sublink_Shorten_Hy2 w =
     (case sublink_shorten_hy2 (ae_sub_libs e) (ae_links_print e) (ae_persist e) (rq_query rq) (aw_short w) (aw_short_files w) of
        (r, st, files) \<Rightarrow> (Rp_Http r, w\<lparr>aw_short := st, aw_short_files := files\<rparr>))"
| "public_handler e rq (Sublink_Auto seg) w =
     with_body (ae_decode e seg) (\<lambda>c w.
       case sublink_auto (ae_sub_libs e) (ae_encoders e) (ae_now e) (ae_unix e) (rq_headers rq) c (rq_query rq) (aw_short w) of
         (None, st) \<Rightarrow> (Rp_Panic, w\<lparr>aw_short := st\<rparr>)
       | (Some r, st) \<Rightarrow> (Rp_Http r, w\<lparr>aw_short := st\<rparr>)) w"
| "public_handler e rq Sublink_Resolve w =
     (case sublink_resolve (ae_sub_libs e) (ae_json e) (ae_now e) (ae_unix e) (rq_query rq) (aw_short w) of
        (r, st) \<Rightarrow> (Rp_Http r, w\<lparr>aw_short := st\<rparr>))"
| "public_handler e rq (Sublink_Redirect p seg) w =
     with_body (ae_decode e p) (\<lambda>p. with_body (ae_decode e seg) (\<lambda>c w.
       case sublink_redirect (ae_now e) (ae_unix e) p c (aw_short w) of
         (r, st) \<Rightarrow> (Rp_Http r, w\<lparr>aw_short := st\<rparr>))) w"
| "public_handler e rq Index w = (Rp_Http (index_page (ae_index_html e)), w)"
| "public_handler e rq Styles w = (Rp_Http (styles_page (ae_app_css e)), w)"
| "public_handler e rq Script w = (Rp_Http (script_page (ae_app_js e)), w)"
| "public_handler e rq Sublink_Subconverter w = (Rp_Http subconverter_page, w)"
| "public_handler e rq _ w = (Rp_Not_Found, w)"

definition is_public :: "endpoint \<Rightarrow> bool" where
  "is_public ep =
     (case ep of
        Status \<Rightarrow> False | Network_Capabilities \<Rightarrow> False | Get_Reverse_Proxy \<Rightarrow> False | Put_Reverse_Proxy \<Rightarrow> False
      | Get_Config \<Rightarrow> False | Put_Config \<Rightarrow> False | Get_Vless_Users \<Rightarrow> False | Reload \<Rightarrow> False
      | Get_Startup \<Rightarrow> False | Install_Startup \<Rightarrow> False | Uninstall_Startup \<Rightarrow> False
      | List_Admin_Users \<Rightarrow> False | Add_Admin_User \<Rightarrow> False | Change_Admin_Password _ \<Rightarrow> False | Delete_Admin_User _ \<Rightarrow> False
      | _ \<Rightarrow> True)"

definition is_account :: "endpoint \<Rightarrow> bool" where
  "is_account ep =
     (case ep of List_Admin_Users \<Rightarrow> True | Add_Admin_User \<Rightarrow> True | Change_Admin_Password _ \<Rightarrow> True | Delete_Admin_User _ \<Rightarrow> True
      | _ \<Rightarrow> False)"

definition handle :: "admin_env \<Rightarrow> admin_request \<Rightarrow> admin_world \<Rightarrow> reply \<times> admin_world" where
  "handle e rq w =
     (case router (rq_method rq) (rq_path rq) of
        No_Route \<Rightarrow> (Rp_Not_Found, w)
      | Method_Not_Allowed \<Rightarrow> (Rp_Not_Allowed, w)
      | Route ep \<Rightarrow>
          if is_public ep then public_handler e rq ep w
          else if is_account ep then account_handler e rq ep w
          else config_handler e rq ep w)"

section \<open>Lemmas\<close>

text \<open>The replies that reveal nothing of the management state.\<close>

definition public_reply :: "reply \<Rightarrow> bool" where
  "public_reply r =
     (case r of
        Rp_Status _ \<Rightarrow> False | Rp_Capabilities _ \<Rightarrow> False | Rp_Proxy _ \<Rightarrow> False | Rp_Config _ \<Rightarrow> False | Rp_Vless _ \<Rightarrow> False
      | Rp_Accepted \<Rightarrow> False | Rp_Users _ \<Rightarrow> False | Rp_Startup _ \<Rightarrow> False | _ \<Rightarrow> True)"

lemma api_reply_Err [simp]: "api_reply f (Err err) = Rp_Error (fst err) (snd err)"
  by (cases err) (simp add: api_reply_def)

lemma config_handler_unauthorized:
  assumes "auth_of e rq w = Err err" "\<not> is_public ep" "\<not> is_account ep"
  shows "config_handler e rq ep w \<in> {(Rp_Rejected, w), (Rp_Error (fst err) (snd err), w)}"
  using assms
  by (cases ep; cases err; cases "rq_config rq"; cases "rq_settings rq")
    (simp_all add: is_public_def is_account_def with_body_def get_config_def get_vless_users_def put_config_def reload_def
      status_def network_capabilities_def get_reverse_proxy_def put_reverse_proxy_def startup_handler_def)

lemma account_handler_unauthorized:
  assumes "auth_of e rq w = Err err" "is_account ep"
  shows "account_handler e rq ep w \<in> {(Rp_Rejected, w), (Rp_Error (fst err) (snd err), w)}"
proof -
  have a: "authorize (ae_admin_libs e) (ae_ops e) (ae_state e) (ae_unix e) (aw_files w) (rq_headers rq) = Err err"
    using assms(1) by (simp add: auth_of_def)
  show ?thesis
    using assms(2) a
    by (cases ep) (auto simp: is_account_def with_body_def list_admin_users_def add_admin_user_def change_admin_password_def
        delete_admin_user_def Let_def split: option.split)
qed

text \<open>The public endpoints change only the short links.\<close>

lemma public_handler_confined:
  assumes "public_handler e rq ep w = (r, w')" "is_public ep"
  shows "public_reply r \<and> w' = w\<lparr>aw_short := aw_short w', aw_short_files := aw_short_files w'\<rparr>"
proof (cases ep)
  case Login
  with assms(1) show ?thesis
    by (cases "login (ae_admin_libs e) (ae_ops e) (ae_state e) (ae_unix e) (aw_files w) (fst (the (rq_login rq))) (snd (the (rq_login rq)))")
      (auto simp: with_body_def public_reply_def api_reply_def split: option.splits prod.splits)
qed (use assms in \<open>auto simp: is_public_def with_body_def public_reply_def split: option.splits prod.splits\<close>)

text \<open>Below \<^verbatim>\<open>/api/v1\<close> only three endpoints are public.\<close>

lemma api_routes_protected:
  assumes "path_routes (''api'' # ''v1'' # x # xs) = Some ms" "map_of ms verb = Some ep" "is_public ep"
  shows "ep \<in> {Health, Login, Logout}"
proof -
  have "list_all (\<lambda>(_, ms). list_all (\<lambda>(_, ep). is_public ep \<longrightarrow> ep \<in> {Health, Login, Logout}) ms) api_routes"
    by code_simp
  then have api: "is_public ep \<longrightarrow> ep \<in> {Health, Login, Logout}" if "(s, ms) \<in> set api_routes" "(v, ep) \<in> set ms" for s ms v ep
    using that unfolding list_all_iff by blast
  have "list_all (\<lambda>(s, _). length s = 1) page_routes" by code_simp
  then have page: "map_of page_routes (''api'' # ''v1'' # x # xs) = None"
    by (fastforce simp: map_of_eq_None_iff list_all_iff)
  show ?thesis
  proof (cases "map_of (map (\<lambda>(s, ms). ([''api'', ''v1''] @ s, ms)) api_routes) (''api'' # ''v1'' # x # xs)")
    case None
    with assms page show ?thesis
      by (auto simp: path_routes_def captured_routes_def map_add_def is_public_def split: list.splits if_splits)
  next
    case (Some ms')
    with assms(1) page have "ms' = ms" by (simp add: path_routes_def map_add_def)
    with Some have "(''api'' # ''v1'' # x # xs, ms) \<in> set (map (\<lambda>(s, ms). ([''api'', ''v1''] @ s, ms)) api_routes)"
      by (auto dest: map_of_SomeD)
    then have "(x # xs, ms) \<in> set api_routes" by auto
    with api assms(2,3) show ?thesis by (blast dest: map_of_SomeD)
  qed
qed

section \<open>Properties\<close>



end
