(* ===== verification/Main_Program.thy ===== *)
theory Main_Program
  imports Admin_Router
begin

text \<open>
  The program itself (\<^verbatim>\<open>src/src/main.rs\<close>) and the start of the management process
  (\<^verbatim>\<open>run\<close> in \<^verbatim>\<open>src/src/admin.rs\<close>): which part runs for which arguments, and the state the management
  interface starts in. Parsing the command line is the library's; the files, the environment and the
  outcome of binding the listener are arguments.
\<close>

section \<open>Arguments\<close>

datatype Command =
    NatGateway string string path nat
  | NatClient string string path nat

record Args =
  ar_command :: "Command option"
  ar_config :: path
  ar_check :: bool
  ar_admin_listen :: SocketAddr
  ar_admin_token_file :: "path option"
  ar_admin_credentials_file :: path
  ar_admin_username :: string
  ar_reset_admin_password :: bool
  ar_no_admin :: bool
  ar_worker_threads :: "nat option"

text \<open>\<open>parallelism\<close> is what the system reports, if it does.\<close>

definition worker_threads :: "nat option \<Rightarrow> Args \<Rightarrow> nat result" where
  "worker_threads parallelism args =
     (let w = (case ar_worker_threads args of
                 Some n \<Rightarrow> n
               | None \<Rightarrow> min (case parallelism of None \<Rightarrow> 1 | Some n \<Rightarrow> n) 4)
      in and_then (ensure (w > 0) ''worker thread count must be greater than zero'') (\<lambda>_. Ok w))"

section \<open>Dispatch\<close>

record program_env =
  pe_admin_libs :: admin_libs
  pe_ops :: rp_ops
  pe_libs :: libs
  pe_toml :: toml_lib
  pe_random :: "bytes option"
  pe_env :: "string \<rightharpoonup> string"
  pe_hostname :: "string option"
  pe_parallelism :: "nat option"

text \<open>What the program goes on to do: run a part, or stop after printing. \<open>Run_Admin\<close> carries the arguments of
  \<^verbatim>\<open>admin::run\<close> and what was printed before.\<close>

datatype action =
    Start_Gateway GatewayOptions
  | Start_Client ClientOptions
  | Printed "string list"
  | Start_Server Config
  | Start_Admin path SocketAddr "string option" path "path option" nat "string list"

definition credential_lines :: "AdminCredentials \<Rightarrow> path \<Rightarrow> string list" where
  "credential_lines c path =
     [''Admin username: '' @ admin_name c, ''Admin password: '' @ admin_password c, ''Credentials written to '' @ path]"

definition read_text :: "rp_ops \<Rightarrow> fs \<Rightarrow> path \<Rightarrow> string option" where
  "read_text ops files path = (if can_read ops path then map_option file_contents (files path) else None)"

definition run_command :: "program_env \<Rightarrow> Command \<Rightarrow> fs \<Rightarrow> action result" where
  "run_command pe cmd files =
     (case cmd of
        NatGateway tunnel_listen public_listen token_file queue_capacity \<Rightarrow>
          and_then (read_token (read_text (pe_ops pe) files token_file) token_file) (\<lambda>token.
          Ok (Start_Gateway \<lparr>go_tunnel_listen = tunnel_listen, go_public_listen = public_listen, go_token = token,
                go_queue_capacity = queue_capacity\<rparr>))
      | NatClient gateway local token_file pool_size \<Rightarrow>
          and_then (read_token (read_text (pe_ops pe) files token_file) token_file) (\<lambda>token.
          Ok (Start_Client \<lparr>co_gateway = gateway, co_local = local, co_token = token, co_pool_size = pool_size,
                co_node_name = system_device_name (pe_hostname pe) (pe_env pe ''HOSTNAME''), co_subscription_url = []\<rparr>)))"

definition admin_token :: "program_env \<Rightarrow> Args \<Rightarrow> fs \<Rightarrow> string option result" where
  "admin_token pe args files =
     (case ar_admin_token_file args of
        Some path \<Rightarrow> and_then (ok_or (read_text (pe_ops pe) files path) ''No such file or directory'') (\<lambda>t. Ok (Some (trim t)))
      | None \<Rightarrow> Ok (pe_env pe ''SING_BOX_SER_MINI_ADMIN_TOKEN''))"

definition program_run :: "program_env \<Rightarrow> Args \<Rightarrow> nat \<Rightarrow> fs \<Rightarrow> action result \<times> fs" where
  "program_run pe args workers files =
     (case ar_command args of
        Some cmd \<Rightarrow> (run_command pe cmd files, files)
      | None \<Rightarrow>
          if ar_reset_admin_password args then
            (case reset_credentials (pe_admin_libs pe) (pe_ops pe) (pe_random pe) (ar_admin_credentials_file args) (ar_admin_username args) files of
               (Err e, files) \<Rightarrow> (Err e, files)
             | (Ok c, files) \<Rightarrow> (Ok (Printed (credential_lines c (ar_admin_credentials_file args))), files))
          else (case load (tl_parse (pe_toml pe)) (pe_libs pe) files (ar_config args) of
            Err e \<Rightarrow> (Err e, files)
          | Ok c \<Rightarrow>
              if ar_check args then
                (Ok (Printed [''HY2, SSH, and VLESS server configuration is valid: listen='' @ show_socket_addr (listen c) @
                   '', users='' @ show_nat (length (users c))]), files)
              else if ar_no_admin args then (Ok (Start_Server c), files)
              else (case admin_token pe args files of
                Err e \<Rightarrow> (Err e, files)
              | Ok token \<Rightarrow>
                  (case load_or_create_credentials (pe_admin_libs pe) (pe_ops pe) (pe_random pe) (ar_admin_credentials_file args)
                          (ar_admin_username args) files of
                     (Err e, files) \<Rightarrow> (Err e, files)
                   | (Ok (cr, created), files) \<Rightarrow>
                       (Ok (Start_Admin (ar_config args) (ar_admin_listen args) token (ar_admin_credentials_file args)
                          (ar_admin_token_file args) workers
                          (if created then ''Generated WebUI credentials'' # credential_lines cr (ar_admin_credentials_file args) else [])),
                        files)))))"

definition main_program :: "program_env \<Rightarrow> Args \<Rightarrow> fs \<Rightarrow> action result \<times> fs" where
  "main_program pe args files =
     (case worker_threads (pe_parallelism pe) args of
        Err e \<Rightarrow> (Err e, files)
      | Ok workers \<Rightarrow> program_run pe args workers files)"

section \<open>The management process\<close>

text \<open>\<^verbatim>\<open>Path::with_file_name\<close> of the path of a file.\<close>

definition with_file_name :: "path \<Rightarrow> string \<Rightarrow> path" where
  "with_file_name p name =
     (case rsplit_once (CHR ''/'') p of None \<Rightarrow> name | Some (dir, _) \<Rightarrow> dir @ ''/'' @ name)"

record start_env =
  se_rp_print :: "ReverseProxySettings \<Rightarrow> string option"
  se_rp_parse :: "string \<Rightarrow> ReverseProxySettings option"
  se_rp_tmp :: "path \<Rightarrow> path"
  se_random :: "bytes option"
  se_links_parse :: links_parse
  se_short_readable :: "string \<Rightarrow> bool"
  se_short_files :: files
  se_now :: nat
  se_bind :: bool
  se_probes :: probes
  se_world :: world

definition admin_start ::
  "program_env \<Rightarrow> start_env \<Rightarrow> path \<Rightarrow> SocketAddr \<Rightarrow> path \<Rightarrow> fs \<Rightarrow> admin_world result \<times> fs" where
  "admin_start pe se config_path addr credentials_path files =
     (case load_credentials (pe_admin_libs pe) (pe_ops pe) credentials_path files of
        Err e \<Rightarrow> (Err (show_cred_error credentials_path e), files)
      | Ok _ \<Rightarrow>
          (case controller_new (se_rp_print se) (se_rp_parse se) (pe_libs pe) (se_rp_tmp se) (pe_ops pe) (se_random se)
                  (system_device_name (pe_hostname pe) (pe_env pe ''HOSTNAME'')) (se_now se)
                  (with_file_name config_path ''reverse-proxy.toml'') files of
             (Err e, files) \<Rightarrow> (Err e, files)
           | (Ok ct, files) \<Rightarrow>
               (case from_env (se_links_parse se) (pe_env pe) (se_short_readable se) (se_short_files se)
                       (Some (with_file_name config_path ''hy2-short-links.toml'')) of
                  Err e \<Rightarrow> (Err e, files)
                | Ok st \<Rightarrow>
                    if \<not> se_bind se then (Err (''bind management WebUI on '' @ show_socket_addr addr), files)
                    else
                      (Ok \<lparr>aw_files = files,
                        aw_main = begin_generation (se_probes se) (se_now se)
                          (load (tl_parse (pe_toml pe)) (pe_libs pe) files config_path)
                          \<lparr>ms_phase = Broken, ms_generation = 0, ms_runtime = RuntimeState_default, ms_queue = 0\<rparr>,
                        aw_controller = ct, aw_short = st, aw_short_files = se_short_files se,
                        aw_traffic = TrafficRegistry_default, aw_world = se_world se\<rparr>, files))))"

section \<open>Lemmas\<close>

lemma write_private_other:
  "write_private what with_tmp ops path contents files = (r, files') \<Longrightarrow> p \<notin> {path, with_tmp path} \<Longrightarrow> files' p = files p"
  by (auto simp: write_private_def Let_def split: if_splits)

lemma load_or_create_credentials_other:
  assumes "load_or_create_credentials al ops random path name files = (r, files')" "p \<notin> {path, al_with_tmp al path}"
  shows "files' p = files p"
  using assms
  by (auto simp: load_or_create_credentials_def write_credentials_def split: sum.splits prod.splits cred_error.splits
      dest: write_private_other)

lemma controller_new_other:
  assumes "controller_new print parse lb with_tmp ops random device now path files = (r, files')" "p \<notin> {path, with_tmp path}"
  shows "files' p = files p"
proof -
  have "(rp_save print lb with_tmp ops path s files = (x, files1)) \<Longrightarrow> files1 p = files p" for s x files1
    using assms(2) by (auto simp: rp_save_def split: sum.splits dest: write_private_other)
  with assms(1) show ?thesis
    by (auto simp: controller_new_def load_or_create_def Let_def split: sum.splits prod.splits if_splits option.splits)
qed

lemma load_cong: "files' path = files path \<Longrightarrow> load parse lb files' path = load parse lb files path"
  by (simp add: load_def)

lemma accounts_cong: "files' path = files path \<Longrightarrow> accounts al path files' = accounts al path files"
  by (simp add: accounts_def)

lemma worker_threads_Ok:
  "worker_threads parallelism args = Ok w \<longleftrightarrow> 0 < w \<and>
     w = (case ar_worker_threads args of Some n \<Rightarrow> n | None \<Rightarrow> min (case parallelism of None \<Rightarrow> 1 | Some n \<Rightarrow> n) 4)"
  by (auto simp: worker_threads_def result_simps Let_def)

lemma load_or_create_credentials_Ok:
  assumes "load_or_create_credentials al ops random path name files = (Ok r, files')" "codec_ok al"
  shows "accounts al path files' \<noteq> None"
proof (cases "load_credentials al ops path files")
  case (Inl e)
  with assms(1) obtain c where "write_credentials al ops path [c] files = (Ok (), files')"
    by (auto simp: load_or_create_credentials_def split: sum.splits prod.splits cred_error.splits)
  from write_credentials_Ok [OF this assms(2)] show ?thesis by simp
next
  case (Inr us)
  with assms(1) show ?thesis by (auto simp: load_or_create_credentials_def dest: load_credentials_Ok)
qed

lemma start_admin_cases:
  assumes "program_run pe args workers files = (Ok (Start_Admin cfg addr token creds tf w printed), files')"
  shows "\<exists>c cr created. load (tl_parse (pe_toml pe)) (pe_libs pe) files cfg = Ok c \<and> cfg = ar_config args \<and> addr = ar_admin_listen args \<and>
    creds = ar_admin_credentials_file args \<and> tf = ar_admin_token_file args \<and> w = workers \<and> admin_token pe args files = Ok token \<and>
    \<not> ar_check args \<and> \<not> ar_no_admin args \<and> \<not> ar_reset_admin_password args \<and> ar_command args = None \<and>
    load_or_create_credentials (pe_admin_libs pe) (pe_ops pe) (pe_random pe) creds (ar_admin_username args) files = (Ok (cr, created), files')"
  using assms
  by (auto simp: program_run_def run_command_def result_simps split: option.splits Command.splits if_splits sum.splits prod.splits)

text \<open>A blank token file is a token too, the empty one, and it is the one a client without a token sends after the
  scheme.\<close>

lemma blank_admin_token:
  "trim t = [] \<Longrightarrow> ar_admin_token_file args = Some path \<Longrightarrow> read_text (pe_ops pe) files path = Some t \<Longrightarrow>
   admin_token pe args files = Ok (Some []) \<and>
   bearer_ok \<lparr>as_token = Some (as_bytes []), as_credentials_path = p\<rparr> [(''authorization'', ''Bearer '')]"
proof -
  have "bearer_ok \<lparr>as_token = Some (as_bytes []), as_credentials_path = []\<rparr> [(''authorization'', ''Bearer '')]" by code_simp
  then show "trim t = [] \<Longrightarrow> ar_admin_token_file args = Some path \<Longrightarrow> read_text (pe_ops pe) files path = Some t \<Longrightarrow> ?thesis"
    by (simp add: admin_token_def bearer_ok_def)
qed

text \<open>A small installation.\<close>

definition example_program_env :: program_env where
  "example_program_env = \<lparr>pe_admin_libs = example_admin_libs, pe_ops = example_ops, pe_libs = example_libs,
     pe_toml = \<lparr>tl_print = (\<lambda>_. None), tl_parse = (\<lambda>s. if s = ''c'' then Some example_config else None), tl_with_tmp = (\<lambda>p. p @ ''.tmp'')\<rparr>,
     pe_random = None, pe_env = Map.empty, pe_hostname = Some ''box'', pe_parallelism = Some 8\<rparr>"

definition example_args :: Args where
  "example_args = \<lparr>ar_command = None, ar_config = ''c.toml'', ar_check = False, ar_admin_listen = SocketAddrV4 0 9080,
     ar_admin_token_file = None, ar_admin_credentials_file = ''a.toml'', ar_admin_username = ''admin'', ar_reset_admin_password = False,
     ar_no_admin = False, ar_worker_threads = None\<rparr>"

definition example_installation :: fs where
  "example_installation = [''a.toml'' \<mapsto> \<lparr>file_contents = ''x'', file_mode = 384\<rparr>, ''c.toml'' \<mapsto> \<lparr>file_contents = ''c'', file_mode = 420\<rparr>,
     ''reverse-proxy.toml'' \<mapsto> \<lparr>file_contents = ''x'', file_mode = 384\<rparr>]"

definition example_start_env :: start_env where
  "example_start_env = \<lparr>se_rp_print = (\<lambda>s. if s = example_settings then Some ''x'' else None),
     se_rp_parse = (\<lambda>t. if t = ''x'' then Some example_settings else None), se_rp_tmp = (\<lambda>p. p @ ''.tmp''), se_random = None,
     se_links_parse = (\<lambda>_. None), se_short_readable = (\<lambda>_. True), se_short_files = Map.empty, se_now = 0, se_bind = True,
     se_probes = \<lparr>pr_local4 = None, pr_local6 = None\<rparr>, se_world = example_world\<rparr>"

lemma example_load_credentials: "load_credentials example_admin_libs example_ops ''a.toml'' example_installation = Ok [example_admin]"
proof -
  have "parse_credentials example_admin_libs ''x'' = Ok [example_admin]" by code_simp
  then show ?thesis by (simp add: load_credentials_def example_ops_def example_installation_def)
qed

lemma example_main:
  "main_program example_program_env example_args example_installation =
     (Ok (Start_Admin ''c.toml'' (SocketAddrV4 0 9080) None ''a.toml'' None 4 []), example_installation)"
proof -
  have w: "worker_threads (Some 8) example_args = Ok 4"
    by (simp add: worker_threads_def example_args_def)
  have l: "load (\<lambda>s. if s = ''c'' then Some example_config else None) example_libs example_installation ''c.toml'' = Ok example_config"
    by (simp add: load_def example_installation_def from_toml_def example_config_valid)
  have "program_run example_program_env example_args 4 example_installation =
      (Ok (Start_Admin ''c.toml'' (SocketAddrV4 0 9080) None ''a.toml'' None 4 []), example_installation)"
    by (simp add: example_program_env_def program_run_def example_args_def l admin_token_def
        load_or_create_credentials_def example_load_credentials)
  with w show ?thesis by (simp add: main_program_def example_program_env_def)
qed

section \<open>Properties\<close>

text \<open>What the program runs. It starts no part with zero worker threads, and at most four unless told otherwise. It
  starts the proxy or the management interface only on a configuration that loads and
  validates, and the interface only over a credentials file that holds at least one account. Checking a configuration and
  running a tunnel command change no file, and a failed start reports an error instead.\<close>

theorem program_dispatch:
  assumes "codec_ok (pe_admin_libs pe)" "main_program pe args files = (Ok act, files')"
  shows "(\<exists>workers. worker_threads (pe_parallelism pe) args = Ok workers \<and> 0 < workers \<and>
      (ar_worker_threads args = None \<longrightarrow> workers \<le> 4) \<and>
      (\<forall>cfg addr token creds tf w printed. act = Start_Admin cfg addr token creds tf w printed \<longrightarrow> w = workers \<and>
         is_ok (load (tl_parse (pe_toml pe)) (pe_libs pe) files cfg) \<and>
         (\<exists>us. accounts (pe_admin_libs pe) creds files' = Some us \<and> us \<noteq> []))) \<and>
    (\<forall>c. act = Start_Server c \<longrightarrow> load (tl_parse (pe_toml pe)) (pe_libs pe) files (ar_config args) = Ok c \<and> validate (pe_libs pe) c = Ok ()) \<and>
    (ar_command args \<noteq> None \<or> ar_check args \<and> \<not> ar_reset_admin_password args \<longrightarrow> files' = files)"
proof -
  obtain workers where w: "worker_threads (pe_parallelism pe) args = Ok workers"
    and r: "program_run pe args workers files = (Ok act, files')"
    using assms(2) by (auto simp: main_program_def split: sum.splits)
  have "is_ok (load (tl_parse (pe_toml pe)) (pe_libs pe) files cfg) \<and> (\<exists>us. accounts (pe_admin_libs pe) creds files' = Some us \<and> us \<noteq> [])"
    if "act = Start_Admin cfg addr token creds tf n printed" for cfg addr token creds tf n printed
    using start_admin_cases [OF r [unfolded that]] load_or_create_credentials_Ok [OF _ assms(1)] accounts_Some
    by (metis is_ok_simps(1) option.exhaust)
  moreover have "n = workers" if "act = Start_Admin cfg addr token creds tf n printed" for cfg addr token creds tf n printed
    using start_admin_cases [OF r [unfolded that]] by blast
  moreover have "load (tl_parse (pe_toml pe)) (pe_libs pe) files (ar_config args) = Ok c \<and> validate (pe_libs pe) c = Ok ()" if "act = Start_Server c" for c
    using r that
    by (auto simp: program_run_def run_command_def result_simps load_def from_toml_valid
        split: option.splits Command.splits if_splits sum.splits prod.splits)
  moreover have "files' = files" if "ar_command args \<noteq> None \<or> ar_check args \<and> \<not> ar_reset_admin_password args"
    using r that by (auto simp: program_run_def split: sum.splits if_splits option.splits)
  ultimately show ?thesis using w worker_threads_Ok [of "pe_parallelism pe" args workers] by (auto split: option.splits)
qed

theorem program_dispatch_witness:
  "\<exists>us. accounts example_admin_libs ''a.toml'' example_installation = Some us \<and> us \<noteq> []"
proof -
  have "codec_ok (pe_admin_libs example_program_env)" using example_codec by (simp add: example_program_env_def)
  from program_dispatch [OF this example_main] show ?thesis by (auto simp: example_program_env_def)
qed



end
