(* ===== verification/Source_Tests.thy ===== *)
theory Source_Tests
  imports Server Main_Program
begin

text \<open>
  The unit tests of the repository, replayed on the model: each lemma states what a \<^verbatim>\<open>#[test]\<close> of the named file
  asserts, on the test's own inputs. Tests that need a library the model takes as an argument are replayed with a
  small stand-in for it, or are left out, as are those that a theorem of a component states for every input.
\<close>

section \<open>Protocol\<close>

lemma round_trips_each_varint_width:
  "list_all (\<lambda>v. case encode_varint v [] of Ok bs \<Rightarrow> decode_varint bs = Ok (v, []) | Err _ \<Rightarrow> False)
     [0, 63, 64, 16383, 16384, 1073741823, 1073741824, 4611686018427387903]"
  by code_simp

lemma decodes_tcp_request_and_preserves_early_payload:
  "and_then (TcpRequest_encode ''example.com:443'' (as_bytes ''padding'') (as_bytes ''hello'')) TcpRequest_decode =
     Ok (\<lparr>req_destination = ''example.com:443'', req_payload = as_bytes ''hello''\<rparr>, as_bytes ''hello'')"
  by code_simp

lemma refuses_oversized_address:
  "TcpRequest_encode (replicate (MAX_ADDRESS_LENGTH + 1) CHR ''a'') [] [] = Err (InvalidLength ''address'' (MAX_ADDRESS_LENGTH + 1))"
  by (simp add: TcpRequest_encode_def validate_len_def)

lemma encodes_success_response:
  "TcpResponse_encode \<lparr>resp_status = Status_Ok, resp_message = [], resp_payload = as_bytes ''data''\<rparr> [] =
     Ok ([0, 0, 0] @ as_bytes ''data'')"
  by code_simp

definition test_message :: "u16 \<Rightarrow> u8 \<Rightarrow> bytes \<Rightarrow> UdpMessage" where
  "test_message pid n payload =
     \<lparr>session_id = 1, packet_id = pid, fragment_id = 0, fragment_count = n, udp_destination = ''127.0.0.1:53'', udp_payload = payload\<rparr>"

lemma round_trips_udp_datagram:
  "let m = \<lparr>session_id = 7, packet_id = 42, fragment_id = 0, fragment_count = 1, udp_destination = ''1.1.1.1:53'', udp_payload = [1, 2, 3]\<rparr>
   in and_then (UdpMessage_encode m) UdpMessage_decode = Ok m"
  by code_simp

lemma expires_incomplete_packets:
  "let (r1, ps) = push_at first_oldest [] (test_message 1 2 [1]) 5;
       (r2, ps) = push_at first_oldest ps (test_message 2 2 [1]) (5 + REASSEMBLY_TIMEOUT)
   in r1 = Ok None \<and> r2 = Ok None \<and> length ps = 1"
proof -
  have [simp]: "replicate 2 None = [None, None :: bytes option]" by (simp add: numeral_2_eq_2)
  show ?thesis by (simp add: push_at_def test_message_def retain_fresh_def make_room_def Let_def word_le_nat_alt)
qed

lemma directly_encodes_fragments_without_changing_payload:
  "case encode_fragments 3 4 ''127.0.0.1:53'' (replicate 100 9) 32 of
     Err _ \<Rightarrow> False
   | Ok frames \<Rightarrow>
       (case collect_results (map UdpMessage_decode frames) of
          Err _ \<Rightarrow> False
        | Ok ms \<Rightarrow> length ms > 1 \<and> unat (fragment_count (ms ! 0)) = length ms \<and> concat (map udp_payload ms) = replicate 100 9)"
  by code_simp

lemma directly_encodes_empty_payload_as_one_fragment:
  "case encode_fragments 3 4 ''127.0.0.1:53'' [] 32 of
     Ok [frame] \<Rightarrow> (case UdpMessage_decode frame of Ok m \<Rightarrow> fragment_count m = 1 \<and> udp_payload m = [] | Err _ \<Rightarrow> False)
   | _ \<Rightarrow> False"
  by code_simp

section \<open>Transport\<close>

lemma negotiates_server_and_client_limits:
  "let c = Hy2CongestionConfig_new 10000000
   in negotiated_rate c 5000000 = 5000000 \<and> negotiated_rate c 20000000 = 10000000 \<and> negotiated_rate c 0 = 0"
  by (simp add: negotiated_rate_def Hy2CongestionConfig_new_def)

lemma orders_and_filters_address_families:
  "let ipv4 = SocketAddrV4 0xC0000201 443; ipv6 = SocketAddrV6 0x20010db8000000000000000000000001 443 0 0
   in order_addresses [ipv6, ipv4] PreferIpv4 = [ipv4, ipv6] \<and> order_addresses [ipv6, ipv4] Ipv4Only = [ipv4] \<and>
      order_addresses [ipv4, ipv6] Ipv6Only = [ipv6]"
  by code_simp

lemma detects_ssh_without_consuming_the_client_banner: "is_ssh_connection [Ok (as_bytes ''SSH-'')] = Ok True"
  by code_simp

lemma leaves_tls_connections_for_vless: "is_ssh_connection [Ok [0x16, 0x03, 0x01, 0x00]] = Ok False"
  by code_simp

lemma idle_server_first_connections_are_routed_to_ssh: "is_ssh_connection [] = Ok True"
  by code_simp

lemma traffic_registry_tracks_users_and_preserves_existing_counters:
  "let r = sync_users [''poetry'', ''amamiya''] TrafficRegistry_default;
       (a, r) = user ''poetry'' r;
       r = connection a (record_download a 2048 (record_upload a 1024 r));
       r' = drop_connection a (sync_users [''poetry'', ''new-user''] r)
   in snapshots r = [\<lparr>snap_username = ''amamiya'', snap_uploaded = 0, snap_downloaded = 0, snap_active = 0\<rparr>,
                     \<lparr>snap_username = ''poetry'', snap_uploaded = 1024, snap_downloaded = 2048, snap_active = 1\<rparr>] \<and>
      snapshots r' = [\<lparr>snap_username = ''new-user'', snap_uploaded = 0, snap_downloaded = 0, snap_active = 0\<rparr>,
                      \<lparr>snap_username = ''poetry'', snap_uploaded = 1024, snap_downloaded = 2048, snap_active = 0\<rparr>]"
  by code_simp

lemma tracks_connected_gateway_nodes:
  "let (a, t) = tracker_connect ''test-exit'' ''https://exit.example/sub/code'' 9 GatewayTracker_default;
       t' = tracker_drop a 11 t
   in tracker_snapshot t = [\<lparr>gs_name = ''test-exit'', gs_online = True, gs_tunnel_count = 1, gs_connected_since = 9,
         gs_last_seen = 9, gs_url = ''https://exit.example/sub/code''\<rparr>] \<and>
      map gs_online (tracker_snapshot t') = [False] \<and> map gs_tunnel_count (tracker_snapshot t') = [0] \<and>
      map gs_last_seen (tracker_snapshot t') = [11]"
  by code_simp

section \<open>Settings\<close>

lemma ssh_protocol_sharing_requires_loopback_and_keys:
  "let s = SshConfig_default\<lparr>ssh_enabled := True, ssh_username := ''singbox-proxy'', ssh_private_key := ''private-key''\<rparr>
   in validate_ssh s = Ok () \<and> \<not> is_ok (validate_ssh (s\<lparr>ssh_upstream := SocketAddrV4 0xC633640A 51401\<rparr>))"
  by code_simp

lemma share_config_allows_an_ipv6_only_endpoint:
  "validate example_libs (example_config\<lparr>share := Some \<lparr>share_server = [], share_ipv6_server = ''2001:db8::10'', share_port = 443,
     share_sni = ''example.com'', share_insecure = False, share_rule_preset = ''balanced'', share_ad_block = False,
     share_whitelist = [], share_blacklist = []\<rparr>\<rparr>) = Ok ()"
  by code_simp

text \<open>The stand-in for the host parser tells the test's IPv4 address from its domains, which it puts in lower case.\<close>

definition test_host :: "string \<Rightarrow> url_host option" where
  "test_host d = (if d = ''192.0.2.1'' then Some Host_Ipv4 else if str_contains ''/'' d then None else Some (Host_Domain (to_ascii_lowercase d)))"

lemma custom_domain_lists_validate_and_deduplicate:
  "parse_domain_rules test_host (''Example.COM'' @ [CHR 0x0A] @ ''example.com'' @ [CHR 0x0A] @ ''*.Example.NET'') ''whitelist'' =
     Ok [Exact ''example.com'', Suffix ''example.net''] \<and>
   \<not> is_ok (parse_domain_rules test_host ''https://example.com'' ''blacklist'') \<and>
   \<not> is_ok (parse_domain_rules test_host ''192.0.2.1'' ''blacklist'')"
  by code_simp

section \<open>Management\<close>

lemma network_address_scopes_distinguish_public_and_private_routes:
  "ipv4_scope 0xC0A80114 = ''private'' \<and> ipv4_scope 0x64400114 = ''private'' \<and> ipv4_scope 0x08080808 = ''public'' \<and>
   ipv6_scope 0xfd000000000000000000000000000020 = ''private'' \<and> ipv6_scope 0xfe800000000000000000000000000020 = ''private'' \<and>
   \<not> is_public_ipv6 0x20010db8000000000000000000000020 \<and> is_public_ipv6 0x26064700470000000000000000001111"
  by code_simp

lemma explicit_listen_addresses_are_used_for_read_only_share_addresses:
  "let pr = \<lparr>pr_local4 = None, pr_local6 = None\<rparr> in
   detect_network_addresses pr (SocketAddrV4 0xC000020A 443) = (Some 0xC000020A, None) \<and>
   detect_network_addresses pr (SocketAddrV6 0x20010db8000000000000000000000010 443 0 0) =
     (None, Some 0x20010db8000000000000000000000010)"
  by code_simp

lemma nat_detection_preserves_explicit_public_share_addresses:
  "merge_auto_ipv4_address ''ph1.deeprush.ai'' (Some 0x0A5B0024) = ''ph1.deeprush.ai'' \<and>
   merge_auto_ipv4_address ''23.147.56.201'' (Some 0x0A00A002) = ''23.147.56.201'' \<and>
   merge_auto_ipv4_address [] (Some 0x0A00A002) = ''10.0.160.2'' \<and>
   merge_auto_ipv4_address ''23.147.56.201'' (Some 0x08080808) = ''23.147.56.201'' \<and>
   merge_auto_ipv6_address ''2606:4700:4700::1111'' (Some 0xfd000000000000000000000000000020) = ''2606:4700:4700::1111'' \<and>
   merge_auto_ipv6_address [] (Some 0xfd000000000000000000000000000020) = []"
  by code_simp

lemma file_response_rejects_encoded_parent_path:
  "fst (file_response example_libs (masq_libs.percent_decode_update (\<lambda>_ _. as_bytes ''/../secret'') example_masq_libs) ''www''
     \<lparr>mr_method = ''GET'', mr_path = ''/%2e%2e/secret'', mr_query = None, mr_authority = Some ''example.com'', mr_headers = []\<rparr>) =
   Err ''unsafe masquerade request path''"
  by code_simp

lemma shell_quotes_single_quotes:
  "shell_quote [CHR ''a'', CHR 0x27, CHR ''b''] =
     [CHR 0x27, CHR ''a'', CHR 0x27, CHR 0x5C, CHR 0x27, CHR 0x27, CHR ''b'', CHR 0x27]"
  by code_simp

end
