(* ===== verification/Spec2Isabelle.thy ===== *)
theory Spec2Isabelle
  imports Salamander Source_Tests
begin

text \<open>
  \<^bold>\<open>Verification of the proxy server sing-box-ser-mini\<close> (the Rust sources under \<^verbatim>\<open>src/src\<close>).

  \<^bold>\<open>The program.\<close> One process serves a Hysteria 2 proxy over QUIC and a VLESS proxy over TLS and TCP on the same
  port, optionally obfuscates its UDP packets, optionally shares the TCP port with an SSH server, and answers everything else like
  an ordinary web site. A management interface edits the configuration, the accounts and the service
  installation, converts subscriptions and keeps short links; a separate NAT tunnel makes a host without a
  public address reachable. \<^verbatim>\<open>main.rs\<close> decides which part runs; \<^verbatim>\<open>admin.rs\<close> runs the proxy of \<^verbatim>\<open>server.rs\<close> in a
  loop and restarts it on a reload; \<^verbatim>\<open>server.rs\<close> hands QUIC connections to the authentication, the TCP relay and the
  UDP sessions, and TCP connections to \<^verbatim>\<open>tcp_server.rs\<close>, all of which count traffic in one registry.

  \<^bold>\<open>How the code is modelled.\<close> Structures are records, enumerations datatypes, fixed-width integers words that
  wrap or saturate as the code says, and strings lists of bytes (so that lengths are those of the code), with \<open>valid_str\<close>
  where UTF-8 matters. An error is \<open>Err\<close> of a sum with the message of the code; an operation on state
  takes and returns the state; a panic is \<open>None\<close>. Concurrent tasks are steps of an inductive relation over the shared state;
  an operation that holds a lock is one step. A loop over input is a function over the list of results
  the input gives, the failures of every read and write among them (HTTP/3 requests with the outcome of each part of their reply, UDP
  datagrams with the outcome of each send, connections of the tunnel gateway and assignments of its client), and returns the state at its end; loops over data are recursive functions with termination proofs, so no fuel is used, except where the source
  itself bounds the number of attempts. The only loop of the source that may not end (making room in a short-link store of capacity
  zero) is an option, and it is proved to end for every capacity the program sets.

  Libraries and the operating system are parameters: TOML, JSON, Base64, URL and HTTP header parsers, BLAKE2b, SHA-256 and
  HMAC, TLS and QUIC, name resolution, sockets, files, clocks and random numbers. What a theorem needs of them is a hypothesis
  (\<open>codec_ok\<close>, \<open>base64_ok\<close>, \<open>tools_ok\<close>, \<open>encoders_ok\<close> and the like), and a witness shows that it can hold.

  \<^bold>\<open>The theories.\<close>

  \<^item> \<open>Prelude\<close>, \<open>Rust_Str\<close>, \<open>Rust_Path\<close>, \<open>Net_Addr\<close>: results, saturating arithmetic, byte encodings; the part of the Rust
    standard library for strings, numbers, paths and addresses, with parsing and printing proved inverse where it matters.
  \<^item> \<open>Varint\<close>, \<open>Tcp_Codec\<close>, \<open>Udp_Codec\<close>, \<open>Udp_Reassembler\<close> (\<^verbatim>\<open>protocol/varint.rs\<close>, \<^verbatim>\<open>tcp.rs\<close>, \<^verbatim>\<open>udp.rs\<close>): the Hysteria 2
    frames. Round trips, the exact set of accepted inputs, fragmentation against a reference, reassembly of fragments in any order, repeated and
    mixed with other packets, and the bounds of the reassembler's memory. The locale \<open>prefix_codec\<close> carries the varint laws
    to the codecs, \<open>eviction_policy\<close> the choice of the packet that makes room.
  \<^item> \<open>Salamander\<close> (\<^verbatim>\<open>salamander.rs\<close>, \<^verbatim>\<open>salamander_socket.rs\<close>): the obfuscating socket, in-place decryption of receive batches and
    the round trip between two sockets.
  \<^item> \<open>Config\<close> (\<^verbatim>\<open>config.rs\<close>), \<open>Outbound\<close> (\<^verbatim>\<open>outbound.rs\<close>), \<open>Brutal\<close> (\<^verbatim>\<open>brutal.rs\<close>), \<open>Traffic\<close> (\<^verbatim>\<open>server.rs\<close>): validation and atomic
    saving; address order and connecting; the congestion controller as a refinement of the loss rate over a window of
    five seconds; the traffic registry, whose snapshots count exactly the open connections.
  \<^item> \<open>Hy2_Auth\<close>, \<open>Hy2_Tcp\<close>, \<open>Hy2_Udp\<close>, \<open>Masquerade\<close>, \<open>Server\<close> (\<^verbatim>\<open>server.rs\<close>, \<^verbatim>\<open>protocol/auth.rs\<close>, \<^verbatim>\<open>masquerade.rs\<close>): who is authenticated and what
    a probe learns, a proxied connection end to end, the UDP session table and
    the loop that serves datagrams, whose failure ends the connection, the masquerade's confinement to its
    directory, and the accept loop that pairs connections with congestion cells.
  \<^item> \<open>Vless_Server\<close>, \<open>Tcp_Server\<close> (\<^verbatim>\<open>vless_server.rs\<close>, \<^verbatim>\<open>tcp_server.rs\<close>): VLESS over TCP, its framed UDP and the SSH sharing. The locale
    \<open>byte_counter\<close> states what both directions of a relay share.
  \<^item> \<open>Sublink_Rules\<close>, \<open>Sublink_Parse\<close>, \<open>Sublink_Render\<close>, \<open>Sublink_Store\<close>, \<open>Sublink_Service\<close> (\<^verbatim>\<open>sublink.rs\<close>): the subscription converter. What the parser
    accepts, that no node can inject structure into a document, that a sing-box document refers only to
    what it declares, the short-link store as a refinement of its history, and that a shared link keeps resolving. The
    locale \<open>link_keeper\<close> carries the permanence of links over any steps of the store.
  \<^item> \<open>Nat_Tunnel\<close>, \<open>Nat_Gateway\<close>, \<open>Reverse_Proxy\<close> (\<^verbatim>\<open>nat_tunnel.rs\<close>, \<^verbatim>\<open>reverse_proxy.rs\<close>): the handshake, the workers of the client,
    the gateway's loop over its two listeners with the pool of idle tunnels and the status page, and the controller that keeps the running tunnel, the settings in memory and the file in agreement.
  \<^item> \<open>Admin_Auth\<close>, \<open>Admin_Api\<close>, \<open>Admin_Router\<close> (\<^verbatim>\<open>admin.rs\<close>): accounts, sessions and authorization; the configuration, the proxy loop, the
    status page and the subscription endpoints; the routing table and one request from its path to the new state, with
    what a client without credentials can do; the fixed pages with their security headers.
  \<^item> \<open>Startup\<close> (\<^verbatim>\<open>startup.rs\<close>), \<open>Main_Program\<close> (\<^verbatim>\<open>main.rs\<close>): the service files with their quoting, installing and removing; which part runs for
    which arguments, and that the management process starts with the invariants of all components.
  \<^item> \<open>Source_Tests\<close>: the unit tests of the sources that do not need the operating system, as lemmas on the tests' own inputs; they
    check the definitions against what the authors expect of the code.
  \<^item> This theory: the effect of a configuration change on who the proxy serves, across the management interface, the
    server and the authentication.

  \<^bold>\<open>Bounds.\<close> Integers have the width of the code on a 64-bit machine: \<^verbatim>\<open>usize\<close> is a natural number where memory bounds it, and 64 bits
  where the code parses or saturates it. Floating-point numbers appear only in the congestion controller: they are rationals
  rounded to 53 bits after every operation, in magnitudes that neither overflow nor become subnormal.

  \<^bold>\<open>Not modelled.\<close> Log output; the contents of the embedded web files; the module declarations; the probe client under
  \<^verbatim>\<open>examples\<close>; and the scheduling of the asynchronous runtime beyond the interleavings the step relations allow. The QUIC, TLS and
  HTTP protocols are the libraries'. Files are texts or bytes with a mode; links, disk space and concurrent writers of the
  same file are left out.
\<close>



end
